theory Spec2Isabelle
  imports Complex_Main
begin

section \<open>Conventions\<close>

text \<open>
  The C++ sources compute on \<open>double\<close>. Every \<open>double\<close> is read here as a real number and
  every operation on doubles as the exact operation on reals: rounding, infinities and NaN are
  outside this development. C++ \<open>int\<close>, \<open>unsigned\<close> and \<open>size_t\<close> values are read as
  \<open>int\<close> and \<open>nat\<close>; no computation below comes near their bounds.
\<close>

section \<open>ListMatch.h: MatchConditions\<close>

record MatchConditions =
  nStarsList1 :: int
  nStarsList2 :: int
  maxTrialCount :: int
  nSigmas :: real
  maxShiftX :: real
  maxShiftY :: real
  sizeRatio :: real
  deltaSizeRatio :: real
  minMatchRatio :: real
  printLevel :: int
  algorithm :: int

text \<open>
  The default constructor. Members are initialised in declaration order, so \<open>sizeRatio\<close>
  already holds its value when \<open>deltaSizeRatio(0.1 * sizeRatio)\<close> is evaluated.
\<close>

definition MatchConditions_ctor :: MatchConditions where
  "MatchConditions_ctor =
     (let sr = (1::real) in
      \<lparr> nStarsList1 = 70, nStarsList2 = 70, maxTrialCount = 4, nSigmas = 3,
        maxShiftX = 50, maxShiftY = 50,
        sizeRatio = sr, deltaSizeRatio = 0.1 * sr, minMatchRatio = 1 / 3,
        printLevel = 0, algorithm = 2 \<rparr>)"

definition minSizeRatio :: "MatchConditions \<Rightarrow> real" where
  "minSizeRatio c = sizeRatio c - deltaSizeRatio c"

definition maxSizeRatio :: "MatchConditions \<Rightarrow> real" where
  "maxSizeRatio c = sizeRatio c + deltaSizeRatio c"

section \<open>FitterBase.cc: saveChi2Contributions\<close>

datatype error = OutOfRange | NullPointer

text \<open>
  \<open>std::string::rfind(c)\<close>: the scan runs from the last character down to the first;
  \<open>npos\<close> is \<open>None\<close>.
\<close>

fun rfind_from :: "char \<Rightarrow> string \<Rightarrow> nat \<Rightarrow> nat option" where
  "rfind_from c s 0 = None"
| "rfind_from c s (Suc i) = (if s ! i = c then Some i else rfind_from c s i)"

definition rfind :: "char \<Rightarrow> string \<Rightarrow> nat option" where
  "rfind c s = rfind_from c s (length s)"

text \<open>\<open>std::string::insert(pos, str)\<close> throws \<open>std::out_of_range\<close> when \<open>pos > size()\<close>.\<close>

definition str_insert :: "nat \<Rightarrow> string \<Rightarrow> string \<Rightarrow> error + string" where
  "str_insert pos ins s =
     (if pos > length s then Inl OutOfRange else Inr (take pos s @ ins @ drop pos s))"

text \<open>
  \<open>saveChi2Contributions\<close> hands one file name to \<open>saveChi2MeasContributions\<close> and one to
  \<open>saveChi2RefContributions\<close> (both virtual, implemented by the concrete fitters). The model
  returns the two names, in that order.
\<close>

definition saveChi2Contributions :: "string \<Rightarrow> error + (string \<times> string)" where
  "saveChi2Contributions baseName =
     (let dot0 = rfind (CHR ''.'') baseName;
          slash = rfind (CHR ''/'') baseName;
          dot = (case dot0 of
                   None \<Rightarrow> length baseName
                 | Some d \<Rightarrow>
                     (case slash of
                        None \<Rightarrow> d
                      | Some sl \<Rightarrow> if d < sl then length baseName else d))
      in case str_insert dot ''-meas'' baseName of
           Inl e \<Rightarrow> Inl e
         | Inr measTuple \<Rightarrow>
             (case str_insert dot ''-ref'' baseName of
                Inl e \<Rightarrow> Inl e
              | Inr refTuple \<Rightarrow> Inr (measTuple, refTuple)))"

text \<open>
  The derivation as the specification words it: the insertion point is the final \<open>.\<close> of the
  base name, or the end of the string when there is none.
\<close>

definition spec_saveChi2_paths :: "string \<Rightarrow> string \<times> string" where
  "spec_saveChi2_paths baseName =
     (let dot = (case rfind (CHR ''.'') baseName of None \<Rightarrow> length baseName | Some d \<Rightarrow> d)
      in (take dot baseName @ ''-meas'' @ drop dot baseName,
          take dot baseName @ ''-ref'' @ drop dot baseName))"

section \<open>FitterBase.cc: the data the fitter works on\<close>

text \<open>
  Stars are shared objects reached through pointers. A pointer is the address of the object
  (a natural number) and the objects live in two stores, one per class. Of each class only the
  members that \<open>FitterBase.cc\<close> reads or writes are kept; coordinates, fluxes and model
  parameters are touched by the concrete fitters only and are part of their own state
  (the type variable \<open>'p\<close> below).
\<close>

record CcdImage =
  catalogForFit :: "nat list"  \<comment> \<open>addresses of the MeasuredStars of this image\<close>

record MeasuredStar =
  valid :: bool
  fittedStar :: nat  \<comment> \<open>\<open>getFittedStar()\<close>: address of the owning FittedStar\<close>
  ccdImage :: CcdImage  \<comment> \<open>\<open>getCcdImage()\<close>\<close>

record FittedStar =
  measurementCount :: int
  indexInMatrix :: nat
  refStar :: "nat option"  \<comment> \<open>\<open>getRefStar()\<close>, \<open>None\<close> for \<open>nullptr\<close>\<close>

record Associations =
  ccdImageList :: "CcdImage list"
  fittedStarList :: "nat list"
  refStarList :: "nat list"
  measuredStars :: "nat \<Rightarrow> MeasuredStar"
  fittedStars :: "nat \<Rightarrow> FittedStar"

text \<open>
  The star attached to a chi2 term is a \<open>BaseStar\<close> pointer whose dynamic type is found with
  \<open>dynamic_pointer_cast\<close>: a MeasuredStar, a FittedStar, or neither (both casts give
  \<open>nullptr\<close>).
\<close>

datatype StarPtr = MeasuredStarPtr nat | FittedStarPtr nat | OtherStarPtr

record Chi2Star =
  chi2 :: real
  star :: StarPtr

type_synonym Chi2List = "Chi2Star list"

record Chi2Statistic =
  stat_chi2 :: real
  stat_ndof :: int

datatype LogEntry =
    WarnNoMeasuredStars nat  \<comment> \<open>"FittedStar with no measuredStars found as an outlier"\<close>
  | WarnOneMeasuredStarNoRef nat
      \<comment> \<open>"FittedStar with 1 measuredStar and no refStar found as an outlier"\<close>
  | WarnChi2WentUp  \<comment> \<open>"chi2 went up, skipping outlier rejection loop"\<close>
  | ErrorFactorizationFailed  \<comment> \<open>"minimize: factorization failed"\<close>

datatype MinimizeResult = Converged | Chi2Increased | Failed

record 'p FitterBase =
  associations :: Associations
  nParTot :: nat
  lastNTrip :: nat
  nMeasuredStars :: nat
  fitterState :: 'p  \<comment> \<open>members of the concrete fitter and the parameters of its model\<close>
  logged :: "LogEntry list"  \<comment> \<open>warnings and errors written to the log, oldest first\<close>

text \<open>
  The pure virtual members of \<open>FitterBase\<close> and the Eigen/CHOLMOD operations that
  \<open>FitterBase.cc\<close> calls. None of them is defined in the sources at hand, so they are
  parameters of the model: \<open>'t\<close> is \<open>TripletList\<close>, \<open>'g\<close> is \<open>Eigen::VectorXd\<close>,
  \<open>'h\<close> is \<open>SparseMatrixD\<close> and \<open>'c\<close> is \<open>CholmodSimplicialLDLT2\<close>.

  The two chi2 accumulators are templates over the accumulator class; they call
  \<open>addEntry(chi2, ndof, star)\<close> once per term. They are modelled by the list of the entries they
  add, from which both \<open>Chi2Statistic\<close> and \<open>Chi2List\<close> are filled.
  \<open>assignIndices\<close> gives the new \<open>_nParTot\<close>, the new \<open>indexInMatrix\<close> of every
  FittedStar and the new state of the concrete fitter; \<open>offsetParams\<close> changes parameters,
  positions and fluxes, all of which are in \<open>'p\<close>.
\<close>

record ('p, 't, 'g, 'h, 'c) Collaborators =
  v_assignIndices :: "string \<Rightarrow> 'p FitterBase \<Rightarrow> nat \<times> (nat \<Rightarrow> nat) \<times> 'p"
  v_offsetParams :: "'g \<Rightarrow> 'p FitterBase \<Rightarrow> 'p"
  v_accumulateStatImageList :: "'p FitterBase \<Rightarrow> CcdImage list \<Rightarrow> (real \<times> int \<times> StarPtr) list"
  v_accumulateStatRefStars :: "'p FitterBase \<Rightarrow> (real \<times> int \<times> StarPtr) list"
  v_getIndicesOfMeasuredStar :: "'p FitterBase \<Rightarrow> nat \<Rightarrow> nat list"
  v_leastSquareDerivativesMeasurement ::
    "'p FitterBase \<Rightarrow> CcdImage \<Rightarrow> nat list option \<Rightarrow> 't \<times> 'g \<Rightarrow> 't \<times> 'g"
  v_leastSquareDerivativesReference :: "'p FitterBase \<Rightarrow> nat list \<Rightarrow> 't \<times> 'g \<Rightarrow> 't \<times> 'g"
  newTripletList :: "nat \<Rightarrow> 't"  \<comment> \<open>\<open>TripletList(count)\<close>\<close>
  tripletSize :: "'t \<Rightarrow> nat"  \<comment> \<open>\<open>size()\<close>\<close>
  zeroVector :: "nat \<Rightarrow> 'g"  \<comment> \<open>\<open>VectorXd(n)\<close> followed by \<open>setZero()\<close>\<close>
  negateVector :: "'g \<Rightarrow> 'g"  \<comment> \<open>\<open>grad *= -1\<close>\<close>
  sparseFromTriplets :: "nat \<Rightarrow> 't \<Rightarrow> 'h"
    \<comment> \<open>\<open>SparseMatrixD(nParTot, getNextFreeIndex())\<close> and \<open>setFromTriplets\<close>\<close>
  timesTranspose :: "'h \<Rightarrow> 'h"  \<comment> \<open>\<open>jacobian * jacobian.transpose()\<close>\<close>
  cholFactor :: "'h \<Rightarrow> 'c"  \<comment> \<open>the constructor from a matrix\<close>
  cholCompute :: "'c \<Rightarrow> 'h \<Rightarrow> 'c"  \<comment> \<open>\<open>compute(hessian)\<close>\<close>
  cholSuccess :: "'c \<Rightarrow> bool"  \<comment> \<open>\<open>info() == Eigen::Success\<close>\<close>
  cholSolve :: "'c \<Rightarrow> 'g \<Rightarrow> 'g"
  cholUpdate :: "'c \<Rightarrow> 'h \<Rightarrow> 'c"  \<comment> \<open>\<open>update(H, false)\<close>, a downdate\<close>

section \<open>FitterBase.cc: computeChi2 and findOutliers\<close>

definition accumulateChi2Statistic :: "(real \<times> int \<times> StarPtr) list \<Rightarrow> Chi2Statistic \<Rightarrow> Chi2Statistic" where
  "accumulateChi2Statistic es acc =
     fold (\<lambda>(c, d, s) a. a\<lparr>stat_chi2 := stat_chi2 a + c, stat_ndof := stat_ndof a + d\<rparr>) es acc"

definition accumulateChi2List :: "(real \<times> int \<times> StarPtr) list \<Rightarrow> Chi2List \<Rightarrow> Chi2List" where
  "accumulateChi2List es acc = acc @ map (\<lambda>(c, d, s). \<lparr>chi2 = c, star = s\<rparr>) es"

definition computeChi2 :: "('p, 't, 'g, 'h, 'c) Collaborators \<Rightarrow> 'p FitterBase \<Rightarrow> Chi2Statistic" where
  "computeChi2 env st =
     (let c0 = \<lparr>stat_chi2 = 0, stat_ndof = 0\<rparr>;
          c1 = accumulateChi2Statistic
                 (v_accumulateStatImageList env st (ccdImageList (associations st))) c0;
          c2 = accumulateChi2Statistic (v_accumulateStatRefStars env st) c1
      in c2\<lparr>stat_ndof := stat_ndof c2 - int (nParTot st)\<rparr>)"

text \<open>
  Modelled from the spec: \<open>Chi2List::computeAverageAndSigma\<close> (declared in \<open>Chi2.h\<close>, which
  is not among the sources) "returns unweighted mean and sample standard deviation".
\<close>

definition computeAverageAndSigma :: "Chi2List \<Rightarrow> real \<times> real" where
  "computeAverageAndSigma l =
     (let n = real (length l);
          average = (\<Sum>c\<leftarrow>l. chi2 c) / n;
          sigma = sqrt ((\<Sum>c\<leftarrow>l. (chi2 c - average)\<^sup>2) / (n - 1))
      in (average, sigma))"

text \<open>The local variables of the loop of \<open>findOutliers\<close>.\<close>

record OutlierScan =
  affectedParams :: "int list"
  msOutliers :: "nat list"
  fsOutliers :: "nat list"
  nOutliers :: nat
  warnings :: "LogEntry list"

text \<open>
  The loop that sets \<open>drop_it\<close>. \<open>affectedParams(i)\<close> with \<open>i\<close> outside the vector is an
  Eigen assertion failure; it is the error \<open>OutOfRange\<close> here.
\<close>

fun drop_it_loop :: "int list \<Rightarrow> nat list \<Rightarrow> bool \<Rightarrow> error + bool" where
  "drop_it_loop ap [] d = Inr d"
| "drop_it_loop ap (i # is) d =
     (if i \<ge> length ap then Inl OutOfRange
      else drop_it_loop ap is (if ap ! i \<noteq> 0 then False else d))"

fun mark_loop :: "int list \<Rightarrow> nat list \<Rightarrow> error + int list" where
  "mark_loop ap [] = Inr ap"
| "mark_loop ap (i # is) =
     (if i \<ge> length ap then Inl OutOfRange else mark_loop (ap[i := ap ! i + 1]) is)"

text \<open>The part of the loop body after the indices of the term are known.\<close>

definition store_outlier :: "StarPtr \<Rightarrow> nat list \<Rightarrow> OutlierScan \<Rightarrow> error + OutlierScan" where
  "store_outlier p indices s =
     (case drop_it_loop (affectedParams s) indices True of
        Inl e \<Rightarrow> Inl e
      | Inr drop_it \<Rightarrow>
          if drop_it then
            (let s1 = (case p of
                         MeasuredStarPtr m \<Rightarrow> s\<lparr>msOutliers := msOutliers s @ [m]\<rparr>
                       | FittedStarPtr f \<Rightarrow> s\<lparr>fsOutliers := fsOutliers s @ [f]\<rparr>
                       | OtherStarPtr \<Rightarrow> s)
             in case mark_loop (affectedParams s1) indices of
                  Inl e \<Rightarrow> Inl e
                | Inr ap \<Rightarrow> Inr (s1\<lparr>affectedParams := ap, nOutliers := nOutliers s1 + 1\<rparr>))
          else Inr s)"

text \<open>One turn of the loop for a term that is not below the cut.\<close>

definition outlier_step ::
  "('p, 't, 'g, 'h, 'c) Collaborators \<Rightarrow> 'p FitterBase \<Rightarrow> Chi2Star \<Rightarrow> OutlierScan \<Rightarrow> error + OutlierScan" where
  "outlier_step env st c s =
     (case star c of
        OtherStarPtr \<Rightarrow> Inl NullPointer
      | FittedStarPtr f \<Rightarrow>
          (let fs = fittedStars (associations st) f in
           if measurementCount fs = 0
           then Inr (s\<lparr>warnings := warnings s @ [WarnNoMeasuredStars f]\<rparr>)
           else store_outlier (star c) [indexInMatrix fs] s)
      | MeasuredStarPtr m \<Rightarrow>
          (let tf = fittedStar (measuredStars (associations st) m);
               tempFittedStar = fittedStars (associations st) tf in
           if measurementCount tempFittedStar = 1 \<and> refStar tempFittedStar = None
           then Inr (s\<lparr>warnings := warnings s @ [WarnOneMeasuredStarNoRef tf]\<rparr>)
           else store_outlier (star c) (v_getIndicesOfMeasuredStar env st m) s))"

text \<open>The loop over the sorted list read from its end; \<open>break\<close> at the first term below the cut.\<close>

fun outlier_loop ::
  "('p, 't, 'g, 'h, 'c) Collaborators \<Rightarrow> 'p FitterBase \<Rightarrow> real \<Rightarrow> Chi2List \<Rightarrow> OutlierScan \<Rightarrow> error + OutlierScan" where
  "outlier_loop env st cutv [] s = Inr s"
| "outlier_loop env st cutv (c # cs) s =
     (if chi2 c < cutv then Inr s
      else case outlier_step env st c s of
             Inl e \<Rightarrow> Inl e
           | Inr s' \<Rightarrow> outlier_loop env st cutv cs s')"

text \<open>
  The list of chi2 terms that \<open>findOutliers\<close> collects, and the order in which its loop reads
  them: \<open>std::sort\<close> with \<open>operator<\<close> of \<open>Chi2Star\<close> (which compares \<open>chi2\<close>), then a
  reverse iteration. \<open>std::sort\<close> leaves the order of equal terms open; the model takes the
  stable order.
\<close>

definition collectChi2List :: "('p, 't, 'g, 'h, 'c) Collaborators \<Rightarrow> 'p FitterBase \<Rightarrow> Chi2List" where
  "collectChi2List env st =
     accumulateChi2List (v_accumulateStatRefStars env st)
       (accumulateChi2List (v_accumulateStatImageList env st (ccdImageList (associations st))) [])"

definition outlierCut :: "real \<Rightarrow> Chi2List \<Rightarrow> real" where
  "outlierCut nSigmaCut l =
     (let averageAndSigma = computeAverageAndSigma (sort_key chi2 l)
      in fst averageAndSigma + nSigmaCut * snd averageAndSigma)"

definition examined :: "Chi2List \<Rightarrow> Chi2List" where
  "examined l = rev (sort_key chi2 l)"

text \<open>The state of the loop when it starts: \<open>affectedParams\<close> is zeroed, nothing is stored.\<close>

definition startScan :: "nat \<Rightarrow> nat list \<Rightarrow> nat list \<Rightarrow> OutlierScan" where
  "startScan n msOut fsOut =
     \<lparr>affectedParams = replicate n 0, msOutliers = msOut, fsOutliers = fsOut,
      nOutliers = 0, warnings = []\<rparr>"

text \<open>
  \<open>findOutliers\<close> appends to the two lists of its caller and returns the number of outliers;
  the model returns that number, the two lists and the warnings logged. The median is computed
  for a debug message only.
\<close>

definition findOutliers ::
  "('p, 't, 'g, 'h, 'c) Collaborators \<Rightarrow> 'p FitterBase \<Rightarrow> real \<Rightarrow> nat list \<Rightarrow> nat list \<Rightarrow>
     error + (nat \<times> nat list \<times> nat list \<times> LogEntry list)" where
  "findOutliers env st nSigmaCut msOut fsOut =
     (let chi2List = collectChi2List env st;
          nval = length chi2List
      in if nval = 0 then Inr (0, msOut, fsOut, [])
         else
           (let cutv = outlierCut nSigmaCut chi2List
            in case outlier_loop env st cutv (examined chi2List)
                      (startScan (nParTot st) msOut fsOut) of
                 Inl e \<Rightarrow> Inl e
               | Inr s \<Rightarrow> Inr (nOutliers s, msOutliers s, fsOutliers s, warnings s)))"

text \<open>
  Notions used to state the properties of \<open>findOutliers\<close>: the parameter indices one chi2 term
  depends on, as the loop body determines them; the indices of all outliers stored so far; and
  pairwise disjointness of the index sets of the stored outliers.
\<close>

definition contribution_indices ::
  "('p, 't, 'g, 'h, 'c) Collaborators \<Rightarrow> 'p FitterBase \<Rightarrow> StarPtr \<Rightarrow> nat list" where
  "contribution_indices env st p =
     (case p of
        MeasuredStarPtr m \<Rightarrow> v_getIndicesOfMeasuredStar env st m
      | FittedStarPtr f \<Rightarrow> [indexInMatrix (fittedStars (associations st) f)]
      | OtherStarPtr \<Rightarrow> [])"

definition recorded_indices ::
  "('p, 't, 'g, 'h, 'c) Collaborators \<Rightarrow> 'p FitterBase \<Rightarrow> nat list \<Rightarrow> nat list \<Rightarrow> nat set" where
  "recorded_indices env st ms fs =
     (\<Union>m\<in>set ms. set (contribution_indices env st (MeasuredStarPtr m))) \<union>
     (\<Union>f\<in>set fs. set (contribution_indices env st (FittedStarPtr f)))"

definition outliers_disjoint ::
  "('p, 't, 'g, 'h, 'c) Collaborators \<Rightarrow> 'p FitterBase \<Rightarrow> nat list \<Rightarrow> nat list \<Rightarrow> bool" where
  "outliers_disjoint env st ms fs \<longleftrightarrow>
     (\<forall>i j. i < j \<and> j < length ms \<longrightarrow>
        set (contribution_indices env st (MeasuredStarPtr (ms ! i))) \<inter>
        set (contribution_indices env st (MeasuredStarPtr (ms ! j))) = {}) \<and>
     (\<forall>i j. i < j \<and> j < length fs \<longrightarrow>
        set (contribution_indices env st (FittedStarPtr (fs ! i))) \<inter>
        set (contribution_indices env st (FittedStarPtr (fs ! j))) = {}) \<and>
     (\<forall>m\<in>set ms. \<forall>f\<in>set fs.
        set (contribution_indices env st (MeasuredStarPtr m)) \<inter>
        set (contribution_indices env st (FittedStarPtr f)) = {})"

text \<open>
  The invariant of the loop of \<open>findOutliers\<close>: \<open>affectedParams\<close> has \<open>_nParTot\<close>
  entries, none negative, and an entry is non-zero exactly for the indices of the stored
  outliers, whose index sets are pairwise disjoint.
\<close>

definition scan_inv ::
  "('p, 't, 'g, 'h, 'c) Collaborators \<Rightarrow> 'p FitterBase \<Rightarrow> OutlierScan \<Rightarrow> bool" where
  "scan_inv env st s \<longleftrightarrow>
     length (affectedParams s) = nParTot st \<and>
     (\<forall>i<nParTot st. 0 \<le> affectedParams s ! i \<and>
        (affectedParams s ! i \<noteq> 0 \<longleftrightarrow> i \<in> recorded_indices env st (msOutliers s) (fsOutliers s))) \<and>
     recorded_indices env st (msOutliers s) (fsOutliers s) \<subseteq> {..<nParTot st} \<and>
     outliers_disjoint env st (msOutliers s) (fsOutliers s)"

section \<open>FitterBase.cc: minimize\<close>

definition leastSquareDerivatives ::
  "('p, 't, 'g, 'h, 'c) Collaborators \<Rightarrow> 'p FitterBase \<Rightarrow> 't \<times> 'g \<Rightarrow> 't \<times> 'g" where
  "leastSquareDerivatives env st tg =
     v_leastSquareDerivativesReference env st (fittedStarList (associations st))
       (fold (\<lambda>im acc. v_leastSquareDerivativesMeasurement env st im None acc)
          (ccdImageList (associations st)) tg)"

definition createHessian :: "('p, 't, 'g, 'h, 'c) Collaborators \<Rightarrow> nat \<Rightarrow> 't \<Rightarrow> 'h" where
  "createHessian env n tripletList = timesTranspose env (sparseFromTriplets env n tripletList)"

definition outliersContributions ::
  "('p, 't, 'g, 'h, 'c) Collaborators \<Rightarrow> 'p FitterBase \<Rightarrow> nat list \<Rightarrow> nat list \<Rightarrow> 't \<times> 'g \<Rightarrow> 't \<times> 'g" where
  "outliersContributions env st ms fs tg =
     v_leastSquareDerivativesReference env st fs
       (fold (\<lambda>outlier acc.
                v_leastSquareDerivativesMeasurement env st
                  (ccdImage (measuredStars (associations st) outlier)) (Some [outlier]) acc)
          ms tg)"

fun removeMeasOutliers :: "nat list \<Rightarrow> Associations \<Rightarrow> Associations" where
  "removeMeasOutliers [] a = a"
| "removeMeasOutliers (m # ms) a =
     (let f = fittedStar (measuredStars a m);
          a1 = a\<lparr>measuredStars := (measuredStars a)(m := (measuredStars a m)\<lparr>valid := False\<rparr>)\<rparr>;
          a2 = a1\<lparr>fittedStars := (fittedStars a1)
                  (f := (fittedStars a1 f)\<lparr>measurementCount := measurementCount (fittedStars a1 f) - 1\<rparr>)\<rparr>
      in removeMeasOutliers ms a2)"

fun removeRefOutliers :: "nat list \<Rightarrow> Associations \<Rightarrow> Associations" where
  "removeRefOutliers [] a = a"
| "removeRefOutliers (f # fs) a =
     removeRefOutliers fs (a\<lparr>fittedStars := (fittedStars a)(f := (fittedStars a f)\<lparr>refStar := None\<rparr>)\<rparr>)"

text \<open>The local variables of \<open>minimize\<close> that live across the turns of its loop.\<close>

record ('g, 'c) MinimizeLocals =
  chol :: 'c
  grad :: 'g
  totalMeasOutliers :: nat
  totalRefOutliers :: nat
  oldChi2 :: real

text \<open>
  The outcome of one turn of the \<open>while (true)\<close> loop: the function is left (by \<open>break\<close> or
  by \<open>return\<close>) with a result code, the loop goes on, or the program is aborted inside
  \<open>findOutliers\<close>.
\<close>

datatype ('l, 's) Turn = Stop MinimizeResult 's | Next 'l 's | Abort error

text \<open>The fitter after \<open>offsetParams(chol.solve(grad))\<close>.\<close>

definition solveAndOffset ::
  "('p, 't, 'g, 'h, 'c) Collaborators \<Rightarrow> ('g, 'c) MinimizeLocals \<Rightarrow> 'p FitterBase \<Rightarrow> 'p FitterBase" where
  "solveAndOffset env loc st =
     (let delta = cholSolve env (chol loc) (grad loc)
      in st\<lparr>fitterState := v_offsetParams env delta st\<rparr>)"

text \<open>
  The rebuild path: with the outliers removed, the triplets and the gradient are computed again
  and the factorization is recomputed on the new Hessian.
\<close>

definition rebuildFactorization ::
  "('p, 't, 'g, 'h, 'c) Collaborators \<Rightarrow> 'c \<Rightarrow> 'p FitterBase \<Rightarrow> 'p FitterBase \<times> 'g \<times> 'c" where
  "rebuildFactorization env c st3 =
     (let (nextTripletList, grad2) =
            leastSquareDerivatives env st3
              (newTripletList env (lastNTrip st3), zeroVector env (nParTot st3));
          st4 = st3\<lparr>lastNTrip := tripletSize env nextTripletList\<rparr>;
          hessian = createHessian env (nParTot st4) nextTripletList
      in (st4, grad2, cholCompute env c hessian))"

definition minimize_body ::
  "('p, 't, 'g, 'h, 'c) Collaborators \<Rightarrow> real \<Rightarrow> bool \<Rightarrow> ('g, 'c) MinimizeLocals \<Rightarrow> 'p FitterBase \<Rightarrow>
     (('g, 'c) MinimizeLocals, 'p FitterBase) Turn" where
  "minimize_body env nSigmaCut doRankUpdate loc st =
     (let st1 = solveAndOffset env loc st;
          currentChi2 = computeChi2 env st1
      in if stat_chi2 currentChi2 > oldChi2 loc \<and> totalMeasOutliers loc + totalRefOutliers loc \<noteq> 0
         then Stop Chi2Increased (st1\<lparr>logged := logged st1 @ [WarnChi2WentUp]\<rparr>)
         else
           (let loc1 = loc\<lparr>oldChi2 := stat_chi2 currentChi2\<rparr>
            in if nSigmaCut = 0 then Stop Converged st1
               else
                 (case findOutliers env st1 nSigmaCut [] [] of
                    Inl e \<Rightarrow> Abort e
                  | Inr (nOut, ms, fs, w) \<Rightarrow>
                      (let st2 = st1\<lparr>logged := logged st1 @ w\<rparr>;
                           loc2 = loc1\<lparr>totalMeasOutliers := totalMeasOutliers loc1 + length ms,
                                       totalRefOutliers := totalRefOutliers loc1 + length fs\<rparr>
                       in if nOut = 0 then Stop Converged st2
                          else
                            (let (outlierTriplets, grad1) =
                                   outliersContributions env st2 ms fs
                                     (newTripletList env nOut, zeroVector env (nParTot st2));
                                 st3 = st2\<lparr>associations :=
                                             removeRefOutliers fs
                                               (removeMeasOutliers ms (associations st2))\<rparr>
                             in if doRankUpdate then
                                  (let H = sparseFromTriplets env (nParTot st3) outlierTriplets;
                                       chol1 = cholUpdate env (chol loc2) H
                                   in Next (loc2\<lparr>chol := chol1, grad := negateVector env grad1\<rparr>) st3)
                                else
                                  (case rebuildFactorization env (chol loc2) st3 of
                                     (st4, grad2, chol1) \<Rightarrow>
                                       if \<not> cholSuccess env chol1
                                       then Stop Failed
                                              (st4\<lparr>logged := logged st4 @ [ErrorFactorizationFailed]\<rparr>)
                                       else Next (loc2\<lparr>chol := chol1, grad := grad2\<rparr>) st4))))))"

text \<open>
  The loop. Nothing in \<open>FitterBase.cc\<close> bounds the number of turns, so the loop is a partial
  function: \<open>None\<close> stands for a call that never returns.
\<close>

partial_function (option) minimize_loop ::
  "('p, 't, 'g, 'h, 'c) Collaborators \<Rightarrow> real \<Rightarrow> bool \<Rightarrow> ('g, 'c) MinimizeLocals \<Rightarrow> 'p FitterBase \<Rightarrow>
     (error + MinimizeResult \<times> 'p FitterBase) option" where
  "minimize_loop env nSigmaCut doRankUpdate loc st =
     (case minimize_body env nSigmaCut doRankUpdate loc st of
        Stop r s \<Rightarrow> Some (Inr (r, s))
      | Abort e \<Rightarrow> Some (Inl e)
      | Next loc1 st1 \<Rightarrow> minimize_loop env nSigmaCut doRankUpdate loc1 st1)"

text \<open>\<open>assignIndices\<close> as \<open>minimize\<close> sees it: the virtual member, applied to the fitter.\<close>

definition assignIndices ::
  "('p, 't, 'g, 'h, 'c) Collaborators \<Rightarrow> string \<Rightarrow> 'p FitterBase \<Rightarrow> 'p FitterBase" where
  "assignIndices env whatToFit st =
     (case v_assignIndices env whatToFit st of
        (n, idx, p) \<Rightarrow>
          st\<lparr>nParTot := n, fitterState := p,
             associations := (associations st)
               \<lparr>fittedStars := (\<lambda>f. (fittedStars (associations st) f)\<lparr>indexInMatrix := idx f\<rparr>)\<rparr>\<rparr>)"

text \<open>
  The part of \<open>minimize\<close> before its loop: the fitter after the triplets are filled, the
  gradient and the first factorization.
\<close>

definition minimize_prepare ::
  "('p, 't, 'g, 'h, 'c) Collaborators \<Rightarrow> string \<Rightarrow> 'p FitterBase \<Rightarrow> 'p FitterBase \<times> 'g \<times> 'c" where
  "minimize_prepare env whatToFit st =
     (let st1 = assignIndices env whatToFit st;
          nTrip = (if lastNTrip st1 \<noteq> 0 then lastNTrip st1 else 1000000);
          (tripletList, grad0) =
             leastSquareDerivatives env st1 (newTripletList env nTrip, zeroVector env (nParTot st1));
          st2 = st1\<lparr>lastNTrip := tripletSize env tripletList\<rparr>;
          hessian = createHessian env (nParTot st2) tripletList
      in (st2, grad0, cholFactor env hessian))"

definition minimize_start ::
  "('p, 't, 'g, 'h, 'c) Collaborators \<Rightarrow> 'p FitterBase \<Rightarrow> 'g \<Rightarrow> 'c \<Rightarrow> ('g, 'c) MinimizeLocals" where
  "minimize_start env st2 grad0 chol0 =
     \<lparr>chol = chol0, grad = grad0, totalMeasOutliers = 0, totalRefOutliers = 0,
      oldChi2 = stat_chi2 (computeChi2 env st2)\<rparr>"

definition minimize ::
  "('p, 't, 'g, 'h, 'c) Collaborators \<Rightarrow> string \<Rightarrow> real \<Rightarrow> bool \<Rightarrow> 'p FitterBase \<Rightarrow>
     (error + MinimizeResult \<times> 'p FitterBase) option" where
  "minimize env whatToFit nSigmaCut doRankUpdate st =
     (case minimize_prepare env whatToFit st of
        (st2, grad0, chol0) \<Rightarrow>
          if \<not> cholSuccess env chol0
          then Some (Inr (Failed, st2\<lparr>logged := logged st2 @ [ErrorFactorizationFailed]\<rparr>))
          else minimize_loop env nSigmaCut doRankUpdate (minimize_start env st2 grad0 chol0) st2)"

text \<open>
  One turn of the loop as a relation between the states at the head of the loop, and the
  measurement-count invariant of the specification for one FittedStar: its
  \<open>measurementCount\<close> is the number of valid MeasuredStars, among those of all images, that
  point to it.
\<close>

definition minimize_turn ::
  "('p, 't, 'g, 'h, 'c) Collaborators \<Rightarrow> real \<Rightarrow> bool \<Rightarrow>
     ('g, 'c) MinimizeLocals \<times> 'p FitterBase \<Rightarrow> ('g, 'c) MinimizeLocals \<times> 'p FitterBase \<Rightarrow> bool" where
  "minimize_turn env nSigmaCut doRankUpdate x y \<longleftrightarrow>
     minimize_body env nSigmaCut doRankUpdate (fst x) (snd x) = Next (fst y) (snd y)"






section \<open>A small fitter to run the definitions on\<close>

text \<open>
  Collaborators over natural numbers: the state of the concrete fitter counts the calls of
  \<open>offsetParams\<close>; every entry \<open>m\<close> of the catalogues that is valid has one chi2 term,
  \<open>chi k m\<close> after \<open>k\<close> calls, and every FittedStar \<open>f\<close> with a RefStar the term \<open>rchi k f\<close>; a triplet list is
  its number of entries, one per measurement term; a matrix is factorized successfully when it
  was built from at least \<open>need\<close> entries.
\<close>

definition demo_env ::
  "(nat \<Rightarrow> nat \<Rightarrow> real) \<Rightarrow> (nat \<Rightarrow> nat \<Rightarrow> real) \<Rightarrow> (nat \<Rightarrow> nat list) \<Rightarrow> nat \<Rightarrow>
     (nat, nat, unit, nat, nat) Collaborators" where
  "demo_env chi rchi ind need =
     \<lparr> v_assignIndices =
         (\<lambda>w st. (nParTot st, (\<lambda>f. indexInMatrix (fittedStars (associations st) f)), fitterState st)),
       v_offsetParams = (\<lambda>d st. Suc (fitterState st)),
       v_accumulateStatImageList =
         (\<lambda>st imgs.
             map (\<lambda>m. (chi (fitterState st) m, 1, MeasuredStarPtr m))
               (filter (\<lambda>m. valid (measuredStars (associations st) m))
                  (concat (map catalogForFit imgs)))),
       v_accumulateStatRefStars =
         (\<lambda>st. map (\<lambda>f. (rchi (fitterState st) f, 1, FittedStarPtr f))
                 (filter (\<lambda>f. refStar (fittedStars (associations st) f) \<noteq> None)
                    (fittedStarList (associations st)))),
       v_getIndicesOfMeasuredStar = (\<lambda>st m. ind m),
       v_leastSquareDerivativesMeasurement =
         (\<lambda>st im restriction (t, g).
            (t + (case restriction of
                    None \<Rightarrow> length (filter (\<lambda>m. valid (measuredStars (associations st) m))
                                      (catalogForFit im))
                  | Some l \<Rightarrow> length l), g)),
       v_leastSquareDerivativesReference = (\<lambda>st fl tg. tg),
       newTripletList = (\<lambda>n. 0),
       tripletSize = (\<lambda>t. t),
       zeroVector = (\<lambda>n. ()),
       negateVector = (\<lambda>g. g),
       sparseFromTriplets = (\<lambda>n t. t),
       timesTranspose = (\<lambda>h. h),
       cholFactor = (\<lambda>h. h),
       cholCompute = (\<lambda>c h. h),
       cholSuccess = (\<lambda>c. need \<le> c),
       cholSolve = (\<lambda>c g. g),
       cholUpdate = (\<lambda>c h. c - h) \<rparr>"

text \<open>
  One image with four MeasuredStars: 0 and 1 belong to FittedStar 0, 2 to FittedStar 1 and 3 to
  FittedStar 2; FittedStar 3 has no measurement. With \<open>withRefs\<close>, FittedStars 2 and 3 have a
  RefStar. MeasuredStar \<open>m\<close> depends on parameter \<open>4 + m\<close> and on the index of its FittedStar.
\<close>

definition demo_associations :: "bool \<Rightarrow> Associations" where
  "demo_associations withRefs =
     \<lparr> ccdImageList = [\<lparr>catalogForFit = [0, 1, 2, 3]\<rparr>],
       fittedStarList = [0, 1, 2, 3],
       refStarList = (if withRefs then [2, 3] else []),
       measuredStars = (\<lambda>m. \<lparr>valid = True, fittedStar = (if m \<le> 1 then 0 else m - 1),
                             ccdImage = \<lparr>catalogForFit = [0, 1, 2, 3]\<rparr>\<rparr>),
       fittedStars = (\<lambda>f. \<lparr>measurementCount = (if f = 0 then 2 else if f < 3 then 1 else 0),
                           indexInMatrix = f,
                           refStar = (if withRefs \<and> 2 \<le> f then Some f else None)\<rparr>) \<rparr>"

definition demo_fitter :: "bool \<Rightarrow> nat FitterBase" where
  "demo_fitter withRefs =
     \<lparr> associations = demo_associations withRefs, nParTot = 8, lastNTrip = 0,
       nMeasuredStars = 4, fitterState = 0, logged = [] \<rparr>"

definition demo_indices :: "nat \<Rightarrow> nat list" where
  "demo_indices m = [4 + m, (if m \<le> 1 then 0 else m - 1)]"

text \<open>
  Chi2 terms for a run of \<open>minimize\<close>: after the first \<open>offsetParams\<close> MeasuredStar 1 stands
  out; every other time all terms are 2. And the associations once MeasuredStar 1 is removed.
\<close>

definition demo_chi :: "nat \<Rightarrow> nat \<Rightarrow> real" where
  "demo_chi k m = (if k = 1 then (if m = 1 then 4 else 0) else 2)"

definition demo_removed :: Associations where
  "demo_removed = removeRefOutliers [] (removeMeasOutliers [1] (demo_associations False))"

section \<open>FastFinder.cc: the finder and its constructor\<close>

text \<open>
  A \<open>Point\<close> has the coordinates \<open>x\<close> and \<open>y\<close>, a \<open>BaseStar\<close> is a \<open>Point\<close> with a flux
  (the fields are named \<open>px\<close>, \<open>py\<close> here). The finder keeps pointers to the stars of
  the list it was built from; the model keeps the stars themselves.
\<close>

record Point =
  px :: real
  py :: real

record BaseStar = Point +
  flux :: real

text \<open>
  Modelled from the spec: \<open>Point::Dist2\<close> (declared in \<open>Point.h\<close>, which is not among the
  sources), the square of the Euclidean distance.
\<close>

definition Dist2 :: "'a Point_scheme \<Rightarrow> 'b Point_scheme \<Rightarrow> real" where
  "Dist2 p q = (px p - px q)\<^sup>2 + (py p - py q)\<^sup>2"

text \<open>
  A position in the vector \<open>stars\<close> (the type \<open>pstar\<close>) is an offset from
  \<open>stars.begin()\<close>; \<open>stars.end()\<close> is the offset \<open>count\<close>.
\<close>

record FastFinder =
  count :: nat
  stars :: "BaseStar list"
  nslice :: nat
  index :: "nat list"
  xmin :: real
  xmax :: real
  xstep :: real

text \<open>\<open>while (istar < count && stars[istar]->x < xend) ++istar;\<close>\<close>

function advance_istar :: "BaseStar list \<Rightarrow> real \<Rightarrow> nat \<Rightarrow> nat" where
  "advance_istar sts xend istar =
     (if istar < length sts \<and> px (sts ! istar) < xend
      then advance_istar sts xend (istar + 1) else istar)"
  by pat_completeness auto
termination
  by (relation "measure (\<lambda>(sts, xend, istar). length sts - istar)") auto

text \<open>The loop that fills \<open>index[1]\<close> to \<open>index[nslice - 1]\<close>.\<close>

function fill_index ::
  "BaseStar list \<Rightarrow> real \<Rightarrow> real \<Rightarrow> nat \<Rightarrow> nat \<Rightarrow> nat \<Rightarrow> nat list \<Rightarrow> nat list" where
  "fill_index sts xmn xst nsl islice istar idx =
     (if islice < nsl then
        (let xend = xmn + real islice * xst;
             istar1 = advance_istar sts xend istar
         in fill_index sts xmn xst nsl (islice + 1) istar1 (idx[islice := istar1]))
      else idx)"
  by pat_completeness auto
termination
  by (relation "measure (\<lambda>(sts, xmn, xst, nsl, islice, istar, idx). nsl - islice)") auto

text \<open>
  \<open>sort(stars.begin() + a, stars.begin() + b, ...)\<close> on the \<open>y\<close> coordinate. \<open>std::sort\<close>
  leaves the order of equal keys open; the model takes the stable order, here and for the sort
  on \<open>x\<close>.
\<close>

definition sort_slice :: "nat \<Rightarrow> nat \<Rightarrow> BaseStar list \<Rightarrow> BaseStar list" where
  "sort_slice a b sts = take a sts @ sort_key py (take (b - a) (drop a sts)) @ drop b sts"

text \<open>
  The constructor. For an empty list it returns at once and leaves \<open>xmin\<close>, \<open>xmax\<close> and
  \<open>xstep\<close> without a value; the model gives them the value 0. \<open>index\<close> is allocated with
  \<open>NXslice + 1\<close> zero entries before \<open>nslice\<close> is lowered to the number of stars.
\<close>

definition FastFinder_ctor :: "BaseStar list \<Rightarrow> nat \<Rightarrow> FastFinder" where
  "FastFinder_ctor List NXslice =
     (let cnt = length List;
          idx0 = replicate (NXslice + 1) 0
      in if cnt = 0
         then \<lparr>count = cnt, stars = [], nslice = NXslice, index = idx0,
               xmin = 0, xmax = 0, xstep = 0\<rparr>
         else
           (let sts = sort_key px List;
                xmn = px (sts ! 0);
                xmx = px (sts ! (cnt - 1));
                nsl0 = min NXslice cnt;
                nsl = (if xmn = xmx then 1 else nsl0);
                xst = (xmx - xmn) / real nsl;
                idx1 = fill_index sts xmn xst nsl 1 0 (idx0[0 := 0]);
                idx2 = idx1[nsl := cnt];
                sts1 = fold (\<lambda>islice acc. sort_slice (idx2 ! islice) (idx2 ! (islice + 1)) acc)
                         [0..<nsl] sts
            in \<lparr>count = cnt, stars = sts1, nslice = nsl, index = idx2,
                 xmin = xmn, xmax = xmx, xstep = xst\<rparr>))"

section \<open>FastFinder.cc: scanning\<close>

text \<open>
  \<open>locate_y_start\<close> and \<open>locate_y_end\<close>. The span (\<open>spn\<close>) is an \<open>int\<close>; the loops run only while
  it is greater than 1, where the C++ division by 2 is \<open>div\<close>.
\<close>

function locate_y_start_loop :: "BaseStar list \<Rightarrow> real \<Rightarrow> nat \<Rightarrow> int \<Rightarrow> nat" where
  "locate_y_start_loop sts YVal Begin spn =
     (if spn > 1 then
        (let half_span = spn div 2;
             middle = Begin + nat half_span
         in if py (sts ! middle) < YVal
            then locate_y_start_loop sts YVal (Begin + nat half_span) (spn - half_span)
            else locate_y_start_loop sts YVal Begin (spn - (spn - half_span)))
      else Begin)"
  by pat_completeness auto
termination
  by (relation "measure (\<lambda>(sts, YVal, Begin, spn). nat spn)") auto

definition locate_y_start :: "FastFinder \<Rightarrow> nat \<Rightarrow> nat \<Rightarrow> real \<Rightarrow> nat" where
  "locate_y_start F Begin End YVal =
     (if Begin = count F \<or> Begin = End then count F
      else locate_y_start_loop (stars F) YVal Begin (int End - int Begin - 1))"

function locate_y_end_loop :: "BaseStar list \<Rightarrow> real \<Rightarrow> nat \<Rightarrow> int \<Rightarrow> nat" where
  "locate_y_end_loop sts YVal End spn =
     (if spn > 1 then
        (let half_span = spn div 2;
             middle = End - nat half_span
         in if py (sts ! middle) > YVal
            then locate_y_end_loop sts YVal (End - nat half_span) (spn - half_span)
            else locate_y_end_loop sts YVal End (spn - (spn - half_span)))
      else End - 1)"
  by pat_completeness auto
termination
  by (relation "measure (\<lambda>(sts, YVal, End, spn). nat spn)") auto

definition locate_y_end :: "FastFinder \<Rightarrow> nat \<Rightarrow> nat \<Rightarrow> real \<Rightarrow> nat" where
  "locate_y_end F Begin End YVal =
     (if Begin = count F then count F
      else locate_y_end_loop (stars F) YVal End (int End - int Begin - 1))"

definition find_range_in_slice :: "FastFinder \<Rightarrow> int \<Rightarrow> real \<Rightarrow> real \<Rightarrow> nat \<times> nat" where
  "find_range_in_slice F iSlice YStart YEnd =
     (let Start = locate_y_start F (index F ! nat iSlice) (index F ! (nat iSlice + 1)) YStart;
          End = locate_y_end F Start (index F ! (nat iSlice + 1)) YEnd
      in (Start, End))"

text \<open>The iterator; its \<open>null_value\<close> is \<open>stars.end()\<close> of the finder, that is \<open>count\<close>.\<close>

record Iterator =
  current :: nat
  pend :: nat
  currentSlice :: int
  endSlice :: int
  yStart :: real
  yEnd :: real

text \<open>The \<open>do ... while (current == null_value)\<close> loop of \<open>operator++\<close>.\<close>

function next_slice :: "FastFinder \<Rightarrow> Iterator \<Rightarrow> Iterator" where
  "next_slice F it =
     (let it1 = it\<lparr>currentSlice := currentSlice it + 1\<rparr>
      in if currentSlice it1 \<ge> endSlice it1 then it1\<lparr>current := count F\<rparr>
         else
           (let (c, p) = find_range_in_slice F (currentSlice it1) (yStart it1) (yEnd it1);
                it2 = it1\<lparr>current := c, pend := p\<rparr>
            in if c = count F then next_slice F it2 else it2))"
  by pat_completeness auto
termination
  by (relation "measure (\<lambda>(F, it). nat (endSlice it - currentSlice it))") auto

text \<open>\<open>operator++\<close>; \<open>check()\<close> only writes to the log.\<close>

definition increment :: "FastFinder \<Rightarrow> Iterator \<Rightarrow> Iterator" where
  "increment F it =
     (if current it \<noteq> pend it then it\<lparr>current := current it + 1\<rparr> else next_slice F it)"

text \<open>\<open>operator*\<close>: the star at \<open>current\<close>, or \<open>nullptr\<close>.\<close>

definition deref :: "FastFinder \<Rightarrow> Iterator \<Rightarrow> BaseStar option" where
  "deref F it = (if current it \<noteq> count F then Some (stars F ! current it) else None)"

text \<open>The conversion \<open>int(d)\<close> of a \<open>double\<close>: truncation towards zero.\<close>

definition trunc :: "real \<Rightarrow> int" where
  "trunc r = (if 0 \<le> r then \<lfloor>r\<rfloor> else \<lceil>r\<rceil>)"

definition startSliceOf :: "FastFinder \<Rightarrow> 'a Point_scheme \<Rightarrow> real \<Rightarrow> int" where
  "startSliceOf F Where MaxDist =
     (if xstep F \<noteq> 0 then max 0 (trunc ((px Where - MaxDist - xmin F) / xstep F)) else 0)"

definition endSliceOf :: "FastFinder \<Rightarrow> 'a Point_scheme \<Rightarrow> real \<Rightarrow> int" where
  "endSliceOf F Where MaxDist =
     (if xstep F \<noteq> 0
      then min (int (nslice F)) (trunc ((px Where + MaxDist - xmin F) / xstep F) + 1) else 1)"

text \<open>
  \<open>begin_scan\<close>, that is the constructor of the iterator. When it returns before the
  \<open>y\<close> range is set, \<open>currentSlice\<close>, \<open>yStart\<close> and \<open>yEnd\<close> have no value; the model
  gives them the value 0.
\<close>

definition begin_scan :: "FastFinder \<Rightarrow> 'a Point_scheme \<Rightarrow> real \<Rightarrow> Iterator" where
  "begin_scan F Where MaxDist =
     (let startSlice = startSliceOf F Where MaxDist;
          endSl = endSliceOf F Where MaxDist
      in if startSlice \<ge> int (nslice F) \<or> endSl < 0
         then \<lparr>current = count F, pend = count F, currentSlice = 0, endSlice = endSl,
               yStart = 0, yEnd = 0\<rparr>
         else increment F
                \<lparr>current = count F, pend = count F, currentSlice = startSlice - 1,
                 endSlice = endSl, yStart = py Where - MaxDist, yEnd = py Where + MaxDist\<rparr>)"

text \<open>
  The stars a scan yields, in order: \<open>for (; *it != nullptr; ++it)\<close>. Nothing in the iterator
  bounds the loop for an arbitrary finder, so it is a partial function.
\<close>

partial_function (option) scan :: "FastFinder \<Rightarrow> Iterator \<Rightarrow> BaseStar list option" where
  "scan F it =
     (if current it = count F then Some []
      else Option.bind (scan F (increment F it)) (\<lambda>r. Some (stars F ! current it # r)))"

text \<open>The loop of \<open>FindClosest\<close>; \<open>SkipIt\<close> is a function pointer that may be null.\<close>

partial_function (option) FindClosest_loop ::
  "FastFinder \<Rightarrow> 'a Point_scheme \<Rightarrow> (BaseStar \<Rightarrow> bool) option \<Rightarrow> Iterator \<Rightarrow> BaseStar option \<Rightarrow> real \<Rightarrow>
     BaseStar option option" where
  "FindClosest_loop F Where SkipIt it pbest minDist2 =
     (if current it = count F then Some pbest
      else
        (let s = stars F ! current it
         in if (case SkipIt of None \<Rightarrow> False | Some skip \<Rightarrow> skip s)
            then FindClosest_loop F Where SkipIt (increment F it) pbest minDist2
            else
              (let dist2 = Dist2 Where s
               in if dist2 < minDist2
                  then FindClosest_loop F Where SkipIt (increment F it) (Some s) dist2
                  else FindClosest_loop F Where SkipIt (increment F it) pbest minDist2)))"

definition FindClosest ::
  "FastFinder \<Rightarrow> 'a Point_scheme \<Rightarrow> real \<Rightarrow> (BaseStar \<Rightarrow> bool) option \<Rightarrow> BaseStar option option" where
  "FindClosest F Where MaxDist SkipIt =
     (if count F = 0 then Some None
      else
        (let it = begin_scan F Where MaxDist
         in if deref F it = None then Some None
            else FindClosest_loop F Where SkipIt it None (MaxDist * MaxDist)))"

text \<open>
  Notions used to state the properties of a scan. A finder is well formed when \<open>index[0]\<close> to
  \<open>index[nslice]\<close> exist and cut \<open>stars\<close> into consecutive ranges, the slices: slice \<open>k\<close>
  is made of the stars from position \<open>index[k]\<close> to the one before \<open>index[k + 1]\<close>. The stars one slice
  contributes to a scan are those from the position \<open>find_range_in_slice\<close> gives for the
  start to the one it gives for the end, both included; a scan visits the slices from
  \<open>startSlice\<close> to \<open>endSlice - 1\<close>.
\<close>

definition wf_finder :: "FastFinder \<Rightarrow> bool" where
  "wf_finder F \<longleftrightarrow>
     count F = length (stars F) \<and> nslice F < length (index F) \<and> 0 < nslice F \<and>
     (\<forall>s<nslice F. index F ! s \<le> index F ! (s + 1)) \<and>
     index F ! nslice F = count F"


definition slice_yield :: "FastFinder \<Rightarrow> real \<Rightarrow> real \<Rightarrow> int \<Rightarrow> BaseStar list" where
  "slice_yield F YStart YEnd iSlice =
     (case find_range_in_slice F iSlice YStart YEnd of
        (a, b) \<Rightarrow> if a = count F then [] else map (\<lambda>j. stars F ! j) [a..<Suc b])"

definition scanned :: "FastFinder \<Rightarrow> 'a Point_scheme \<Rightarrow> real \<Rightarrow> BaseStar list" where
  "scanned F Where MaxDist =
     (if startSliceOf F Where MaxDist \<ge> int (nslice F) \<or> endSliceOf F Where MaxDist < 0 then []
      else concat (map (slice_yield F (py Where - MaxDist) (py Where + MaxDist))
                     [startSliceOf F Where MaxDist .. endSliceOf F Where MaxDist - 1]))"

definition skipped :: "(BaseStar \<Rightarrow> bool) option \<Rightarrow> BaseStar \<Rightarrow> bool" where
  "skipped SkipIt s = (case SkipIt of None \<Rightarrow> False | Some skip \<Rightarrow> skip s)"

text \<open>One turn of the loop of \<open>FindClosest\<close> on its two variables \<open>pbest\<close> and \<open>minDist2\<close>.\<close>

definition closest_step ::
  "'a Point_scheme \<Rightarrow> (BaseStar \<Rightarrow> bool) option \<Rightarrow> BaseStar \<Rightarrow> BaseStar option \<times> real \<Rightarrow>
     BaseStar option \<times> real" where
  "closest_step Where SkipIt s acc =
     (if skipped SkipIt s then acc
      else if Dist2 Where s < snd acc then (Some s, Dist2 Where s) else acc)"

text \<open>What holds of \<open>pbest\<close> and \<open>minDist2\<close> once the loop has gone through the stars \<open>ys\<close>, from \<open>minDist2 = M\<close>.\<close>

definition closest_inv ::
  "'a Point_scheme \<Rightarrow> (BaseStar \<Rightarrow> bool) option \<Rightarrow> real \<Rightarrow> BaseStar list \<Rightarrow>
     BaseStar option \<times> real \<Rightarrow> bool" where
  "closest_inv Where SkipIt M ys acc \<longleftrightarrow>
     (case fst acc of
        None \<Rightarrow> snd acc = M \<and> (\<forall>t\<in>set ys. \<not> skipped SkipIt t \<longrightarrow> M \<le> Dist2 Where t)
      | Some s \<Rightarrow> s \<in> set ys \<and> \<not> skipped SkipIt s \<and> snd acc = Dist2 Where s \<and> Dist2 Where s < M \<and>
          (\<forall>t\<in>set ys. \<not> skipped SkipIt t \<longrightarrow> Dist2 Where s \<le> Dist2 Where t))"

section \<open>A small finder to run the definitions on\<close>

text \<open>Four stars, to be cut into two slices: \<open>x < 2\<close> and \<open>x \<ge> 2\<close>.\<close>

definition demo_star :: "real \<Rightarrow> real \<Rightarrow> BaseStar" where
  "demo_star x y = \<lparr>px = x, py = y, flux = 1\<rparr>"

definition demo_stars :: "BaseStar list" where
  "demo_stars = [demo_star 3 1, demo_star 0 0, demo_star 4 4, demo_star 1 3]"

section \<open>Results: MatchConditions\<close>

text \<open>
  C9. A default-constructed MatchConditions has nStarsList1 = 70, nStarsList2 = 70,
  maxTrialCount = 4, nSigmas = 3.0, maxShiftX = 50, maxShiftY = 50, sizeRatio = 1.0,
  deltaSizeRatio = 0.1, minMatchRatio = 1/3 and algorithm = 2.
\<close>

theorem MatchConditions_defaults:
  "nStarsList1 MatchConditions_ctor = 70 \<and>
   nStarsList2 MatchConditions_ctor = 70 \<and>
   maxTrialCount MatchConditions_ctor = 4 \<and>
   nSigmas MatchConditions_ctor = 3 \<and>
   maxShiftX MatchConditions_ctor = 50 \<and>
   maxShiftY MatchConditions_ctor = 50 \<and>
   sizeRatio MatchConditions_ctor = 1 \<and>
   deltaSizeRatio MatchConditions_ctor = 1 / 10 \<and>
   minMatchRatio MatchConditions_ctor = 1 / 3 \<and>
   algorithm MatchConditions_ctor = 2"
  by (simp add: MatchConditions_ctor_def)

section \<open>Results: saveChi2Contributions\<close>

lemma rfind_from_None: "rfind_from c s n = None \<longleftrightarrow> (\<forall>i<n. s ! i \<noteq> c)"
  by (induction n) (auto simp: less_Suc_eq)

lemma rfind_from_Some:
  "rfind_from c s n = Some i \<longleftrightarrow> i < n \<and> s ! i = c \<and> (\<forall>j. i < j \<and> j < n \<longrightarrow> s ! j \<noteq> c)"
proof (induction n)
  case 0
  then show ?case by simp
next
  case (Suc n)
  show ?case
  proof (cases "s ! n = c")
    case True
    then show ?thesis
      by (auto simp: less_Suc_eq)
  next
    case False
    then show ?thesis
      using Suc by (auto simp: less_Suc_eq)
  qed
qed

lemma rfind_None: "rfind c s = None \<longleftrightarrow> c \<notin> set s"
  by (auto simp: rfind_def rfind_from_None in_set_conv_nth)

lemma rfind_append_last:
  assumes "c \<notin> set suf"
  shows "rfind c (pre @ c # suf) = Some (length pre)"
proof -
  have "\<forall>j. length pre < j \<and> j < length (pre @ c # suf) \<longrightarrow> (pre @ c # suf) ! j \<noteq> c"
  proof (intro allI impI)
    fix j assume j: "length pre < j \<and> j < length (pre @ c # suf)"
    then have "(pre @ c # suf) ! j = suf ! (j - length pre - 1)"
      by (simp add: nth_append nth_Cons')
    moreover from j have "j - length pre - 1 < length suf" by auto
    ultimately show "(pre @ c # suf) ! j \<noteq> c"
      using assms by (metis nth_mem)
  qed
  then show ?thesis
    unfolding rfind_def rfind_from_Some by simp
qed

text \<open>
  C7, as stated, fails: for a base name whose final \<open>.\<close> lies in a directory part the
  code appends at the end of the string, while the stated rule inserts before that dot.
\<close>

theorem saveChi2Contributions_dot_in_directory:
  "saveChi2Contributions ''run.1/chi2'' = Inr (''run.1/chi2-meas'', ''run.1/chi2-ref'') \<and>
   spec_saveChi2_paths ''run.1/chi2'' = (''run-meas.1/chi2'', ''run-ref.1/chi2'')"
  by (simp add: saveChi2Contributions_def spec_saveChi2_paths_def rfind_def str_insert_def
      numeral_eq_Suc)

lemma takeWhile_rev_last:
  assumes "c \<notin> set suf"
  shows "takeWhile (\<lambda>a. a \<noteq> c) (rev (pre @ c # suf)) = rev suf"
proof -
  have "takeWhile (\<lambda>a. a \<noteq> c) (rev suf @ c # rev pre) = rev suf @ takeWhile (\<lambda>a. a \<noteq> c) (c # rev pre)"
    by (rule takeWhile_append2) (use assms in auto)
  then show ?thesis by simp
qed

lemma insertion_at_end:
  "str_insert (length b) ins b = Inr (b @ ins)"
  by (simp add: str_insert_def)

lemma saveChi2_dot_case:
  assumes "CHR ''.'' \<notin> set suf" "CHR ''/'' \<notin> set suf"
  shows "saveChi2Contributions (pre @ CHR ''.'' # suf) =
         Inr (pre @ ''-meas'' @ CHR ''.'' # suf, pre @ ''-ref'' @ CHR ''.'' # suf)"
proof -
  let ?b = "pre @ CHR ''.'' # suf"
  have d: "rfind (CHR ''.'') ?b = Some (length pre)"
    using assms(1) by (rule rfind_append_last)
  have sl: "rfind (CHR ''/'') ?b = Some k \<Longrightarrow> k < length pre" for k
  proof (rule ccontr)
    assume k: "rfind (CHR ''/'') ?b = Some k" and "\<not> k < length pre"
    then have "k < length ?b" "?b ! k = CHR ''/''" "length pre \<le> k"
      unfolding rfind_def rfind_from_Some by auto
    then have "k \<noteq> length pre" by auto
    with \<open>length pre \<le> k\<close> \<open>k < length ?b\<close> \<open>?b ! k = CHR ''/''\<close>
    have "suf ! (k - length pre - 1) = CHR ''/''" "k - length pre - 1 < length suf"
      by (auto simp: nth_append nth_Cons')
    with assms(2) show False by (metis nth_mem)
  qed
  show ?thesis
    using d sl
    by (cases "rfind (CHR ''/'') ?b") (auto simp: saveChi2Contributions_def str_insert_def)
qed

lemma saveChi2_end_slash:
  assumes suf: "CHR ''/'' \<notin> set suf" and nodot: "CHR ''.'' \<notin> set suf"
  shows "saveChi2Contributions (pre @ CHR ''/'' # suf) =
         Inr ((pre @ CHR ''/'' # suf) @ ''-meas'', (pre @ CHR ''/'' # suf) @ ''-ref'')"
proof (cases "rfind (CHR ''.'') (pre @ CHR ''/'' # suf)")
  case None
  then show ?thesis
    by (simp add: saveChi2Contributions_def str_insert_def)
next
  case (Some d)
  let ?b = "pre @ CHR ''/'' # suf"
  have slash: "rfind (CHR ''/'') ?b = Some (length pre)"
    using suf by (rule rfind_append_last)
  have "CHR ''.'' \<notin> set (CHR ''/'' # suf)"
    using nodot by simp
  moreover have "\<not> d < length pre \<Longrightarrow> CHR ''.'' \<in> set (CHR ''/'' # suf)"
  proof -
    assume "\<not> d < length pre"
    moreover have "d < length ?b" "?b ! d = CHR ''.''"
      using Some unfolding rfind_def rfind_from_Some by blast+
    ultimately have "(CHR ''/'' # suf) ! (d - length pre) = CHR ''.''"
      "d - length pre < length (CHR ''/'' # suf)"
      by (simp_all add: nth_append)
    then show ?thesis by (metis nth_mem)
  qed
  ultimately have "d < length pre" by blast
  with Some slash show ?thesis
    by (simp add: saveChi2Contributions_def str_insert_def)
qed

lemma saveChi2_end_case:
  assumes "CHR ''.'' \<notin> set (takeWhile (\<lambda>c. c \<noteq> CHR ''/'') (rev b))"
  shows "saveChi2Contributions b = Inr (b @ ''-meas'', b @ ''-ref'')"
proof (cases "CHR ''/'' \<in> set b")
  case True
  from split_list_last [OF True]
  obtain pre suf where b: "b = pre @ CHR ''/'' # suf" and suf: "CHR ''/'' \<notin> set suf"
    by (elim exE conjE)
  have "CHR ''.'' \<notin> set (rev suf)"
    using assms unfolding b takeWhile_rev_last [OF suf] .
  then have "CHR ''.'' \<notin> set suf" by simp
  from saveChi2_end_slash [OF suf this] show ?thesis
    unfolding b .
next
  case False
  then have "\<forall>x\<in>set (rev b). x \<noteq> CHR ''/''"
    unfolding set_rev by blast
  then have "takeWhile (\<lambda>c. c \<noteq> CHR ''/'') (rev b) = rev b"
    unfolding takeWhile_eq_all_conv .
  with assms have "CHR ''.'' \<notin> set b" by simp
  then have "rfind (CHR ''.'') b = None" by (simp add: rfind_None)
  then show ?thesis
    by (simp add: saveChi2Contributions_def str_insert_def)
qed

text \<open>
  C7 (amended). The two paths are derived by inserting \<open>-meas\<close> and \<open>-ref\<close> immediately
  before the final \<open>.\<close> of the base name when no \<open>/\<close> follows that dot; when the part of the
  base name after its last \<open>/\<close> (the whole name when there is none) contains no \<open>.\<close>, both
  are appended at the end of the string.
\<close>

theorem saveChi2Contributions_paths:
  "(CHR ''.'' \<notin> set suf \<and> CHR ''/'' \<notin> set suf \<longrightarrow>
      saveChi2Contributions (pre @ CHR ''.'' # suf) =
        Inr (pre @ ''-meas'' @ CHR ''.'' # suf, pre @ ''-ref'' @ CHR ''.'' # suf)) \<and>
   (CHR ''.'' \<notin> set (takeWhile (\<lambda>c. c \<noteq> CHR ''/'') (rev b)) \<longrightarrow>
      saveChi2Contributions b = Inr (b @ ''-meas'', b @ ''-ref''))"
  using saveChi2_dot_case saveChi2_end_case by blast

theorem saveChi2Contributions_paths_witness:
  "saveChi2Contributions ''out/chi2.list'' = Inr (''out/chi2-meas.list'', ''out/chi2-ref.list'') \<and>
   saveChi2Contributions ''run.1/chi2'' = Inr (''run.1/chi2-meas'', ''run.1/chi2-ref'')"
  using saveChi2Contributions_paths [of "''list''" "''out/chi2''" "''run.1/chi2''"]
  by simp

section \<open>Results: findOutliers\<close>

lemma drop_it_loop_Inl: "drop_it_loop ap is d = Inl e \<Longrightarrow> e = OutOfRange"
  by (induction "is" arbitrary: d) (auto split: if_splits)

lemma drop_it_loop_Inr:
  "drop_it_loop ap is d = Inr b \<Longrightarrow>
     (\<forall>i\<in>set is. i < length ap) \<and> (b \<longleftrightarrow> d \<and> (\<forall>i\<in>set is. ap ! i = 0))"
proof (induction "is" arbitrary: d)
  case Nil
  then show ?case by simp
next
  case (Cons i "is")
  from Cons.prems have i: "i < length ap"
    by (auto split: if_splits)
  with Cons.prems have "drop_it_loop ap is (if ap ! i \<noteq> 0 then False else d) = Inr b"
    by simp
  from Cons.IH [OF this] i show ?case
    by auto
qed

lemma mark_loop_Inr:
  "\<forall>i\<in>set is. i < length ap \<Longrightarrow>
     \<exists>ap'. mark_loop ap is = Inr ap' \<and> length ap' = length ap \<and>
       (\<forall>j<length ap. ap' ! j = ap ! j + int (count_list is j))"
proof (induction "is" arbitrary: ap)
  case Nil
  then show ?case by simp
next
  case (Cons i "is")
  let ?ap = "ap[i := ap ! i + 1]"
  from Cons.prems have i: "i < length ap" and rest: "\<forall>k\<in>set is. k < length ?ap"
    by auto
  from Cons.IH [OF rest] obtain ap' where ap':
    "mark_loop ?ap is = Inr ap'" "length ap' = length ?ap"
    "\<forall>j<length ?ap. ap' ! j = ?ap ! j + int (count_list is j)"
    by blast
  have "\<forall>j<length ap. ap' ! j = ap ! j + int (count_list (i # is) j)"
  proof (intro allI impI)
    fix j assume j: "j < length ap"
    with ap'(3) have "ap' ! j = ?ap ! j + int (count_list is j)" by simp
    then show "ap' ! j = ap ! j + int (count_list (i # is) j)"
      using i j by (cases "i = j") simp_all
  qed
  with ap' i show ?case by simp
qed

lemma mark_loop_Inl: "mark_loop ap is = Inl e \<Longrightarrow> e = OutOfRange"
  by (induction "is" arbitrary: ap) (auto split: if_splits)

text \<open>What \<open>store_outlier\<close> returns: unchanged state, or one more stored outlier.\<close>

lemma store_outlier_Inr:
  assumes "store_outlier p idx s = Inr s'"
  shows "(\<forall>i\<in>set idx. i < length (affectedParams s)) \<and>
         (if \<forall>i\<in>set idx. affectedParams s ! i = 0
          then msOutliers s' = (case p of MeasuredStarPtr m \<Rightarrow> msOutliers s @ [m] | _ \<Rightarrow> msOutliers s) \<and>
               fsOutliers s' = (case p of FittedStarPtr f \<Rightarrow> fsOutliers s @ [f] | _ \<Rightarrow> fsOutliers s) \<and>
               warnings s' = warnings s \<and> nOutliers s' = nOutliers s + 1 \<and>
               length (affectedParams s') = length (affectedParams s) \<and>
               (\<forall>j<length (affectedParams s).
                  affectedParams s' ! j = affectedParams s ! j + int (count_list idx j))
          else s' = s)"
proof -
  from assms obtain b where b: "drop_it_loop (affectedParams s) idx True = Inr b"
    by (auto simp: store_outlier_def split: sum.splits)
  from drop_it_loop_Inr [OF b]
  have range: "\<forall>i\<in>set idx. i < length (affectedParams s)"
    and bval: "b \<longleftrightarrow> (\<forall>i\<in>set idx. affectedParams s ! i = 0)"
    by auto
  show ?thesis
  proof (cases b)
    case False
    with assms b have "s' = s"
      by (simp add: store_outlier_def)
    moreover from False bval have "\<not> (\<forall>i\<in>set idx. affectedParams s ! i = 0)"
      by blast
    ultimately show ?thesis
      using range by simp
  next
    case True
    with bval have zero: "\<forall>i\<in>set idx. affectedParams s ! i = 0" by blast
    from mark_loop_Inr [OF range] obtain ap' where ap':
      "mark_loop (affectedParams s) idx = Inr ap'" "length ap' = length (affectedParams s)"
      "\<forall>j<length (affectedParams s). ap' ! j = affectedParams s ! j + int (count_list idx j)"
      by blast
    have s': "s' = (case p of
                         MeasuredStarPtr m \<Rightarrow> s\<lparr>msOutliers := msOutliers s @ [m]\<rparr>
                       | FittedStarPtr f \<Rightarrow> s\<lparr>fsOutliers := fsOutliers s @ [f]\<rparr>
                       | OtherStarPtr \<Rightarrow> s)\<lparr>affectedParams := ap',
                 nOutliers := nOutliers s + 1\<rparr>"
      using assms b True ap'(1)
      by (cases p) (simp_all add: store_outlier_def)
    show ?thesis
      using range zero ap'(2,3) unfolding s'
      by (cases p) simp_all
  qed
qed

lemma store_outlier_Inl: "store_outlier p idx s = Inl e \<Longrightarrow> e = OutOfRange"
  by (auto simp: store_outlier_def Let_def split: sum.splits if_splits
      dest: drop_it_loop_Inl mark_loop_Inl)

lemma recorded_indices_snoc_ms:
  "recorded_indices env st (ms @ [m]) fs =
     recorded_indices env st ms fs \<union> set (contribution_indices env st (MeasuredStarPtr m))"
  by (auto simp: recorded_indices_def)

lemma recorded_indices_snoc_fs:
  "recorded_indices env st ms (fs @ [f]) =
     recorded_indices env st ms fs \<union> set (contribution_indices env st (FittedStarPtr f))"
  by (auto simp: recorded_indices_def)

lemma outliers_disjoint_snoc_ms:
  assumes "outliers_disjoint env st ms fs"
    and "set (contribution_indices env st (MeasuredStarPtr m)) \<inter> recorded_indices env st ms fs = {}"
  shows "outliers_disjoint env st (ms @ [m]) fs"
proof -
  let ?I = "\<lambda>p. set (contribution_indices env st p)"
  have old: "\<And>k. k < length ms \<Longrightarrow> ?I (MeasuredStarPtr (ms ! k)) \<inter> ?I (MeasuredStarPtr m) = {}"
    using assms(2) unfolding recorded_indices_def by (meson disjoint_iff nth_mem UnI1 UN_I)
  have a: "\<forall>i j. i < j \<and> j < length (ms @ [m]) \<longrightarrow>
             ?I (MeasuredStarPtr ((ms @ [m]) ! i)) \<inter> ?I (MeasuredStarPtr ((ms @ [m]) ! j)) = {}"
  proof (intro allI impI)
    fix i j assume ij: "i < j \<and> j < length (ms @ [m])"
    show "?I (MeasuredStarPtr ((ms @ [m]) ! i)) \<inter> ?I (MeasuredStarPtr ((ms @ [m]) ! j)) = {}"
    proof (cases "j < length ms")
      case True
      with ij assms(1) show ?thesis
        unfolding outliers_disjoint_def by (simp add: nth_append)
    next
      case False
      with ij have "j = length ms" "i < length ms" by auto
      with old [of i] show ?thesis by (simp add: nth_append)
    qed
  qed
  have c: "\<forall>m'\<in>set (ms @ [m]). \<forall>f\<in>set fs. ?I (MeasuredStarPtr m') \<inter> ?I (FittedStarPtr f) = {}"
  proof (intro ballI)
    fix m' f assume m': "m' \<in> set (ms @ [m])" and f: "f \<in> set fs"
    show "?I (MeasuredStarPtr m') \<inter> ?I (FittedStarPtr f) = {}"
    proof (cases "m' = m")
      case True
      have "?I (FittedStarPtr f) \<subseteq> recorded_indices env st ms fs"
        using f unfolding recorded_indices_def by blast
      with assms(2) True show ?thesis by blast
    next
      case False
      with m' have "m' \<in> set ms" by simp
      with assms(1) f show ?thesis unfolding outliers_disjoint_def by blast
    qed
  qed
  from a c assms(1) show ?thesis
    unfolding outliers_disjoint_def by blast
qed

lemma outliers_disjoint_snoc_fs:
  assumes "outliers_disjoint env st ms fs"
    and "set (contribution_indices env st (FittedStarPtr f)) \<inter> recorded_indices env st ms fs = {}"
  shows "outliers_disjoint env st ms (fs @ [f])"
proof -
  let ?I = "\<lambda>p. set (contribution_indices env st p)"
  have old: "\<And>k. k < length fs \<Longrightarrow> ?I (FittedStarPtr (fs ! k)) \<inter> ?I (FittedStarPtr f) = {}"
    using assms(2) unfolding recorded_indices_def by (meson disjoint_iff nth_mem UnI2 UN_I)
  have b: "\<forall>i j. i < j \<and> j < length (fs @ [f]) \<longrightarrow>
             ?I (FittedStarPtr ((fs @ [f]) ! i)) \<inter> ?I (FittedStarPtr ((fs @ [f]) ! j)) = {}"
  proof (intro allI impI)
    fix i j assume ij: "i < j \<and> j < length (fs @ [f])"
    show "?I (FittedStarPtr ((fs @ [f]) ! i)) \<inter> ?I (FittedStarPtr ((fs @ [f]) ! j)) = {}"
    proof (cases "j < length fs")
      case True
      with ij assms(1) show ?thesis
        unfolding outliers_disjoint_def by (simp add: nth_append)
    next
      case False
      with ij have "j = length fs" "i < length fs" by auto
      with old [of i] show ?thesis by (simp add: nth_append)
    qed
  qed
  have c: "\<forall>m\<in>set ms. \<forall>f'\<in>set (fs @ [f]). ?I (MeasuredStarPtr m) \<inter> ?I (FittedStarPtr f') = {}"
  proof (intro ballI)
    fix m f' assume m: "m \<in> set ms" and f': "f' \<in> set (fs @ [f])"
    show "?I (MeasuredStarPtr m) \<inter> ?I (FittedStarPtr f') = {}"
    proof (cases "f' = f")
      case True
      have "?I (MeasuredStarPtr m) \<subseteq> recorded_indices env st ms fs"
        using m unfolding recorded_indices_def by blast
      with assms(2) True show ?thesis by blast
    next
      case False
      with f' have "f' \<in> set fs" by simp
      with assms(1) m show ?thesis unfolding outliers_disjoint_def by blast
    qed
  qed
  from b c assms(1) show ?thesis
    unfolding outliers_disjoint_def by blast
qed

lemma store_outlier_inv:
  assumes inv: "scan_inv env st s"
    and p: "p \<noteq> OtherStarPtr"
    and res: "store_outlier p (contribution_indices env st p) s = Inr s'"
  shows "scan_inv env st s'"
proof -
  let ?idx = "contribution_indices env st p"
  let ?ap = "affectedParams s"
  let ?R = "recorded_indices env st (msOutliers s) (fsOutliers s)"
  note r = store_outlier_Inr [OF res]
  from inv have len: "length ?ap = nParTot st" by (simp add: scan_inv_def)
  from r have range: "\<forall>i\<in>set ?idx. i < nParTot st" using len by simp
  show ?thesis
  proof (cases "\<forall>i\<in>set ?idx. ?ap ! i = 0")
    case False
    with r have "s' = s" by simp
    with inv show ?thesis by simp
  next
    case True
    with r have ms': "msOutliers s' = (case p of MeasuredStarPtr m \<Rightarrow> msOutliers s @ [m] | _ \<Rightarrow> msOutliers s)"
      and fs': "fsOutliers s' = (case p of FittedStarPtr f \<Rightarrow> fsOutliers s @ [f] | _ \<Rightarrow> fsOutliers s)"
      and len': "length (affectedParams s') = nParTot st"
      and ap': "\<forall>j<nParTot st. affectedParams s' ! j = ?ap ! j + int (count_list ?idx j)"
      using len by simp_all
    have disj: "set ?idx \<inter> ?R = {}"
    proof (rule ccontr)
      assume "set ?idx \<inter> ?R \<noteq> {}"
      then obtain i where i: "i \<in> set ?idx" "i \<in> ?R" by blast
      with range have "i < nParTot st" by blast
      with inv i(2) have "?ap ! i \<noteq> 0" by (simp add: scan_inv_def)
      with True i(1) show False by blast
    qed
    have R': "recorded_indices env st (msOutliers s') (fsOutliers s') = ?R \<union> set ?idx"
      using p ms' fs'
      by (cases p) (simp_all add: recorded_indices_snoc_ms recorded_indices_snoc_fs)
    have D': "outliers_disjoint env st (msOutliers s') (fsOutliers s')"
    proof (cases p)
      case (MeasuredStarPtr m)
      with inv disj ms' fs' show ?thesis
        using outliers_disjoint_snoc_ms [of env st "msOutliers s" "fsOutliers s" m]
        by (simp add: scan_inv_def)
    next
      case (FittedStarPtr f)
      with inv disj ms' fs' show ?thesis
        using outliers_disjoint_snoc_fs [of env st "msOutliers s" "fsOutliers s" f]
        by (simp add: scan_inv_def)
    next
      case OtherStarPtr
      with p show ?thesis by simp
    qed
    have E: "\<forall>i<nParTot st. 0 \<le> affectedParams s' ! i \<and>
               (affectedParams s' ! i \<noteq> 0 \<longleftrightarrow> i \<in> ?R \<union> set ?idx)"
    proof (intro allI impI)
      fix i assume i: "i < nParTot st"
      from inv i have old: "0 \<le> ?ap ! i" "?ap ! i \<noteq> 0 \<longleftrightarrow> i \<in> ?R"
        by (simp_all add: scan_inv_def)
      from ap' i have new: "affectedParams s' ! i = ?ap ! i + int (count_list ?idx i)" by blast
      have cnt: "count_list ?idx i \<noteq> 0 \<longleftrightarrow> i \<in> set ?idx"
        by (simp add: count_list_0_iff)
      show "0 \<le> affectedParams s' ! i \<and> (affectedParams s' ! i \<noteq> 0 \<longleftrightarrow> i \<in> ?R \<union> set ?idx)"
        using old new cnt by auto
    qed
    have S: "?R \<union> set ?idx \<subseteq> {..<nParTot st}"
      using inv range by (auto simp: scan_inv_def)
    from len' E S D' R' show ?thesis
      unfolding scan_inv_def by simp
  qed
qed

lemma outlier_step_inv:
  assumes "scan_inv env st s" "outlier_step env st c s = Inr s'"
  shows "scan_inv env st s'"
proof (cases "star c")
  case (MeasuredStarPtr m)
  show ?thesis
  proof (cases "measurementCount (fittedStars (associations st) (fittedStar (measuredStars (associations st) m))) = 1 \<and>
                refStar (fittedStars (associations st) (fittedStar (measuredStars (associations st) m))) = None")
    case True
    with assms MeasuredStarPtr show ?thesis
      by (auto simp: outlier_step_def Let_def scan_inv_def)
  next
    case False
    with assms(2) MeasuredStarPtr
    have "store_outlier (MeasuredStarPtr m) (contribution_indices env st (MeasuredStarPtr m)) s = Inr s'"
      by (auto simp: outlier_step_def Let_def contribution_indices_def)
    from store_outlier_inv [OF assms(1) _ this] show ?thesis by simp
  qed
next
  case (FittedStarPtr f)
  show ?thesis
  proof (cases "measurementCount (fittedStars (associations st) f) = 0")
    case True
    with assms FittedStarPtr show ?thesis
      by (auto simp: outlier_step_def Let_def scan_inv_def)
  next
    case False
    with assms(2) FittedStarPtr
    have "store_outlier (FittedStarPtr f) (contribution_indices env st (FittedStarPtr f)) s = Inr s'"
      by (auto simp: outlier_step_def Let_def contribution_indices_def)
    from store_outlier_inv [OF assms(1) _ this] show ?thesis by simp
  qed
next
  case OtherStarPtr
  with assms(2) show ?thesis by (simp add: outlier_step_def)
qed

lemma outlier_loop_inv:
  "scan_inv env st s \<Longrightarrow> outlier_loop env st cutv cs s = Inr s' \<Longrightarrow> scan_inv env st s'"
proof (induction cs arbitrary: s)
  case Nil
  then show ?case by simp
next
  case (Cons c cs)
  show ?case
  proof (cases "chi2 c < cutv")
    case True
    with Cons.prems show ?thesis by simp
  next
    case False
    with Cons.prems(2) obtain s1 where s1: "outlier_step env st c s = Inr s1"
      "outlier_loop env st cutv cs s1 = Inr s'"
      by (auto split: sum.splits)
    from Cons.IH [OF outlier_step_inv [OF Cons.prems(1) s1(1)] s1(2)] show ?thesis .
  qed
qed

lemma startScan_inv: "scan_inv env st (startScan (nParTot st) [] [])"
  by (simp add: scan_inv_def startScan_def recorded_indices_def outliers_disjoint_def)

lemma outlier_step_keeps_shared:
  assumes inv: "scan_inv env st s"
    and shared: "set (contribution_indices env st (star c)) \<inter>
                 recorded_indices env st (msOutliers s) (fsOutliers s) \<noteq> {}"
    and res: "outlier_step env st c s = Inr s'"
  shows "msOutliers s' = msOutliers s \<and> fsOutliers s' = fsOutliers s"
proof -
  let ?idx = "contribution_indices env st (star c)"
  from shared obtain i where i: "i \<in> set ?idx"
    "i \<in> recorded_indices env st (msOutliers s) (fsOutliers s)" by blast
  from inv i(2) have "i < nParTot st" by (auto simp: scan_inv_def)
  with inv i(2) have nz: "affectedParams s ! i \<noteq> 0" by (simp add: scan_inv_def)
  have stored: "store_outlier (star c) ?idx s = Inr s' \<Longrightarrow> s' = s"
  proof -
    assume "store_outlier (star c) ?idx s = Inr s'"
    note r = store_outlier_Inr [OF this]
    have "\<not> (\<forall>k\<in>set ?idx. affectedParams s ! k = 0)" using i(1) nz by blast
    with r show "s' = s" by simp
  qed
  show ?thesis
  proof (cases "star c")
    case (MeasuredStarPtr m)
    with res stored show ?thesis
      by (auto simp: outlier_step_def Let_def contribution_indices_def split: if_splits)
  next
    case (FittedStarPtr f)
    with res stored show ?thesis
      by (auto simp: outlier_step_def Let_def contribution_indices_def split: if_splits)
  next
    case OtherStarPtr
    with res show ?thesis by (simp add: outlier_step_def)
  qed
qed

lemma findOutliers_Inr:
  assumes "findOutliers env st nSigmaCut msOut fsOut = Inr (n, ms, fs, w)"
  shows "(collectChi2List env st = [] \<and> n = 0 \<and> ms = msOut \<and> fs = fsOut \<and> w = []) \<or>
         (collectChi2List env st \<noteq> [] \<and>
          (\<exists>s. outlier_loop env st (outlierCut nSigmaCut (collectChi2List env st))
                  (examined (collectChi2List env st)) (startScan (nParTot st) msOut fsOut) = Inr s \<and>
               n = nOutliers s \<and> ms = msOutliers s \<and> fs = fsOutliers s \<and> w = warnings s))"
  using assms
  by (auto simp: findOutliers_def Let_def split: if_splits sum.splits)

text \<open>
  C2. In one call of \<open>findOutliers\<close> (started with empty lists) the parameter-index sets of
  the stored outliers are pairwise disjoint, so every parameter index belongs to at most one
  of them; and whenever the loop, in any state it reaches, meets a term that shares an index
  with an outlier stored earlier, the turn stores nothing: the term is kept.
\<close>

theorem findOutliers_disjoint_indices:
  assumes "findOutliers env st nSigmaCut [] [] = Inr (n, ms, fs, w)"
  shows "outliers_disjoint env st ms fs \<and>
         (\<forall>cutv pre s (c::Chi2Star).
            outlier_loop env st cutv pre (startScan (nParTot st) [] []) = Inr s \<and>
            set (contribution_indices env st (star c)) \<inter>
              recorded_indices env st (msOutliers s) (fsOutliers s) \<noteq> {} \<longrightarrow>
            (case outlier_step env st c s of
               Inl e \<Rightarrow> True
             | Inr s' \<Rightarrow> msOutliers s' = msOutliers s \<and> fsOutliers s' = fsOutliers s))"
proof
  from findOutliers_Inr [OF assms] show "outliers_disjoint env st ms fs"
  proof
    assume "collectChi2List env st = [] \<and> n = 0 \<and> ms = [] \<and> fs = [] \<and> w = []"
    then show ?thesis by (simp add: outliers_disjoint_def)
  next
    assume "collectChi2List env st \<noteq> [] \<and>
          (\<exists>s. outlier_loop env st (outlierCut nSigmaCut (collectChi2List env st))
                  (examined (collectChi2List env st)) (startScan (nParTot st) [] []) = Inr s \<and>
               n = nOutliers s \<and> ms = msOutliers s \<and> fs = fsOutliers s \<and> w = warnings s)"
    then obtain s where s: "outlier_loop env st (outlierCut nSigmaCut (collectChi2List env st))
                  (examined (collectChi2List env st)) (startScan (nParTot st) [] []) = Inr s"
      "ms = msOutliers s" "fs = fsOutliers s" by blast
    from outlier_loop_inv [OF startScan_inv s(1)] s(2,3) show ?thesis
      by (simp add: scan_inv_def)
  qed
next
  show "\<forall>cutv pre s (c::Chi2Star).
            outlier_loop env st cutv pre (startScan (nParTot st) [] []) = Inr s \<and>
            set (contribution_indices env st (star c)) \<inter>
              recorded_indices env st (msOutliers s) (fsOutliers s) \<noteq> {} \<longrightarrow>
            (case outlier_step env st c s of
               Inl e \<Rightarrow> True
             | Inr s' \<Rightarrow> msOutliers s' = msOutliers s \<and> fsOutliers s' = fsOutliers s)"
  proof (intro allI impI)
    fix cutv :: real and pre :: Chi2List and s :: OutlierScan and c :: Chi2Star
    assume h: "outlier_loop env st cutv pre (startScan (nParTot st) [] []) = Inr s \<and>
            set (contribution_indices env st (star c)) \<inter>
              recorded_indices env st (msOutliers s) (fsOutliers s) \<noteq> {}"
    then have inv: "scan_inv env st s"
      using outlier_loop_inv [OF startScan_inv] by blast
    show "case outlier_step env st c s of
               Inl e \<Rightarrow> True
             | Inr s' \<Rightarrow> msOutliers s' = msOutliers s \<and> fsOutliers s' = fsOutliers s"
    proof (cases "outlier_step env st c s")
      case (Inl e)
      then show ?thesis by simp
    next
      case (Inr s')
      from outlier_step_keeps_shared [OF inv _ Inr] h Inr show ?thesis by simp
    qed
  qed
qed

text \<open>The protective cases.\<close>

lemma outlier_step_lists:
  assumes "outlier_step env st c s = Inr s'"
  shows "(\<forall>f. f \<in> set (fsOutliers s') \<longrightarrow> f \<in> set (fsOutliers s) \<or>
            (star c = FittedStarPtr f \<and> measurementCount (fittedStars (associations st) f) \<noteq> 0)) \<and>
         (\<forall>m. m \<in> set (msOutliers s') \<longrightarrow> m \<in> set (msOutliers s) \<or>
            (star c = MeasuredStarPtr m \<and>
             \<not> (measurementCount (fittedStars (associations st) (fittedStar (measuredStars (associations st) m))) = 1 \<and>
                refStar (fittedStars (associations st) (fittedStar (measuredStars (associations st) m))) = None)))"
proof (cases "star c")
  case (MeasuredStarPtr m)
  show ?thesis
  proof (cases "measurementCount (fittedStars (associations st) (fittedStar (measuredStars (associations st) m))) = 1 \<and>
                refStar (fittedStars (associations st) (fittedStar (measuredStars (associations st) m))) = None")
    case True
    with assms MeasuredStarPtr show ?thesis
      by (auto simp: outlier_step_def Let_def)
  next
    case False
    with assms MeasuredStarPtr
    have "store_outlier (MeasuredStarPtr m) (v_getIndicesOfMeasuredStar env st m) s = Inr s'"
      by (auto simp: outlier_step_def Let_def)
    from store_outlier_Inr [OF this] False MeasuredStarPtr show ?thesis
      by (auto split: if_splits)
  qed
next
  case (FittedStarPtr f)
  show ?thesis
  proof (cases "measurementCount (fittedStars (associations st) f) = 0")
    case True
    with assms FittedStarPtr show ?thesis
      by (auto simp: outlier_step_def Let_def)
  next
    case False
    with assms FittedStarPtr
    have "store_outlier (FittedStarPtr f) [indexInMatrix (fittedStars (associations st) f)] s = Inr s'"
      by (auto simp: outlier_step_def Let_def)
    from store_outlier_Inr [OF this] False FittedStarPtr show ?thesis
      by (auto split: if_splits)
  qed
next
  case OtherStarPtr
  with assms show ?thesis by (simp add: outlier_step_def)
qed

lemma outlier_loop_lists:
  assumes "outlier_loop env st cutv cs s = Inr s'"
  shows "(\<forall>f\<in>set (fsOutliers s'). f \<in> set (fsOutliers s) \<or>
            (\<exists>c\<in>set cs. star c = FittedStarPtr f \<and> cutv \<le> chi2 c \<and>
               measurementCount (fittedStars (associations st) f) \<noteq> 0)) \<and>
         (\<forall>m\<in>set (msOutliers s'). m \<in> set (msOutliers s) \<or>
            (\<exists>c\<in>set cs. star c = MeasuredStarPtr m \<and> cutv \<le> chi2 c \<and>
             \<not> (measurementCount (fittedStars (associations st) (fittedStar (measuredStars (associations st) m))) = 1 \<and>
                refStar (fittedStars (associations st) (fittedStar (measuredStars (associations st) m))) = None)))"
  using assms
proof (induction cs arbitrary: s)
  case Nil
  then show ?case by simp
next
  case (Cons c cs)
  show ?case
  proof (cases "chi2 c < cutv")
    case True
    with Cons.prems show ?thesis by simp
  next
    case False
    with Cons.prems obtain s1 where s1: "outlier_step env st c s = Inr s1"
      "outlier_loop env st cutv cs s1 = Inr s'"
      by (auto split: sum.splits)
    note step = outlier_step_lists [OF s1(1)]
    note rest = Cons.IH [OF s1(2)]
    from False have ge: "cutv \<le> chi2 c" by simp
    show ?thesis
    proof (intro conjI ballI)
      fix f assume "f \<in> set (fsOutliers s')"
      with rest have "f \<in> set (fsOutliers s1) \<or>
            (\<exists>c\<in>set cs. star c = FittedStarPtr f \<and> cutv \<le> chi2 c \<and>
               measurementCount (fittedStars (associations st) f) \<noteq> 0)" by blast
      then show "f \<in> set (fsOutliers s) \<or>
            (\<exists>c\<in>set (c # cs). star c = FittedStarPtr f \<and> cutv \<le> chi2 c \<and>
               measurementCount (fittedStars (associations st) f) \<noteq> 0)"
        using step ge by auto
    next
      fix m assume "m \<in> set (msOutliers s')"
      with rest have "m \<in> set (msOutliers s1) \<or>
            (\<exists>c\<in>set cs. star c = MeasuredStarPtr m \<and> cutv \<le> chi2 c \<and>
             \<not> (measurementCount (fittedStars (associations st) (fittedStar (measuredStars (associations st) m))) = 1 \<and>
                refStar (fittedStars (associations st) (fittedStar (measuredStars (associations st) m))) = None))"
        by blast
      then show "m \<in> set (msOutliers s) \<or>
            (\<exists>c\<in>set (c # cs). star c = MeasuredStarPtr m \<and> cutv \<le> chi2 c \<and>
             \<not> (measurementCount (fittedStars (associations st) (fittedStar (measuredStars (associations st) m))) = 1 \<and>
                refStar (fittedStars (associations st) (fittedStar (measuredStars (associations st) m))) = None))"
        using step ge by auto
    qed
  qed
qed

lemma findOutliers_lists:
  assumes "findOutliers env st nSigmaCut [] [] = Inr (n, ms, fs, w)"
  shows "(\<forall>f\<in>set fs. \<exists>c\<in>set (collectChi2List env st). star c = FittedStarPtr f \<and>
            outlierCut nSigmaCut (collectChi2List env st) \<le> chi2 c \<and>
            measurementCount (fittedStars (associations st) f) \<noteq> 0) \<and>
         (\<forall>m\<in>set ms. \<exists>c\<in>set (collectChi2List env st). star c = MeasuredStarPtr m \<and>
            outlierCut nSigmaCut (collectChi2List env st) \<le> chi2 c \<and>
             \<not> (measurementCount (fittedStars (associations st) (fittedStar (measuredStars (associations st) m))) = 1 \<and>
                refStar (fittedStars (associations st) (fittedStar (measuredStars (associations st) m))) = None))"
proof -
  from findOutliers_Inr [OF assms] show ?thesis
  proof
    assume "collectChi2List env st = [] \<and> n = 0 \<and> ms = [] \<and> fs = [] \<and> w = []"
    then show ?thesis by simp
  next
    assume "collectChi2List env st \<noteq> [] \<and>
          (\<exists>s. outlier_loop env st (outlierCut nSigmaCut (collectChi2List env st))
                  (examined (collectChi2List env st)) (startScan (nParTot st) [] []) = Inr s \<and>
               n = nOutliers s \<and> ms = msOutliers s \<and> fs = fsOutliers s \<and> w = warnings s)"
    then obtain s where s: "outlier_loop env st (outlierCut nSigmaCut (collectChi2List env st))
                  (examined (collectChi2List env st)) (startScan (nParTot st) [] []) = Inr s"
      "ms = msOutliers s" "fs = fsOutliers s" by blast
    have ex: "set (examined (collectChi2List env st)) = set (collectChi2List env st)"
      by (simp add: examined_def)
    from outlier_loop_lists [OF s(1)] show ?thesis
      unfolding ex s(2,3) by (simp add: startScan_def)
  qed
qed

text \<open>
  C3. A reference term whose FittedStar has \<open>measurementCount = 0\<close>, and a measurement term
  whose FittedStar has \<open>measurementCount = 1\<close> and no RefStar, are skipped: the turn of the
  loop only appends the warning and the loop goes on with the next term, without error. No
  such star is among the outliers that \<open>findOutliers\<close> returns.
\<close>

theorem findOutliers_protective_cases:
  "(\<not> chi2 c < cutv \<and> star c = FittedStarPtr f \<and>
      measurementCount (fittedStars (associations st) f) = 0 \<longrightarrow>
      outlier_loop env st cutv (c # cs) s =
      outlier_loop env st cutv cs (s\<lparr>warnings := warnings s @ [WarnNoMeasuredStars f]\<rparr>)) \<and>
   (\<not> chi2 c < cutv \<and> star c = MeasuredStarPtr m \<and>
      measurementCount (fittedStars (associations st) (fittedStar (measuredStars (associations st) m))) = 1 \<and>
      refStar (fittedStars (associations st) (fittedStar (measuredStars (associations st) m))) = None \<longrightarrow>
      outlier_loop env st cutv (c # cs) s =
      outlier_loop env st cutv cs
        (s\<lparr>warnings := warnings s @
             [WarnOneMeasuredStarNoRef (fittedStar (measuredStars (associations st) m))]\<rparr>)) \<and>
   (findOutliers env st nSigmaCut [] [] = Inr (n, ms, fs, w) \<longrightarrow>
      (\<forall>f'\<in>set fs. measurementCount (fittedStars (associations st) f') \<noteq> 0) \<and>
      (\<forall>m'\<in>set ms.
         \<not> (measurementCount (fittedStars (associations st) (fittedStar (measuredStars (associations st) m'))) = 1 \<and>
            refStar (fittedStars (associations st) (fittedStar (measuredStars (associations st) m'))) = None)))"
proof (intro conjI impI)
  assume "\<not> chi2 c < cutv \<and> star c = FittedStarPtr f \<and>
      measurementCount (fittedStars (associations st) f) = 0"
  then show "outlier_loop env st cutv (c # cs) s =
      outlier_loop env st cutv cs (s\<lparr>warnings := warnings s @ [WarnNoMeasuredStars f]\<rparr>)"
    by (simp add: outlier_step_def)
next
  assume "\<not> chi2 c < cutv \<and> star c = MeasuredStarPtr m \<and>
      measurementCount (fittedStars (associations st) (fittedStar (measuredStars (associations st) m))) = 1 \<and>
      refStar (fittedStars (associations st) (fittedStar (measuredStars (associations st) m))) = None"
  then show "outlier_loop env st cutv (c # cs) s =
      outlier_loop env st cutv cs
        (s\<lparr>warnings := warnings s @
             [WarnOneMeasuredStarNoRef (fittedStar (measuredStars (associations st) m))]\<rparr>)"
    by (simp add: outlier_step_def)
next
  assume a: "findOutliers env st nSigmaCut [] [] = Inr (n, ms, fs, w)"
  from findOutliers_lists [OF a]
  show "\<forall>f'\<in>set fs. measurementCount (fittedStars (associations st) f') \<noteq> 0"
    by blast
next
  assume a: "findOutliers env st nSigmaCut [] [] = Inr (n, ms, fs, w)"
  from findOutliers_lists [OF a]
  show "\<forall>m'\<in>set ms.
         \<not> (measurementCount (fittedStars (associations st) (fittedStar (measuredStars (associations st) m'))) = 1 \<and>
            refStar (fittedStars (associations st) (fittedStar (measuredStars (associations st) m'))) = None)"
    by blast
qed

lemma sum_list_insort_key:
  "sum_list (map f (insort_key k x xs)) = (f x :: real) + sum_list (map f xs)"
  by (induction xs) simp_all

lemma sum_list_sort_key: "sum_list (map f (sort_key k xs)) = (sum_list (map f xs) :: real)"
  by (induction xs) (simp_all add: sum_list_insort_key)

lemma computeAverageAndSigma_sort:
  "computeAverageAndSigma (sort_key chi2 l) = computeAverageAndSigma l"
  by (simp add: computeAverageAndSigma_def Let_def sum_list_sort_key)

lemma examined_descending: "sorted_wrt (\<lambda>a b. chi2 b \<le> chi2 a) (examined l)"
proof -
  have "sorted (map chi2 (sort_key chi2 l))" by (rule sorted_sort_key)
  then have "sorted_wrt (\<lambda>a b. chi2 a \<le> chi2 b) (sort_key chi2 l)"
    by (simp add: sorted_map)
  then show ?thesis
    unfolding examined_def by (simp add: sorted_wrt_rev)
qed

text \<open>
  C6 (amended). With a non-empty list of terms, \<open>findOutliers\<close> runs its loop with
  \<open>cut = mean + nSigmaCut * sigma\<close> of the list, over the terms in descending order of chi2,
  and every outlier it stores belongs to a term with \<open>chi2 \<ge> cut\<close>: a term with
  \<open>chi2 < cut\<close> is never stored.
\<close>

theorem findOutliers_cut:
  assumes "collectChi2List env st \<noteq> []"
  shows "findOutliers env st nSigmaCut msOut fsOut =
           (case outlier_loop env st (outlierCut nSigmaCut (collectChi2List env st))
                   (examined (collectChi2List env st)) (startScan (nParTot st) msOut fsOut) of
              Inl e \<Rightarrow> Inl e
            | Inr s \<Rightarrow> Inr (nOutliers s, msOutliers s, fsOutliers s, warnings s)) \<and>
         outlierCut nSigmaCut (collectChi2List env st) =
           fst (computeAverageAndSigma (collectChi2List env st)) +
           nSigmaCut * snd (computeAverageAndSigma (collectChi2List env st)) \<and>
         sorted_wrt (\<lambda>a b. chi2 b \<le> chi2 a) (examined (collectChi2List env st)) \<and>
         set (examined (collectChi2List env st)) = set (collectChi2List env st) \<and>
         length (examined (collectChi2List env st)) = length (collectChi2List env st) \<and>
         (findOutliers env st nSigmaCut [] [] = Inr (n, ms, fs, w) \<longrightarrow>
            (\<forall>m\<in>set ms. \<exists>c\<in>set (collectChi2List env st). star c = MeasuredStarPtr m \<and>
               outlierCut nSigmaCut (collectChi2List env st) \<le> chi2 c) \<and>
            (\<forall>f\<in>set fs. \<exists>c\<in>set (collectChi2List env st). star c = FittedStarPtr f \<and>
               outlierCut nSigmaCut (collectChi2List env st) \<le> chi2 c))"
proof (intro conjI impI)
  show "findOutliers env st nSigmaCut msOut fsOut =
           (case outlier_loop env st (outlierCut nSigmaCut (collectChi2List env st))
                   (examined (collectChi2List env st)) (startScan (nParTot st) msOut fsOut) of
              Inl e \<Rightarrow> Inl e
            | Inr s \<Rightarrow> Inr (nOutliers s, msOutliers s, fsOutliers s, warnings s))"
    using assms by (simp add: findOutliers_def Let_def)
  show "outlierCut nSigmaCut (collectChi2List env st) =
           fst (computeAverageAndSigma (collectChi2List env st)) +
           nSigmaCut * snd (computeAverageAndSigma (collectChi2List env st))"
    by (simp add: outlierCut_def Let_def computeAverageAndSigma_sort)
  show "sorted_wrt (\<lambda>a b. chi2 b \<le> chi2 a) (examined (collectChi2List env st))"
    by (rule examined_descending)
  show "set (examined (collectChi2List env st)) = set (collectChi2List env st)"
    by (simp add: examined_def)
  show "length (examined (collectChi2List env st)) = length (collectChi2List env st)"
    by (simp add: examined_def)
next
  assume a: "findOutliers env st nSigmaCut [] [] = Inr (n, ms, fs, w)"
  from findOutliers_lists [OF a]
  show "\<forall>m\<in>set ms. \<exists>c\<in>set (collectChi2List env st). star c = MeasuredStarPtr m \<and>
               outlierCut nSigmaCut (collectChi2List env st) \<le> chi2 c"
    by blast
next
  assume a: "findOutliers env st nSigmaCut [] [] = Inr (n, ms, fs, w)"
  from findOutliers_lists [OF a]
  show "\<forall>f\<in>set fs. \<exists>c\<in>set (collectChi2List env st). star c = FittedStarPtr f \<and>
               outlierCut nSigmaCut (collectChi2List env st) \<le> chi2 c"
    by blast
qed

lemma demo_collect:
  "collectChi2List (demo_env (\<lambda>k m. 1) (\<lambda>k f. 1) demo_indices 1) (demo_fitter True) =
     [\<lparr>chi2 = 1, star = MeasuredStarPtr 0\<rparr>, \<lparr>chi2 = 1, star = MeasuredStarPtr 1\<rparr>,
      \<lparr>chi2 = 1, star = MeasuredStarPtr 2\<rparr>, \<lparr>chi2 = 1, star = MeasuredStarPtr 3\<rparr>,
      \<lparr>chi2 = 1, star = FittedStarPtr 2\<rparr>, \<lparr>chi2 = 1, star = FittedStarPtr 3\<rparr>]"
  by (simp add: demo_env_def demo_fitter_def demo_associations_def demo_indices_def
      collectChi2List_def accumulateChi2List_def)

lemma demo_cut:
  "outlierCut 3 [\<lparr>chi2 = 1, star = MeasuredStarPtr 0\<rparr>, \<lparr>chi2 = 1, star = MeasuredStarPtr 1\<rparr>,
      \<lparr>chi2 = 1, star = MeasuredStarPtr 2\<rparr>, \<lparr>chi2 = 1, star = MeasuredStarPtr 3\<rparr>,
      \<lparr>chi2 = 1, star = FittedStarPtr 2\<rparr>, \<lparr>chi2 = 1, star = FittedStarPtr 3\<rparr>] = 1"
  by (simp add: outlierCut_def computeAverageAndSigma_def)

lemma demo_examined:
  "examined [\<lparr>chi2 = 1, star = MeasuredStarPtr 0\<rparr>, \<lparr>chi2 = 1, star = MeasuredStarPtr 1\<rparr>,
      \<lparr>chi2 = 1, star = MeasuredStarPtr 2\<rparr>, \<lparr>chi2 = 1, star = MeasuredStarPtr 3\<rparr>,
      \<lparr>chi2 = 1, star = FittedStarPtr 2\<rparr>, \<lparr>chi2 = 1, star = FittedStarPtr 3\<rparr>] =
    [\<lparr>chi2 = 1, star = FittedStarPtr 3\<rparr>, \<lparr>chi2 = 1, star = FittedStarPtr 2\<rparr>,
     \<lparr>chi2 = 1, star = MeasuredStarPtr 3\<rparr>, \<lparr>chi2 = 1, star = MeasuredStarPtr 2\<rparr>,
     \<lparr>chi2 = 1, star = MeasuredStarPtr 1\<rparr>, \<lparr>chi2 = 1, star = MeasuredStarPtr 0\<rparr>]"
  by (simp add: examined_def)

lemma demo_findOutliers:
  "findOutliers (demo_env (\<lambda>k m. 1) (\<lambda>k f. 1) demo_indices 1) (demo_fitter True) 3 [] [] =
     Inr (2, [1], [2], [WarnNoMeasuredStars 3, WarnOneMeasuredStarNoRef 1])"
  unfolding findOutliers_def demo_collect Let_def demo_cut demo_examined
  by (simp add: demo_env_def demo_fitter_def demo_associations_def demo_indices_def
      startScan_def outlier_step_def store_outlier_def)

lemma replicate_8: "replicate 8 (0::int) = [0, 0, 0, 0, 0, 0, 0, 0]"
  by (simp add: numeral_eq_Suc)

lemma demo_step_shared:
  "outlier_step (demo_env (\<lambda>k m. 1) (\<lambda>k f. 1) demo_indices 1) (demo_fitter True)
     \<lparr>chi2 = 1, star = MeasuredStarPtr 3\<rparr>
     \<lparr>affectedParams = [0, 0, 1, 0, 0, 0, 0, 0], msOutliers = [], fsOutliers = [2],
      nOutliers = 1, warnings = [WarnNoMeasuredStars 3]\<rparr> =
   Inr \<lparr>affectedParams = [0, 0, 1, 0, 0, 0, 0, 0], msOutliers = [], fsOutliers = [2],
      nOutliers = 1, warnings = [WarnNoMeasuredStars 3]\<rparr>"
  by (simp add: demo_env_def demo_fitter_def demo_associations_def demo_indices_def
      outlier_step_def store_outlier_def)

lemma demo_loop_prefix:
  "outlier_loop (demo_env (\<lambda>k m. 1) (\<lambda>k f. 1) demo_indices 1) (demo_fitter True) 1
     [\<lparr>chi2 = 1, star = FittedStarPtr 3\<rparr>, \<lparr>chi2 = 1, star = FittedStarPtr 2\<rparr>]
     (startScan (nParTot (demo_fitter True)) [] []) =
   Inr \<lparr>affectedParams = [0, 0, 1, 0, 0, 0, 0, 0], msOutliers = [], fsOutliers = [2],
      nOutliers = 1, warnings = [WarnNoMeasuredStars 3]\<rparr>"
  by (simp add: demo_env_def demo_fitter_def demo_associations_def demo_indices_def
      startScan_def outlier_step_def store_outlier_def replicate_8)

theorem findOutliers_disjoint_indices_witness:
  "findOutliers (demo_env (\<lambda>k m. 1) (\<lambda>k f. 1) demo_indices 1) (demo_fitter True) 3 [] [] =
     Inr (2, [1], [2], [WarnNoMeasuredStars 3, WarnOneMeasuredStarNoRef 1]) \<and>
   outliers_disjoint (demo_env (\<lambda>k m. 1) (\<lambda>k f. 1) demo_indices 1) (demo_fitter True) [1] [2] \<and>
   set (contribution_indices (demo_env (\<lambda>k m. 1) (\<lambda>k f. 1) demo_indices 1) (demo_fitter True)
          (MeasuredStarPtr 3)) \<inter>
     recorded_indices (demo_env (\<lambda>k m. 1) (\<lambda>k f. 1) demo_indices 1) (demo_fitter True) [] [2] = {2} \<and>
   (case outlier_step (demo_env (\<lambda>k m. 1) (\<lambda>k f. 1) demo_indices 1) (demo_fitter True)
           \<lparr>chi2 = 1, star = MeasuredStarPtr 3\<rparr>
           \<lparr>affectedParams = [0, 0, 1, 0, 0, 0, 0, 0], msOutliers = [], fsOutliers = [2],
            nOutliers = 1, warnings = [WarnNoMeasuredStars 3]\<rparr> of
      Inl e \<Rightarrow> False
    | Inr s' \<Rightarrow> msOutliers s' = [] \<and> fsOutliers s' = [2])"
proof -
  let ?E = "demo_env (\<lambda>k m. 1) (\<lambda>k f. 1) demo_indices 1"
  let ?S = "demo_fitter True"
  let ?s = "\<lparr>affectedParams = [0, 0, 1, 0, 0, 0, 0, 0], msOutliers = [], fsOutliers = [2],
            nOutliers = 1, warnings = [WarnNoMeasuredStars 3]\<rparr>"
  let ?c = "\<lparr>chi2 = 1, star = MeasuredStarPtr 3\<rparr>"
  have shared: "set (contribution_indices ?E ?S (MeasuredStarPtr 3)) \<inter>
                recorded_indices ?E ?S [] [2] = {2}"
    by (simp add: contribution_indices_def recorded_indices_def demo_env_def demo_fitter_def
        demo_associations_def demo_indices_def)
  note res = findOutliers_disjoint_indices [OF demo_findOutliers]
  from res have d: "outliers_disjoint ?E ?S [1] [2]" by blast
  from res have "outlier_loop ?E ?S 1
       [\<lparr>chi2 = 1, star = FittedStarPtr 3\<rparr>, \<lparr>chi2 = 1, star = FittedStarPtr 2\<rparr>]
       (startScan (nParTot ?S) [] []) = Inr ?s \<and>
     set (contribution_indices ?E ?S (star ?c)) \<inter>
       recorded_indices ?E ?S (msOutliers ?s) (fsOutliers ?s) \<noteq> {} \<longrightarrow>
     (case outlier_step ?E ?S ?c ?s of
        Inl e \<Rightarrow> True
      | Inr s' \<Rightarrow> msOutliers s' = msOutliers ?s \<and> fsOutliers s' = fsOutliers ?s)"
    by blast
  with demo_loop_prefix shared
  have "case outlier_step ?E ?S ?c ?s of
        Inl e \<Rightarrow> True
      | Inr s' \<Rightarrow> msOutliers s' = msOutliers ?s \<and> fsOutliers s' = fsOutliers ?s"
    by simp
  then have k: "case outlier_step ?E ?S ?c ?s of
      Inl e \<Rightarrow> False
    | Inr s' \<Rightarrow> msOutliers s' = [] \<and> fsOutliers s' = [2]"
    unfolding demo_step_shared by simp
  from demo_findOutliers d shared k show ?thesis by blast
qed

theorem findOutliers_protective_cases_witness:
  "outlier_loop (demo_env (\<lambda>k m. 1) (\<lambda>k f. 1) demo_indices 1) (demo_fitter True) 1
     [\<lparr>chi2 = 1, star = FittedStarPtr 3\<rparr>] (startScan 8 [] []) =
     Inr ((startScan 8 [] [])\<lparr>warnings := [WarnNoMeasuredStars 3]\<rparr>) \<and>
   outlier_loop (demo_env (\<lambda>k m. 1) (\<lambda>k f. 1) demo_indices 1) (demo_fitter True) 1
     [\<lparr>chi2 = 1, star = MeasuredStarPtr 2\<rparr>] (startScan 8 [] []) =
     Inr ((startScan 8 [] [])\<lparr>warnings := [WarnOneMeasuredStarNoRef 1]\<rparr>) \<and>
   findOutliers (demo_env (\<lambda>k m. 1) (\<lambda>k f. 1) demo_indices 1) (demo_fitter True) 3 [] [] =
     Inr (2, [1], [2], [WarnNoMeasuredStars 3, WarnOneMeasuredStarNoRef 1]) \<and>
   measurementCount (fittedStars (associations (demo_fitter True)) 2) = 1 \<and>
   measurementCount (fittedStars (associations (demo_fitter True))
      (fittedStar (measuredStars (associations (demo_fitter True)) 1))) = 2"
proof -
  let ?E = "demo_env (\<lambda>k m. 1) (\<lambda>k f. 1) demo_indices 1"
  let ?S = "demo_fitter True"
  have a: "\<not> chi2 \<lparr>chi2 = 1, star = FittedStarPtr 3\<rparr> < (1::real) \<and>
           star \<lparr>chi2 = 1, star = FittedStarPtr 3\<rparr> = FittedStarPtr 3 \<and>
           measurementCount (fittedStars (associations ?S) 3) = 0"
    by (simp add: demo_fitter_def demo_associations_def)
  have b: "\<not> chi2 \<lparr>chi2 = 1, star = MeasuredStarPtr 2\<rparr> < (1::real) \<and>
           star \<lparr>chi2 = 1, star = MeasuredStarPtr 2\<rparr> = MeasuredStarPtr 2 \<and>
           measurementCount (fittedStars (associations ?S)
             (fittedStar (measuredStars (associations ?S) 2))) = 1 \<and>
           refStar (fittedStars (associations ?S)
             (fittedStar (measuredStars (associations ?S) 2))) = None"
    by (simp add: demo_fitter_def demo_associations_def)
  have o: "fittedStar (measuredStars (associations ?S) 2) = 1"
    by (simp add: demo_fitter_def demo_associations_def)
  from findOutliers_protective_cases
         [of "\<lparr>chi2 = 1, star = FittedStarPtr 3\<rparr>" 1 3 ?S ?E "[]" "startScan 8 [] []"] a
  have 1: "outlier_loop ?E ?S 1 [\<lparr>chi2 = 1, star = FittedStarPtr 3\<rparr>] (startScan 8 [] []) =
           Inr ((startScan 8 [] [])\<lparr>warnings := [WarnNoMeasuredStars 3]\<rparr>)"
    by (simp add: startScan_def)
  from findOutliers_protective_cases
         [of "\<lparr>chi2 = 1, star = MeasuredStarPtr 2\<rparr>" 1 _ ?S ?E "[]" "startScan 8 [] []" 2] b o
  have 2: "outlier_loop ?E ?S 1 [\<lparr>chi2 = 1, star = MeasuredStarPtr 2\<rparr>] (startScan 8 [] []) =
           Inr ((startScan 8 [] [])\<lparr>warnings := [WarnOneMeasuredStarNoRef 1]\<rparr>)"
    by (simp add: startScan_def)
  have 3: "measurementCount (fittedStars (associations ?S) 2) = 1 \<and>
           measurementCount (fittedStars (associations ?S)
             (fittedStar (measuredStars (associations ?S) 1))) = 2"
    by (simp add: demo_fitter_def demo_associations_def)
  from 1 2 3 demo_findOutliers show ?thesis by blast
qed

text \<open>
  C6, as stated, fails for terms whose chi2 equals the cut: the loop stops at the first term
  with \<open>chi2 < cut\<close>, so a term with \<open>chi2 = cut\<close> is examined and can be stored. Here all
  six terms have chi2 1, the cut is 1, and two outliers are stored.
\<close>

theorem findOutliers_records_at_cut:
  "map chi2 (collectChi2List (demo_env (\<lambda>k m. 1) (\<lambda>k f. 1) demo_indices 1) (demo_fitter True)) =
     [1, 1, 1, 1, 1, 1] \<and>
   outlierCut 3 (collectChi2List (demo_env (\<lambda>k m. 1) (\<lambda>k f. 1) demo_indices 1) (demo_fitter True)) = 1 \<and>
   findOutliers (demo_env (\<lambda>k m. 1) (\<lambda>k f. 1) demo_indices 1) (demo_fitter True) 3 [] [] =
     Inr (2, [1], [2], [WarnNoMeasuredStars 3, WarnOneMeasuredStarNoRef 1])"
  unfolding demo_collect demo_cut using demo_findOutliers by simp

lemma demo2_collect:
  "collectChi2List (demo_env (\<lambda>k m. if m = 1 then 4 else 0) (\<lambda>k f. 0) demo_indices 1)
     (demo_fitter False) =
     [\<lparr>chi2 = 0, star = MeasuredStarPtr 0\<rparr>, \<lparr>chi2 = 4, star = MeasuredStarPtr 1\<rparr>,
      \<lparr>chi2 = 0, star = MeasuredStarPtr 2\<rparr>, \<lparr>chi2 = 0, star = MeasuredStarPtr 3\<rparr>]"
  by (simp add: demo_env_def demo_fitter_def demo_associations_def demo_indices_def
      collectChi2List_def accumulateChi2List_def)

lemma demo2_cut:
  "outlierCut 1 [\<lparr>chi2 = 0, star = MeasuredStarPtr 0\<rparr>, \<lparr>chi2 = 4, star = MeasuredStarPtr 1\<rparr>,
      \<lparr>chi2 = 0, star = MeasuredStarPtr 2\<rparr>, \<lparr>chi2 = 0, star = MeasuredStarPtr 3\<rparr>] = 3"
  by (simp add: outlierCut_def computeAverageAndSigma_def)

lemma demo2_examined:
  "examined [\<lparr>chi2 = 0, star = MeasuredStarPtr 0\<rparr>, \<lparr>chi2 = 4, star = MeasuredStarPtr 1\<rparr>,
      \<lparr>chi2 = 0, star = MeasuredStarPtr 2\<rparr>, \<lparr>chi2 = 0, star = MeasuredStarPtr 3\<rparr>] =
     [\<lparr>chi2 = 4, star = MeasuredStarPtr 1\<rparr>, \<lparr>chi2 = 0, star = MeasuredStarPtr 3\<rparr>,
      \<lparr>chi2 = 0, star = MeasuredStarPtr 2\<rparr>, \<lparr>chi2 = 0, star = MeasuredStarPtr 0\<rparr>]"
  by (simp add: examined_def)

lemma demo2_findOutliers:
  "findOutliers (demo_env (\<lambda>k m. if m = 1 then 4 else 0) (\<lambda>k f. 0) demo_indices 1)
     (demo_fitter False) 1 [] [] = Inr (1, [1], [], [])"
  unfolding findOutliers_def demo2_collect Let_def demo2_cut demo2_examined
  by (simp add: demo_env_def demo_fitter_def demo_associations_def demo_indices_def
      startScan_def outlier_step_def store_outlier_def)

theorem findOutliers_cut_witness:
  "collectChi2List (demo_env (\<lambda>k m. if m = 1 then 4 else 0) (\<lambda>k f. 0) demo_indices 1)
     (demo_fitter False) \<noteq> [] \<and>
   findOutliers (demo_env (\<lambda>k m. if m = 1 then 4 else 0) (\<lambda>k f. 0) demo_indices 1)
     (demo_fitter False) 1 [] [] = Inr (1, [1], [], []) \<and>
   outlierCut 1 (collectChi2List (demo_env (\<lambda>k m. if m = 1 then 4 else 0) (\<lambda>k f. 0) demo_indices 1)
     (demo_fitter False)) = 3 \<and>
   (\<exists>c\<in>set (collectChi2List (demo_env (\<lambda>k m. if m = 1 then 4 else 0) (\<lambda>k f. 0) demo_indices 1)
              (demo_fitter False)).
      star c = MeasuredStarPtr 1 \<and> 3 \<le> chi2 c)"
proof -
  let ?E = "demo_env (\<lambda>k m. if m = 1 then 4 else 0) (\<lambda>k f. 0) demo_indices 1"
  let ?S = "demo_fitter False"
  have ne: "collectChi2List ?E ?S \<noteq> []"
    unfolding demo2_collect by simp
  have cut: "outlierCut 1 (collectChi2List ?E ?S) = 3"
    unfolding demo2_collect demo2_cut ..
  from findOutliers_cut [OF ne, of 1 "[]" "[]" 1 "[1]" "[]" "[]"] demo2_findOutliers
  have "\<forall>m\<in>set [1::nat]. \<exists>c\<in>set (collectChi2List ?E ?S). star c = MeasuredStarPtr m \<and>
               outlierCut 1 (collectChi2List ?E ?S) \<le> chi2 c"
    by blast
  then have "\<exists>c\<in>set (collectChi2List ?E ?S). star c = MeasuredStarPtr 1 \<and> 3 \<le> chi2 c"
    unfolding cut by simp
  with ne cut demo2_findOutliers show ?thesis by blast
qed

section \<open>Results: minimize\<close>

text \<open>The ways one turn of the loop of \<open>minimize\<close> can go.\<close>

lemma minimize_body_cases:
  fixes env :: "('p, 't, 'g, 'h, 'c) Collaborators"
    and loc :: "('g, 'c) MinimizeLocals" and st :: "'p FitterBase"
  defines "st1 \<equiv> solveAndOffset env loc st"
  obtains
    (increased) "stat_chi2 (computeChi2 env st1) > oldChi2 loc"
      "totalMeasOutliers loc + totalRefOutliers loc \<noteq> 0"
      "minimize_body env nSigmaCut doRankUpdate loc st =
         Stop Chi2Increased (st1\<lparr>logged := logged st1 @ [WarnChi2WentUp]\<rparr>)"
  | (noRejection) "\<not> (stat_chi2 (computeChi2 env st1) > oldChi2 loc \<and>
         totalMeasOutliers loc + totalRefOutliers loc \<noteq> 0)"
      "nSigmaCut = 0"
      "minimize_body env nSigmaCut doRankUpdate loc st = Stop Converged st1"
  | (aborted) e where "\<not> (stat_chi2 (computeChi2 env st1) > oldChi2 loc \<and>
         totalMeasOutliers loc + totalRefOutliers loc \<noteq> 0)"
      "nSigmaCut \<noteq> 0" "findOutliers env st1 nSigmaCut [] [] = Inl e"
      "minimize_body env nSigmaCut doRankUpdate loc st = Abort e"
  | (noOutliers) ms fs w where "\<not> (stat_chi2 (computeChi2 env st1) > oldChi2 loc \<and>
         totalMeasOutliers loc + totalRefOutliers loc \<noteq> 0)"
      "nSigmaCut \<noteq> 0" "findOutliers env st1 nSigmaCut [] [] = Inr (0, ms, fs, w)"
      "minimize_body env nSigmaCut doRankUpdate loc st =
         Stop Converged (st1\<lparr>logged := logged st1 @ w\<rparr>)"
  | (rankUpdate) nOut ms fs w loc1 where "\<not> (stat_chi2 (computeChi2 env st1) > oldChi2 loc \<and>
         totalMeasOutliers loc + totalRefOutliers loc \<noteq> 0)"
      "nSigmaCut \<noteq> 0" "findOutliers env st1 nSigmaCut [] [] = Inr (nOut, ms, fs, w)"
      "nOut \<noteq> 0" "doRankUpdate"
      "oldChi2 loc1 = stat_chi2 (computeChi2 env st1)"
      "totalMeasOutliers loc1 = totalMeasOutliers loc + length ms"
      "totalRefOutliers loc1 = totalRefOutliers loc + length fs"
      "minimize_body env nSigmaCut doRankUpdate loc st =
         Next loc1 (st1\<lparr>logged := logged st1 @ w,
                        associations := removeRefOutliers fs
                                          (removeMeasOutliers ms (associations st1))\<rparr>)"
  | (rebuildFailed) nOut ms fs w st4 grad2 chol1 where
      "\<not> (stat_chi2 (computeChi2 env st1) > oldChi2 loc \<and>
         totalMeasOutliers loc + totalRefOutliers loc \<noteq> 0)"
      "nSigmaCut \<noteq> 0" "findOutliers env st1 nSigmaCut [] [] = Inr (nOut, ms, fs, w)"
      "nOut \<noteq> 0" "\<not> doRankUpdate"
      "rebuildFactorization env (chol loc)
         (st1\<lparr>logged := logged st1 @ w,
              associations := removeRefOutliers fs (removeMeasOutliers ms (associations st1))\<rparr>) =
         (st4, grad2, chol1)"
      "\<not> cholSuccess env chol1"
      "minimize_body env nSigmaCut doRankUpdate loc st =
         Stop Failed (st4\<lparr>logged := logged st4 @ [ErrorFactorizationFailed]\<rparr>)"
  | (rebuilt) nOut ms fs w st4 grad2 chol1 loc1 where
      "\<not> (stat_chi2 (computeChi2 env st1) > oldChi2 loc \<and>
         totalMeasOutliers loc + totalRefOutliers loc \<noteq> 0)"
      "nSigmaCut \<noteq> 0" "findOutliers env st1 nSigmaCut [] [] = Inr (nOut, ms, fs, w)"
      "nOut \<noteq> 0" "\<not> doRankUpdate"
      "rebuildFactorization env (chol loc)
         (st1\<lparr>logged := logged st1 @ w,
              associations := removeRefOutliers fs (removeMeasOutliers ms (associations st1))\<rparr>) =
         (st4, grad2, chol1)"
      "cholSuccess env chol1"
      "oldChi2 loc1 = stat_chi2 (computeChi2 env st1)"
      "totalMeasOutliers loc1 = totalMeasOutliers loc + length ms"
      "totalRefOutliers loc1 = totalRefOutliers loc + length fs"
      "minimize_body env nSigmaCut doRankUpdate loc st = Next loc1 st4"
proof (cases "stat_chi2 (computeChi2 env st1) > oldChi2 loc \<and>
         totalMeasOutliers loc + totalRefOutliers loc \<noteq> 0")
  case True
  then have "minimize_body env nSigmaCut doRankUpdate loc st =
         Stop Chi2Increased (st1\<lparr>logged := logged st1 @ [WarnChi2WentUp]\<rparr>)"
    by (simp add: minimize_body_def Let_def st1_def [symmetric])
  with True show ?thesis using increased by blast
next
  case nc: False
  show ?thesis
  proof (cases "nSigmaCut = 0")
    case True
    with nc have "minimize_body env nSigmaCut doRankUpdate loc st = Stop Converged st1"
      by (simp add: minimize_body_def Let_def st1_def [symmetric])
    from noRejection [OF nc True this] show ?thesis .
  next
    case ns: False
    show ?thesis
    proof (cases "findOutliers env st1 nSigmaCut [] []")
      case (Inl e)
      with nc ns have "minimize_body env nSigmaCut doRankUpdate loc st = Abort e"
        by (simp add: minimize_body_def Let_def st1_def [symmetric])
      from aborted [OF nc ns Inl this] show ?thesis .
    next
      case (Inr r)
      obtain nOut ms fs w where r: "r = (nOut, ms, fs, w)" by (cases r) auto
      note fo = Inr [unfolded r]
      show ?thesis
      proof (cases "nOut = 0")
        case True
        with nc ns fo have "minimize_body env nSigmaCut doRankUpdate loc st =
            Stop Converged (st1\<lparr>logged := logged st1 @ w\<rparr>)"
          by (simp add: minimize_body_def Let_def st1_def [symmetric])
        from noOutliers [OF nc ns fo [unfolded True] this] show ?thesis .
      next
        case no: False
        let ?st3 = "st1\<lparr>logged := logged st1 @ w,
                        associations := removeRefOutliers fs
                                          (removeMeasOutliers ms (associations st1))\<rparr>"
        show ?thesis
        proof (cases doRankUpdate)
          case True
          obtain ot g1 where oc: "outliersContributions env (st1\<lparr>logged := logged st1 @ w\<rparr>) ms fs
                 (newTripletList env nOut, zeroVector env (nParTot st1)) = (ot, g1)"
            by (metis surj_pair)
          let ?loc1 = "loc\<lparr>oldChi2 := stat_chi2 (computeChi2 env st1),
                          totalMeasOutliers := totalMeasOutliers loc + length ms,
                          totalRefOutliers := totalRefOutliers loc + length fs,
                          chol := cholUpdate env (chol loc) (sparseFromTriplets env (nParTot st1) ot),
                          grad := negateVector env g1\<rparr>"
          from nc ns fo no True oc
          have "minimize_body env nSigmaCut doRankUpdate loc st = Next ?loc1 ?st3"
            by (simp add: minimize_body_def Let_def st1_def [symmetric])
          from rankUpdate [OF nc ns fo no True _ _ _ this] show ?thesis by simp
        next
          case False
          obtain st4 grad2 chol1 where rb: "rebuildFactorization env (chol loc) ?st3 =
              (st4, grad2, chol1)"
            by (metis prod_cases3)
          obtain ot g1 where oc: "outliersContributions env (st1\<lparr>logged := logged st1 @ w\<rparr>) ms fs
                 (newTripletList env nOut, zeroVector env (nParTot st1)) = (ot, g1)"
            by (metis surj_pair)
          show ?thesis
          proof (cases "cholSuccess env chol1")
            case True
            let ?loc1 = "loc\<lparr>oldChi2 := stat_chi2 (computeChi2 env st1),
                          totalMeasOutliers := totalMeasOutliers loc + length ms,
                          totalRefOutliers := totalRefOutliers loc + length fs,
                          chol := chol1, grad := grad2\<rparr>"
            from nc ns fo no False rb oc True
            have "minimize_body env nSigmaCut doRankUpdate loc st = Next ?loc1 st4"
              by (simp add: minimize_body_def Let_def st1_def [symmetric])
            from rebuilt [OF nc ns fo no False rb True _ _ _ this] show ?thesis by simp
          next
            case cf: False
            from nc ns fo no False rb oc cf
            have "minimize_body env nSigmaCut doRankUpdate loc st =
                Stop Failed (st4\<lparr>logged := logged st4 @ [ErrorFactorizationFailed]\<rparr>)"
              by (simp add: minimize_body_def Let_def st1_def [symmetric])
            from rebuildFailed [OF nc ns fo no False rb cf this] show ?thesis .
          qed
        qed
      qed
    qed
  qed
qed

lemma minimize_loop_turn:
  assumes "minimize_turn env nSigmaCut doRankUpdate x y"
  shows "minimize_loop env nSigmaCut doRankUpdate (fst x) (snd x) =
         minimize_loop env nSigmaCut doRankUpdate (fst y) (snd y)"
proof -
  from assms
  have "minimize_body env nSigmaCut doRankUpdate (fst x) (snd x) = Next (fst y) (snd y)"
    by (simp add: minimize_turn_def)
  then show ?thesis
    by (subst minimize_loop.simps) simp
qed

lemma minimize_loop_reach:
  assumes "(minimize_turn env nSigmaCut doRankUpdate)\<^sup>*\<^sup>* x y"
  shows "minimize_loop env nSigmaCut doRankUpdate (fst x) (snd x) =
         minimize_loop env nSigmaCut doRankUpdate (fst y) (snd y)"
  using assms
proof (induction rule: rtranclp_induct)
  case base
  then show ?case by simp
next
  case (step y z)
  then show ?case using minimize_loop_turn [of env nSigmaCut doRankUpdate y z] by simp
qed

lemma minimize_loop_result:
  fixes env :: "('p, 't, 'g, 'h, 'c) Collaborators"
  assumes "minimize_loop env nSigmaCut doRankUpdate loc st = Some res"
  shows "\<exists>y. (minimize_turn env nSigmaCut doRankUpdate)\<^sup>*\<^sup>* (loc, st) y \<and>
           (case minimize_body env nSigmaCut doRankUpdate (fst y) (snd y) of
              Stop r s \<Rightarrow> res = Inr (r, s)
            | Abort e \<Rightarrow> res = Inl e
            | Next l s \<Rightarrow> False)"
proof (rule minimize_loop.raw_induct
    [where P = "\<lambda>env nSigmaCut doRankUpdate loc st res.
       \<exists>y. (minimize_turn env nSigmaCut doRankUpdate)\<^sup>*\<^sup>* (loc, st) y \<and>
           (case minimize_body env nSigmaCut doRankUpdate (fst y) (snd y) of
              Stop r s \<Rightarrow> res = Inr (r, s)
            | Abort e \<Rightarrow> res = Inl e
            | Next l s \<Rightarrow> False)", OF _ assms])
  fix f :: "('p, 't, 'g, 'h, 'c) Collaborators \<Rightarrow> real \<Rightarrow> bool \<Rightarrow> ('g, 'c) MinimizeLocals \<Rightarrow>
             'p FitterBase \<Rightarrow> (error + MinimizeResult \<times> 'p FitterBase) option"
    and env :: "('p, 't, 'g, 'h, 'c) Collaborators" and nSigmaCut doRankUpdate loc st res
  assume IH: "\<And>env nSigmaCut doRankUpdate loc st res. f env nSigmaCut doRankUpdate loc st = Some res \<Longrightarrow>
       \<exists>y. (minimize_turn env nSigmaCut doRankUpdate)\<^sup>*\<^sup>* (loc, st) y \<and>
           (case minimize_body env nSigmaCut doRankUpdate (fst y) (snd y) of
              Stop r s \<Rightarrow> res = Inr (r, s)
            | Abort e \<Rightarrow> res = Inl e
            | Next l s \<Rightarrow> False)"
    and body: "(case minimize_body env nSigmaCut doRankUpdate loc st of
                  Stop r s \<Rightarrow> Some (Inr (r, s))
                | Abort e \<Rightarrow> Some (Inl e)
                | Next loc1 st1 \<Rightarrow> f env nSigmaCut doRankUpdate loc1 st1) = Some res"
  show "\<exists>y. (minimize_turn env nSigmaCut doRankUpdate)\<^sup>*\<^sup>* (loc, st) y \<and>
           (case minimize_body env nSigmaCut doRankUpdate (fst y) (snd y) of
              Stop r s \<Rightarrow> res = Inr (r, s)
            | Abort e \<Rightarrow> res = Inl e
            | Next l s \<Rightarrow> False)"
  proof (cases "minimize_body env nSigmaCut doRankUpdate loc st")
    case (Stop r s)
    with body have "res = Inr (r, s)" by simp
    with Stop show ?thesis
      by (intro exI [of _ "(loc, st)"]) simp
  next
    case (Abort e)
    with body have "res = Inl e" by simp
    with Abort show ?thesis
      by (intro exI [of _ "(loc, st)"]) simp
  next
    case (Next l s)
    with body have "f env nSigmaCut doRankUpdate l s = Some res" by simp
    from IH [OF this] obtain y where y:
      "(minimize_turn env nSigmaCut doRankUpdate)\<^sup>*\<^sup>* (l, s) y"
      "case minimize_body env nSigmaCut doRankUpdate (fst y) (snd y) of
              Stop r s \<Rightarrow> res = Inr (r, s)
            | Abort e \<Rightarrow> res = Inl e
            | Next l s \<Rightarrow> False"
      by (elim exE conjE)
    have "minimize_turn env nSigmaCut doRankUpdate (loc, st) (l, s)"
      using Next by (simp add: minimize_turn_def)
    with y(1) have "(minimize_turn env nSigmaCut doRankUpdate)\<^sup>*\<^sup>* (loc, st) y"
      by (rule converse_rtranclp_into_rtranclp [rotated])
    with y(2) show ?thesis by (intro exI [of _ y] conjI)
  qed
qed

lemma solveAndOffset_frame:
  "associations (solveAndOffset env loc st) = associations st"
  "logged (solveAndOffset env loc st) = logged st"
  "nParTot (solveAndOffset env loc st) = nParTot st"
  "lastNTrip (solveAndOffset env loc st) = lastNTrip st"
  by (simp_all add: solveAndOffset_def Let_def)

lemma rebuildFactorization_frame:
  assumes "rebuildFactorization env c st3 = (st4, grad2, chol1)"
  shows "fitterState st4 = fitterState st3" "associations st4 = associations st3"
    "logged st4 = logged st3" "nParTot st4 = nParTot st3"
  using assms
  by (auto simp: rebuildFactorization_def Let_def split: prod.splits)

lemma minimize_prepare_frame:
  assumes "minimize_prepare env whatToFit st = (st2, grad0, chol0)"
  shows "fitterState st2 = fitterState (assignIndices env whatToFit st)"
    "associations st2 = associations (assignIndices env whatToFit st)"
    "logged st2 = logged (assignIndices env whatToFit st)"
  using assms
  by (auto simp: minimize_prepare_def Let_def split: prod.splits)

text \<open>A turn that reaches the rebuild path with a failing factorization.\<close>

lemma minimize_body_rebuild_failed:
  fixes env :: "('p, 't, 'g, 'h, 'c) Collaborators"
  assumes nc: "\<not> (stat_chi2 (computeChi2 env (solveAndOffset env loc x)) > oldChi2 loc \<and>
                  totalMeasOutliers loc + totalRefOutliers loc \<noteq> 0)"
    and ns: "nSigmaCut \<noteq> 0"
    and fo: "findOutliers env (solveAndOffset env loc x) nSigmaCut [] [] = Inr (nOut, ms, fs, w)"
    and no: "nOut \<noteq> 0"
    and rb: "rebuildFactorization env (chol loc)
               ((solveAndOffset env loc x)
                  \<lparr>logged := logged (solveAndOffset env loc x) @ w,
                   associations := removeRefOutliers fs
                     (removeMeasOutliers ms (associations (solveAndOffset env loc x)))\<rparr>) =
             (st4, grad2, chol1)"
    and cf: "\<not> cholSuccess env chol1"
  shows "minimize_body env nSigmaCut False loc x =
           Stop Failed (st4\<lparr>logged := logged st4 @ [ErrorFactorizationFailed]\<rparr>)"
proof -
  define st1 where "st1 = solveAndOffset env loc x"
  obtain ot g1 where oc: "outliersContributions env (st1\<lparr>logged := logged st1 @ w\<rparr>) ms fs
         (newTripletList env nOut, zeroVector env (nParTot st1)) = (ot, g1)"
    by (metis surj_pair)
  from nc ns fo no rb cf oc show ?thesis
    unfolding st1_def [symmetric]
    by (simp add: minimize_body_def Let_def st1_def [symmetric])
qed

text \<open>
  C8. When the first factorization fails, \<open>minimize\<close> returns \<open>Failed\<close> with the fitter as
  \<open>assignIndices\<close> and the triplet filling left it: \<open>offsetParams\<close> has not run. When, in a
  turn of the loop that the call reaches, outliers are found and the factorization recomputed
  on the rebuild path fails, \<open>minimize\<close> returns \<open>Failed\<close> with the parameters as the
  \<open>offsetParams\<close> of that same turn left them: no further update is made.
\<close>

theorem minimize_factorization_failed:
  fixes env :: "('p, 't, 'g, 'h, 'c) Collaborators"
  shows
  "(minimize_prepare env whatToFit st = (st2, grad0, chol0) \<and> \<not> cholSuccess env chol0 \<longrightarrow>
      minimize env whatToFit nSigmaCut doRankUpdate st =
        Some (Inr (Failed, st2\<lparr>logged := logged st2 @ [ErrorFactorizationFailed]\<rparr>)) \<and>
      fitterState st2 = fitterState (assignIndices env whatToFit st)) \<and>
   (minimize_prepare env whatToFit st = (st2, grad0, chol0) \<and> cholSuccess env chol0 \<and>
    (minimize_turn env nSigmaCut False)\<^sup>*\<^sup>* (minimize_start env st2 grad0 chol0, st2) (loc, x) \<and>
    \<not> (stat_chi2 (computeChi2 env (solveAndOffset env loc x)) > oldChi2 loc \<and>
       totalMeasOutliers loc + totalRefOutliers loc \<noteq> 0) \<and>
    nSigmaCut \<noteq> 0 \<and>
    findOutliers env (solveAndOffset env loc x) nSigmaCut [] [] = Inr (nOut, ms, fs, w) \<and>
    nOut \<noteq> 0 \<and>
    rebuildFactorization env (chol loc)
      ((solveAndOffset env loc x)
         \<lparr>logged := logged (solveAndOffset env loc x) @ w,
          associations := removeRefOutliers fs
            (removeMeasOutliers ms (associations (solveAndOffset env loc x)))\<rparr>) =
      (st4, grad2, chol1) \<and>
    \<not> cholSuccess env chol1 \<longrightarrow>
      minimize env whatToFit nSigmaCut False st =
        Some (Inr (Failed, st4\<lparr>logged := logged st4 @ [ErrorFactorizationFailed]\<rparr>)) \<and>
      fitterState st4 = fitterState (solveAndOffset env loc x))"
proof (intro conjI impI)
  assume a: "minimize_prepare env whatToFit st = (st2, grad0, chol0) \<and> \<not> cholSuccess env chol0"
  then show "minimize env whatToFit nSigmaCut doRankUpdate st =
        Some (Inr (Failed, st2\<lparr>logged := logged st2 @ [ErrorFactorizationFailed]\<rparr>))"
    by (simp add: minimize_def)
  from a have "minimize_prepare env whatToFit st = (st2, grad0, chol0)" by blast
  then show "fitterState st2 = fitterState (assignIndices env whatToFit st)"
    by (rule minimize_prepare_frame(1))
next
  assume a: "minimize_prepare env whatToFit st = (st2, grad0, chol0) \<and> cholSuccess env chol0 \<and>
    (minimize_turn env nSigmaCut False)\<^sup>*\<^sup>* (minimize_start env st2 grad0 chol0, st2) (loc, x) \<and>
    \<not> (stat_chi2 (computeChi2 env (solveAndOffset env loc x)) > oldChi2 loc \<and>
       totalMeasOutliers loc + totalRefOutliers loc \<noteq> 0) \<and>
    nSigmaCut \<noteq> 0 \<and>
    findOutliers env (solveAndOffset env loc x) nSigmaCut [] [] = Inr (nOut, ms, fs, w) \<and>
    nOut \<noteq> 0 \<and>
    rebuildFactorization env (chol loc)
      ((solveAndOffset env loc x)
         \<lparr>logged := logged (solveAndOffset env loc x) @ w,
          associations := removeRefOutliers fs
            (removeMeasOutliers ms (associations (solveAndOffset env loc x)))\<rparr>) =
      (st4, grad2, chol1) \<and>
    \<not> cholSuccess env chol1"
  then have body: "minimize_body env nSigmaCut False loc x =
           Stop Failed (st4\<lparr>logged := logged st4 @ [ErrorFactorizationFailed]\<rparr>)"
    by (intro minimize_body_rebuild_failed) blast+
  from a have "minimize env whatToFit nSigmaCut False st =
      minimize_loop env nSigmaCut False (minimize_start env st2 grad0 chol0) st2"
    by (simp add: minimize_def)
  also from a have "\<dots> = minimize_loop env nSigmaCut False loc x"
    using minimize_loop_reach [of env nSigmaCut False "(minimize_start env st2 grad0 chol0, st2)" "(loc, x)"]
    by simp
  also from body have "\<dots> = Some (Inr (Failed, st4\<lparr>logged := logged st4 @ [ErrorFactorizationFailed]\<rparr>))"
    by (subst minimize_loop.simps) simp
  finally show "minimize env whatToFit nSigmaCut False st =
        Some (Inr (Failed, st4\<lparr>logged := logged st4 @ [ErrorFactorizationFailed]\<rparr>))" .
  from a have "rebuildFactorization env (chol loc)
      ((solveAndOffset env loc x)
         \<lparr>logged := logged (solveAndOffset env loc x) @ w,
          associations := removeRefOutliers fs
            (removeMeasOutliers ms (associations (solveAndOffset env loc x)))\<rparr>) =
      (st4, grad2, chol1)" by blast
  from rebuildFactorization_frame(1) [OF this]
  show "fitterState st4 = fitterState (solveAndOffset env loc x)" by simp
qed

lemma store_outlier_nOutliers:
  assumes "store_outlier p idx s = Inr s'" "p \<noteq> OtherStarPtr"
    "nOutliers s = length (msOutliers s) + length (fsOutliers s)"
  shows "nOutliers s' = length (msOutliers s') + length (fsOutliers s')"
proof (cases "\<forall>i\<in>set idx. affectedParams s ! i = 0")
  case True
  with store_outlier_Inr [OF assms(1)] assms(2,3) show ?thesis
    by (cases p) simp_all
next
  case False
  with store_outlier_Inr [OF assms(1)] have "s' = s" by simp
  with assms(3) show ?thesis by simp
qed

lemma outlier_step_nOutliers:
  assumes "outlier_step env st c s = Inr s'"
    "nOutliers s = length (msOutliers s) + length (fsOutliers s)"
  shows "nOutliers s' = length (msOutliers s') + length (fsOutliers s')"
proof (cases "star c")
  case (MeasuredStarPtr m)
  show ?thesis
  proof (cases "measurementCount (fittedStars (associations st) (fittedStar (measuredStars (associations st) m))) = 1 \<and>
                refStar (fittedStars (associations st) (fittedStar (measuredStars (associations st) m))) = None")
    case True
    with assms MeasuredStarPtr show ?thesis
      by (auto simp: outlier_step_def Let_def)
  next
    case False
    with assms(1) MeasuredStarPtr
    have "store_outlier (MeasuredStarPtr m) (v_getIndicesOfMeasuredStar env st m) s = Inr s'"
      by (auto simp: outlier_step_def Let_def)
    from store_outlier_nOutliers [OF this _ assms(2)] show ?thesis by simp
  qed
next
  case (FittedStarPtr f)
  show ?thesis
  proof (cases "measurementCount (fittedStars (associations st) f) = 0")
    case True
    with assms FittedStarPtr show ?thesis
      by (auto simp: outlier_step_def Let_def)
  next
    case False
    with assms(1) FittedStarPtr
    have "store_outlier (FittedStarPtr f) [indexInMatrix (fittedStars (associations st) f)] s = Inr s'"
      by (auto simp: outlier_step_def Let_def)
    from store_outlier_nOutliers [OF this _ assms(2)] show ?thesis by simp
  qed
next
  case OtherStarPtr
  with assms(1) show ?thesis by (simp add: outlier_step_def)
qed

lemma outlier_loop_nOutliers:
  "outlier_loop env st cutv cs s = Inr s' \<Longrightarrow>
   nOutliers s = length (msOutliers s) + length (fsOutliers s) \<Longrightarrow>
   nOutliers s' = length (msOutliers s') + length (fsOutliers s')"
proof (induction cs arbitrary: s)
  case Nil
  then show ?case by simp
next
  case (Cons c cs)
  show ?case
  proof (cases "chi2 c < cutv")
    case True
    with Cons.prems show ?thesis by simp
  next
    case False
    with Cons.prems(1) obtain s1 where s1: "outlier_step env st c s = Inr s1"
      "outlier_loop env st cutv cs s1 = Inr s'"
      by (auto split: sum.splits)
    from Cons.IH [OF s1(2) outlier_step_nOutliers [OF s1(1) Cons.prems(2)]] show ?thesis .
  qed
qed

lemma findOutliers_count:
  assumes "findOutliers env st nSigmaCut [] [] = Inr (n, ms, fs, w)"
  shows "n = length ms + length fs"
proof -
  from findOutliers_Inr [OF assms] show ?thesis
  proof
    assume "collectChi2List env st = [] \<and> n = 0 \<and> ms = [] \<and> fs = [] \<and> w = []"
    then show ?thesis by simp
  next
    assume "collectChi2List env st \<noteq> [] \<and>
          (\<exists>s. outlier_loop env st (outlierCut nSigmaCut (collectChi2List env st))
                  (examined (collectChi2List env st)) (startScan (nParTot st) [] []) = Inr s \<and>
               n = nOutliers s \<and> ms = msOutliers s \<and> fs = fsOutliers s \<and> w = warnings s)"
    then obtain s where s: "outlier_loop env st (outlierCut nSigmaCut (collectChi2List env st))
                  (examined (collectChi2List env st)) (startScan (nParTot st) [] []) = Inr s"
      "n = nOutliers s" "ms = msOutliers s" "fs = fsOutliers s" by blast
    from outlier_loop_nOutliers [OF s(1)] s(2,3,4) show ?thesis
      by (simp add: startScan_def)
  qed
qed

text \<open>What a turn that goes on to the next one has done.\<close>

lemma minimize_turn_facts:
  fixes env :: "('p, 't, 'g, 'h, 'c) Collaborators"
  assumes "minimize_turn env nSigmaCut doRankUpdate z (loc, x)"
  shows "oldChi2 loc = stat_chi2 (computeChi2 env (solveAndOffset env (fst z) (snd z))) \<and>
         (\<exists>nOut ms fs w.
            findOutliers env (solveAndOffset env (fst z) (snd z)) nSigmaCut [] [] =
              Inr (nOut, ms, fs, w) \<and>
            nOut = length ms + length fs \<and> nOut \<noteq> 0 \<and>
            totalMeasOutliers loc = totalMeasOutliers (fst z) + length ms \<and>
            totalRefOutliers loc = totalRefOutliers (fst z) + length fs \<and>
            associations x = removeRefOutliers fs (removeMeasOutliers ms (associations (snd z))) \<and>
            fitterState x = fitterState (solveAndOffset env (fst z) (snd z)))"
proof -
  let ?st1 = "solveAndOffset env (fst z) (snd z)"
  from assms have body: "minimize_body env nSigmaCut doRankUpdate (fst z) (snd z) = Next loc x"
    by (simp add: minimize_turn_def)
  have a1: "associations ?st1 = associations (snd z)"
    by (simp add: solveAndOffset_frame)
  show ?thesis
  proof (cases rule: minimize_body_cases [where env = env and loc = "fst z" and st = "snd z" and nSigmaCut = nSigmaCut and doRankUpdate = doRankUpdate])
    case increased
    with body show ?thesis by simp
  next
    case noRejection
    with body show ?thesis by simp
  next
    case (aborted e)
    with body show ?thesis by simp
  next
    case (noOutliers ms fs w)
    with body show ?thesis by simp
  next
    case (rankUpdate nOut ms fs w loc1)
    with body have eq: "loc = loc1"
      "x = ?st1\<lparr>logged := logged ?st1 @ w,
              associations := removeRefOutliers fs (removeMeasOutliers ms (associations ?st1))\<rparr>"
      by simp_all
    from findOutliers_count [OF rankUpdate(3)] have n: "nOut = length ms + length fs" .
    have ax: "associations x = removeRefOutliers fs (removeMeasOutliers ms (associations (snd z)))"
      and fx: "fitterState x = fitterState ?st1"
      unfolding eq(2) by (simp_all add: a1)
    from rankUpdate(3,4,6,7,8) eq(1) n ax fx show ?thesis by blast
  next
    case (rebuildFailed nOut ms fs w st4 grad2 chol1)
    with body show ?thesis by simp
  next
    case (rebuilt nOut ms fs w st4 grad2 chol1 loc1)
    with body have eq: "loc = loc1" "x = st4" by simp_all
    from findOutliers_count [OF rebuilt(3)] have n: "nOut = length ms + length fs" .
    from rebuildFactorization_frame [OF rebuilt(6)]
    have ax: "associations x = removeRefOutliers fs (removeMeasOutliers ms (associations (snd z)))"
      and fx: "fitterState x = fitterState ?st1"
      unfolding eq(2) by (simp_all add: a1)
    from rebuilt(3,4,8,9,10) eq(1) n ax fx show ?thesis by blast
  qed
qed

lemma minimize_body_increased_iff:
  fixes env :: "('p, 't, 'g, 'h, 'c) Collaborators"
  shows "minimize_body env nSigmaCut doRankUpdate loc x = Stop Chi2Increased s' \<longleftrightarrow>
     stat_chi2 (computeChi2 env (solveAndOffset env loc x)) > oldChi2 loc \<and>
     totalMeasOutliers loc + totalRefOutliers loc \<noteq> 0 \<and>
     s' = (solveAndOffset env loc x)
            \<lparr>logged := logged (solveAndOffset env loc x) @ [WarnChi2WentUp]\<rparr>"
proof (cases rule: minimize_body_cases [where env = env and loc = loc and st = x and nSigmaCut = nSigmaCut and doRankUpdate = doRankUpdate])
  case increased
  then show ?thesis by auto
next
  case noRejection
  then show ?thesis by auto
next
  case (aborted e)
  then show ?thesis by auto
next
  case (noOutliers ms fs w)
  then show ?thesis by auto
next
  case (rankUpdate nOut ms fs w loc1)
  then show ?thesis by auto
next
  case (rebuildFailed nOut ms fs w st4 grad2 chol1)
  then show ?thesis by auto
next
  case (rebuilt nOut ms fs w st4 grad2 chol1 loc1)
  then show ?thesis by auto
qed

text \<open>
  C4. \<open>minimize\<close> returns \<open>Chi2Increased\<close> exactly when the first factorization succeeds
  and the loop reaches a turn in which, after \<open>offsetParams(chol.solve(grad))\<close>, the new chi2
  is greater than \<open>oldChi2\<close> and \<open>totalMeasOutliers + totalRefOutliers\<close> is not zero; the
  fitter returned is the one after that \<open>offsetParams\<close>, with the warning logged and nothing
  rolled back. At the head of a turn the total is not zero exactly when an earlier turn of the
  same call led to this one; and every turn that leads to another one has set \<open>oldChi2\<close> to
  its own chi2 and has found and removed at least one outlier.
\<close>

theorem minimize_Chi2Increased:
  fixes env :: "('p, 't, 'g, 'h, 'c) Collaborators"
  assumes prep: "minimize_prepare env whatToFit st = (st2, grad0, chol0)"
  shows
  "(minimize env whatToFit nSigmaCut doRankUpdate st = Some (Inr (Chi2Increased, s')) \<longleftrightarrow>
      cholSuccess env chol0 \<and>
      (\<exists>loc x.
         (minimize_turn env nSigmaCut doRankUpdate)\<^sup>*\<^sup>*
           (minimize_start env st2 grad0 chol0, st2) (loc, x) \<and>
         stat_chi2 (computeChi2 env (solveAndOffset env loc x)) > oldChi2 loc \<and>
         totalMeasOutliers loc + totalRefOutliers loc \<noteq> 0 \<and>
         s' = (solveAndOffset env loc x)
                \<lparr>logged := logged (solveAndOffset env loc x) @ [WarnChi2WentUp]\<rparr>)) \<and>
   (\<forall>loc x.
      (minimize_turn env nSigmaCut doRankUpdate)\<^sup>*\<^sup>*
        (minimize_start env st2 grad0 chol0, st2) (loc, x) \<longrightarrow>
      (totalMeasOutliers loc + totalRefOutliers loc \<noteq> 0 \<longleftrightarrow>
       (\<exists>z. (minimize_turn env nSigmaCut doRankUpdate)\<^sup>*\<^sup>*
               (minimize_start env st2 grad0 chol0, st2) z \<and>
            minimize_turn env nSigmaCut doRankUpdate z (loc, x)))) \<and>
   (\<forall>z loc x.
      minimize_turn env nSigmaCut doRankUpdate z (loc, x) \<longrightarrow>
      oldChi2 loc = stat_chi2 (computeChi2 env (solveAndOffset env (fst z) (snd z))) \<and>
      (\<exists>nOut ms fs w.
         findOutliers env (solveAndOffset env (fst z) (snd z)) nSigmaCut [] [] =
           Inr (nOut, ms, fs, w) \<and>
         nOut = length ms + length fs \<and> nOut \<noteq> 0 \<and>
         totalMeasOutliers loc = totalMeasOutliers (fst z) + length ms \<and>
         totalRefOutliers loc = totalRefOutliers (fst z) + length fs \<and>
         associations x = removeRefOutliers fs (removeMeasOutliers ms (associations (snd z))) \<and>
         fitterState x = fitterState (solveAndOffset env (fst z) (snd z))))"
proof (intro conjI allI impI)
  let ?start = "(minimize_start env st2 grad0 chol0, st2)"
  let ?R = "(minimize_turn env nSigmaCut doRankUpdate)\<^sup>*\<^sup>* ?start"
  let ?rhs = "cholSuccess env chol0 \<and>
      (\<exists>loc x. ?R (loc, x) \<and>
         stat_chi2 (computeChi2 env (solveAndOffset env loc x)) > oldChi2 loc \<and>
         totalMeasOutliers loc + totalRefOutliers loc \<noteq> 0 \<and>
         s' = (solveAndOffset env loc x)
                \<lparr>logged := logged (solveAndOffset env loc x) @ [WarnChi2WentUp]\<rparr>)"
  show "minimize env whatToFit nSigmaCut doRankUpdate st = Some (Inr (Chi2Increased, s')) \<longleftrightarrow> ?rhs"
  proof
    assume m: "minimize env whatToFit nSigmaCut doRankUpdate st = Some (Inr (Chi2Increased, s'))"
    have ok: "cholSuccess env chol0"
    proof (rule ccontr)
      assume "\<not> cholSuccess env chol0"
      with prep m show False by (simp add: minimize_def)
    qed
    with prep m have "minimize_loop env nSigmaCut doRankUpdate (minimize_start env st2 grad0 chol0) st2 =
        Some (Inr (Chi2Increased, s'))"
      by (simp add: minimize_def)
    from minimize_loop_result [OF this] have "\<exists>y. ?R y \<and>
      (case minimize_body env nSigmaCut doRankUpdate (fst y) (snd y) of
              Stop r s \<Rightarrow> (Inr (Chi2Increased, s') :: error + MinimizeResult \<times> 'p FitterBase) = Inr (r, s)
            | Abort e \<Rightarrow> Inr (Chi2Increased, s') = Inl e
            | Next l s \<Rightarrow> False)" .
    then obtain y where yy: "?R y \<and>
      (case minimize_body env nSigmaCut doRankUpdate (fst y) (snd y) of
              Stop r s \<Rightarrow> (Inr (Chi2Increased, s') :: error + MinimizeResult \<times> 'p FitterBase) = Inr (r, s)
            | Abort e \<Rightarrow> Inr (Chi2Increased, s') = Inl e
            | Next l s \<Rightarrow> False)" ..
    from yy have y1: "?R y" by (rule conjunct1)
    from yy have y2: "case minimize_body env nSigmaCut doRankUpdate (fst y) (snd y) of
              Stop r s \<Rightarrow> (Inr (Chi2Increased, s') :: error + MinimizeResult \<times> 'p FitterBase) = Inr (r, s)
            | Abort e \<Rightarrow> Inr (Chi2Increased, s') = Inl e
            | Next l s \<Rightarrow> False" by (rule conjunct2)
    from y2 have "minimize_body env nSigmaCut doRankUpdate (fst y) (snd y) = Stop Chi2Increased s'"
      by (cases "minimize_body env nSigmaCut doRankUpdate (fst y) (snd y)") simp_all
    then have "stat_chi2 (computeChi2 env (solveAndOffset env (fst y) (snd y))) > oldChi2 (fst y) \<and>
         totalMeasOutliers (fst y) + totalRefOutliers (fst y) \<noteq> 0 \<and>
         s' = (solveAndOffset env (fst y) (snd y))
                \<lparr>logged := logged (solveAndOffset env (fst y) (snd y)) @ [WarnChi2WentUp]\<rparr>"
      unfolding minimize_body_increased_iff .
    with y1 have "\<exists>loc x. ?R (loc, x) \<and>
         stat_chi2 (computeChi2 env (solveAndOffset env loc x)) > oldChi2 loc \<and>
         totalMeasOutliers loc + totalRefOutliers loc \<noteq> 0 \<and>
         s' = (solveAndOffset env loc x)
                \<lparr>logged := logged (solveAndOffset env loc x) @ [WarnChi2WentUp]\<rparr>"
      by (intro exI [of _ "fst y"] exI [of _ "snd y"]) simp
    with ok show ?rhs by (rule conjI)
  next
    assume r: ?rhs
    then have "\<exists>loc x. ?R (loc, x) \<and>
         stat_chi2 (computeChi2 env (solveAndOffset env loc x)) > oldChi2 loc \<and>
         totalMeasOutliers loc + totalRefOutliers loc \<noteq> 0 \<and>
         s' = (solveAndOffset env loc x)
                \<lparr>logged := logged (solveAndOffset env loc x) @ [WarnChi2WentUp]\<rparr>"
      by (rule conjunct2)
    then obtain loc x where lxx: "?R (loc, x) \<and>
         stat_chi2 (computeChi2 env (solveAndOffset env loc x)) > oldChi2 loc \<and>
         totalMeasOutliers loc + totalRefOutliers loc \<noteq> 0 \<and>
         s' = (solveAndOffset env loc x)
                \<lparr>logged := logged (solveAndOffset env loc x) @ [WarnChi2WentUp]\<rparr>"
      by (elim exE)
    from lxx have lx1: "?R (loc, x)" by (rule conjunct1)
    from lxx have lx2: "stat_chi2 (computeChi2 env (solveAndOffset env loc x)) > oldChi2 loc \<and>
         totalMeasOutliers loc + totalRefOutliers loc \<noteq> 0 \<and>
         s' = (solveAndOffset env loc x)
                \<lparr>logged := logged (solveAndOffset env loc x) @ [WarnChi2WentUp]\<rparr>"
      by (rule conjunct2)
    from lx2 have body: "minimize_body env nSigmaCut doRankUpdate loc x = Stop Chi2Increased s'"
      unfolding minimize_body_increased_iff .
    from r prep have "minimize env whatToFit nSigmaCut doRankUpdate st =
        minimize_loop env nSigmaCut doRankUpdate (minimize_start env st2 grad0 chol0) st2"
      by (simp add: minimize_def)
    also from minimize_loop_reach [OF lx1]
    have "\<dots> = minimize_loop env nSigmaCut doRankUpdate loc x" by simp
    also from body have "\<dots> = Some (Inr (Chi2Increased, s'))"
      by (subst minimize_loop.simps) simp
    finally show "minimize env whatToFit nSigmaCut doRankUpdate st = Some (Inr (Chi2Increased, s'))" .
  qed
next
  fix loc x
  let ?start = "(minimize_start env st2 grad0 chol0, st2)"
  let ?R = "(minimize_turn env nSigmaCut doRankUpdate)\<^sup>*\<^sup>* ?start"
  assume R: "?R (loc, x)"
  show "totalMeasOutliers loc + totalRefOutliers loc \<noteq> 0 \<longleftrightarrow>
       (\<exists>z. ?R z \<and> minimize_turn env nSigmaCut doRankUpdate z (loc, x))"
  proof
    assume nz: "totalMeasOutliers loc + totalRefOutliers loc \<noteq> 0"
    from R show "\<exists>z. ?R z \<and> minimize_turn env nSigmaCut doRankUpdate z (loc, x)"
    proof (cases rule: rtranclp.cases)
      case rtrancl_refl
      then have "loc = minimize_start env st2 grad0 chol0" by simp
      with nz show ?thesis by (simp add: minimize_start_def)
    next
      case (rtrancl_into_rtrancl b)
      then show ?thesis by (intro exI [of _ b] conjI)
    qed
  next
    assume "\<exists>z. ?R z \<and> minimize_turn env nSigmaCut doRankUpdate z (loc, x)"
    then obtain z where "?R z \<and> minimize_turn env nSigmaCut doRankUpdate z (loc, x)" ..
    then have "minimize_turn env nSigmaCut doRankUpdate z (loc, x)" by (rule conjunct2)
    from minimize_turn_facts [OF this]
    show "totalMeasOutliers loc + totalRefOutliers loc \<noteq> 0" by auto
  qed
next
  fix z :: "('g, 'c) MinimizeLocals \<times> 'p FitterBase" and loc x
  assume "minimize_turn env nSigmaCut doRankUpdate z (loc, x)"
  from minimize_turn_facts [OF this]
  show "oldChi2 loc = stat_chi2 (computeChi2 env (solveAndOffset env (fst z) (snd z)))"
    by (rule conjunct1)
next
  fix z :: "('g, 'c) MinimizeLocals \<times> 'p FitterBase" and loc x
  assume "minimize_turn env nSigmaCut doRankUpdate z (loc, x)"
  from minimize_turn_facts [OF this]
  show "\<exists>nOut ms fs w.
         findOutliers env (solveAndOffset env (fst z) (snd z)) nSigmaCut [] [] =
           Inr (nOut, ms, fs, w) \<and>
         nOut = length ms + length fs \<and> nOut \<noteq> 0 \<and>
         totalMeasOutliers loc = totalMeasOutliers (fst z) + length ms \<and>
         totalRefOutliers loc = totalRefOutliers (fst z) + length fs \<and>
         associations x = removeRefOutliers fs (removeMeasOutliers ms (associations (snd z))) \<and>
         fitterState x = fitterState (solveAndOffset env (fst z) (snd z))"
    by (rule conjunct2)
qed


























section \<open>Results: minimize on the small fitter\<close>

lemma demo_prepare:
  "minimize_prepare (demo_env demo_chi (\<lambda>k f. 0) demo_indices need) ''Model'' (demo_fitter False) =
     ((demo_fitter False)\<lparr>lastNTrip := 4\<rparr>, (), 4)"
  by (simp add: minimize_prepare_def assignIndices_def leastSquareDerivatives_def createHessian_def
      demo_env_def demo_fitter_def demo_associations_def Let_def)

lemma demo_start:
  "minimize_start (demo_env demo_chi (\<lambda>k f. 0) demo_indices need)
     ((demo_fitter False)\<lparr>lastNTrip := 4\<rparr>) () 4 =
   \<lparr>chol = 4, grad = (), totalMeasOutliers = 0, totalRefOutliers = 0, oldChi2 = 8\<rparr>"
  by (simp add: minimize_start_def computeChi2_def accumulateChi2Statistic_def
      demo_env_def demo_fitter_def demo_associations_def demo_chi_def Let_def)

lemma demo_offset1:
  "solveAndOffset (demo_env demo_chi (\<lambda>k f. 0) demo_indices need)
     \<lparr>chol = 4, grad = (), totalMeasOutliers = 0, totalRefOutliers = 0, oldChi2 = 8\<rparr>
     ((demo_fitter False)\<lparr>lastNTrip := 4\<rparr>) =
   (demo_fitter False)\<lparr>lastNTrip := 4, fitterState := 1\<rparr>"
  by (simp add: solveAndOffset_def demo_env_def demo_fitter_def)

lemma demo_chi2_1:
  "stat_chi2 (computeChi2 (demo_env demo_chi (\<lambda>k f. 0) demo_indices need)
     ((demo_fitter False)\<lparr>lastNTrip := 4, fitterState := 1\<rparr>)) = 4"
  by (simp add: computeChi2_def accumulateChi2Statistic_def
      demo_env_def demo_fitter_def demo_associations_def demo_chi_def Let_def)

lemma demo3_collect:
  "collectChi2List (demo_env demo_chi (\<lambda>k f. 0) demo_indices need)
     ((demo_fitter False)\<lparr>lastNTrip := 4, fitterState := 1\<rparr>) =
     [\<lparr>chi2 = 0, star = MeasuredStarPtr 0\<rparr>, \<lparr>chi2 = 4, star = MeasuredStarPtr 1\<rparr>,
      \<lparr>chi2 = 0, star = MeasuredStarPtr 2\<rparr>, \<lparr>chi2 = 0, star = MeasuredStarPtr 3\<rparr>]"
  by (simp add: demo_env_def demo_fitter_def demo_associations_def demo_indices_def
      collectChi2List_def accumulateChi2List_def demo_chi_def)

lemma demo3_findOutliers:
  "findOutliers (demo_env demo_chi (\<lambda>k f. 0) demo_indices need)
     ((demo_fitter False)\<lparr>lastNTrip := 4, fitterState := 1\<rparr>) 1 [] [] = Inr (1, [1], [], [])"
  unfolding findOutliers_def demo3_collect Let_def demo2_cut demo2_examined
  by (simp add: demo_env_def demo_fitter_def demo_associations_def demo_indices_def
      startScan_def outlier_step_def store_outlier_def)

lemma demo_turn1:
  "minimize_body (demo_env demo_chi (\<lambda>k f. 0) demo_indices 1) 1 True
     \<lparr>chol = 4, grad = (), totalMeasOutliers = 0, totalRefOutliers = 0, oldChi2 = 8\<rparr>
     ((demo_fitter False)\<lparr>lastNTrip := 4\<rparr>) =
   Next \<lparr>chol = 3, grad = (), totalMeasOutliers = 1, totalRefOutliers = 0, oldChi2 = 4\<rparr>
     ((demo_fitter False)\<lparr>lastNTrip := 4, fitterState := 1, associations := demo_removed\<rparr>)"
  unfolding minimize_body_def demo_offset1 Let_def demo_chi2_1 demo3_findOutliers
  by (simp add: outliersContributions_def demo_env_def demo_fitter_def demo_removed_def Let_def)

lemma demo_offset2:
  "solveAndOffset (demo_env demo_chi (\<lambda>k f. 0) demo_indices need)
     \<lparr>chol = 3, grad = (), totalMeasOutliers = 1, totalRefOutliers = 0, oldChi2 = 4\<rparr>
     ((demo_fitter False)\<lparr>lastNTrip := 4, fitterState := 1, associations := demo_removed\<rparr>) =
   (demo_fitter False)\<lparr>lastNTrip := 4, fitterState := 2, associations := demo_removed\<rparr>"
  by (simp add: solveAndOffset_def demo_env_def demo_fitter_def)

lemma demo_chi2_2:
  "stat_chi2 (computeChi2 (demo_env demo_chi (\<lambda>k f. 0) demo_indices need)
     ((demo_fitter False)\<lparr>lastNTrip := 4, fitterState := 2, associations := demo_removed\<rparr>)) = 6"
  by (simp add: computeChi2_def accumulateChi2Statistic_def demo_removed_def
      demo_env_def demo_fitter_def demo_associations_def demo_chi_def Let_def)

lemma demo_turn2:
  "minimize_body (demo_env demo_chi (\<lambda>k f. 0) demo_indices 1) 1 True
     \<lparr>chol = 3, grad = (), totalMeasOutliers = 1, totalRefOutliers = 0, oldChi2 = 4\<rparr>
     ((demo_fitter False)\<lparr>lastNTrip := 4, fitterState := 1, associations := demo_removed\<rparr>) =
   Stop Chi2Increased
     ((demo_fitter False)\<lparr>lastNTrip := 4, fitterState := 2, associations := demo_removed,
        logged := [WarnChi2WentUp]\<rparr>)"
  unfolding minimize_body_def demo_offset2 Let_def demo_chi2_2
  by (simp add: demo_fitter_def)

lemma demo_minimize:
  "minimize (demo_env demo_chi (\<lambda>k f. 0) demo_indices 1) ''Model'' 1 True (demo_fitter False) =
   Some (Inr (Chi2Increased,
     (demo_fitter False)\<lparr>lastNTrip := 4, fitterState := 2, associations := demo_removed,
        logged := [WarnChi2WentUp]\<rparr>))"
proof -
  let ?E = "demo_env demo_chi (\<lambda>k f. 0) demo_indices 1"
  have ok: "cholSuccess ?E 4" by (simp add: demo_env_def)
  have l2: "minimize_loop ?E 1 True
      \<lparr>chol = 3, grad = (), totalMeasOutliers = 1, totalRefOutliers = 0, oldChi2 = 4\<rparr>
      ((demo_fitter False)\<lparr>lastNTrip := 4, fitterState := 1, associations := demo_removed\<rparr>) =
    Some (Inr (Chi2Increased,
      (demo_fitter False)\<lparr>lastNTrip := 4, fitterState := 2, associations := demo_removed,
        logged := [WarnChi2WentUp]\<rparr>))"
    by (subst minimize_loop.simps) (simp only: demo_turn2 Turn.case)
  have l1: "minimize_loop ?E 1 True
      \<lparr>chol = 4, grad = (), totalMeasOutliers = 0, totalRefOutliers = 0, oldChi2 = 8\<rparr>
      ((demo_fitter False)\<lparr>lastNTrip := 4\<rparr>) =
    Some (Inr (Chi2Increased,
      (demo_fitter False)\<lparr>lastNTrip := 4, fitterState := 2, associations := demo_removed,
        logged := [WarnChi2WentUp]\<rparr>))"
    by (subst minimize_loop.simps) (simp only: demo_turn1 Turn.case l2)
  show ?thesis
    unfolding minimize_def demo_prepare prod.case demo_start
    using ok l1 by (simp only: not_True_eq_False if_False)
qed






theorem minimize_Chi2Increased_witness:
  "minimize_prepare (demo_env demo_chi (\<lambda>k f. 0) demo_indices 1) ''Model'' (demo_fitter False) =
     ((demo_fitter False)\<lparr>lastNTrip := 4\<rparr>, (), 4) \<and>
   minimize (demo_env demo_chi (\<lambda>k f. 0) demo_indices 1) ''Model'' 1 True (demo_fitter False) =
     Some (Inr (Chi2Increased,
       (demo_fitter False)\<lparr>lastNTrip := 4, fitterState := 2, associations := demo_removed,
          logged := [WarnChi2WentUp]\<rparr>)) \<and>
   cholSuccess (demo_env demo_chi (\<lambda>k f. 0) demo_indices 1) 4 \<and>
   (\<exists>loc x.
      (minimize_turn (demo_env demo_chi (\<lambda>k f. 0) demo_indices 1) 1 True)\<^sup>*\<^sup>*
        (minimize_start (demo_env demo_chi (\<lambda>k f. 0) demo_indices 1)
           ((demo_fitter False)\<lparr>lastNTrip := 4\<rparr>) () 4,
         (demo_fitter False)\<lparr>lastNTrip := 4\<rparr>) (loc, x) \<and>
      stat_chi2 (computeChi2 (demo_env demo_chi (\<lambda>k f. 0) demo_indices 1)
                   (solveAndOffset (demo_env demo_chi (\<lambda>k f. 0) demo_indices 1) loc x)) > oldChi2 loc \<and>
      totalMeasOutliers loc + totalRefOutliers loc \<noteq> 0)"
proof -
  let ?E = "demo_env demo_chi (\<lambda>k f. 0) demo_indices 1"
  let ?F = "(demo_fitter False)\<lparr>lastNTrip := 4, fitterState := 2, associations := demo_removed,
          logged := [WarnChi2WentUp]\<rparr>"
  from minimize_Chi2Increased [OF demo_prepare, of 1 1 True ?F]
  have "minimize ?E ''Model'' 1 True (demo_fitter False) = Some (Inr (Chi2Increased, ?F)) \<longleftrightarrow>
      cholSuccess ?E 4 \<and>
      (\<exists>loc x.
         (minimize_turn ?E 1 True)\<^sup>*\<^sup>*
           (minimize_start ?E ((demo_fitter False)\<lparr>lastNTrip := 4\<rparr>) () 4,
            (demo_fitter False)\<lparr>lastNTrip := 4\<rparr>) (loc, x) \<and>
         stat_chi2 (computeChi2 ?E (solveAndOffset ?E loc x)) > oldChi2 loc \<and>
         totalMeasOutliers loc + totalRefOutliers loc \<noteq> 0 \<and>
         ?F = (solveAndOffset ?E loc x)
                \<lparr>logged := logged (solveAndOffset ?E loc x) @ [WarnChi2WentUp]\<rparr>)"
    by (rule conjunct1)
  with demo_minimize have "cholSuccess ?E 4 \<and>
      (\<exists>loc x.
         (minimize_turn ?E 1 True)\<^sup>*\<^sup>*
           (minimize_start ?E ((demo_fitter False)\<lparr>lastNTrip := 4\<rparr>) () 4,
            (demo_fitter False)\<lparr>lastNTrip := 4\<rparr>) (loc, x) \<and>
         stat_chi2 (computeChi2 ?E (solveAndOffset ?E loc x)) > oldChi2 loc \<and>
         totalMeasOutliers loc + totalRefOutliers loc \<noteq> 0 \<and>
         ?F = (solveAndOffset ?E loc x)
                \<lparr>logged := logged (solveAndOffset ?E loc x) @ [WarnChi2WentUp]\<rparr>)"
    by (rule iffD1 [rotated])
  then have "cholSuccess ?E 4 \<and>
      (\<exists>loc x.
         (minimize_turn ?E 1 True)\<^sup>*\<^sup>*
           (minimize_start ?E ((demo_fitter False)\<lparr>lastNTrip := 4\<rparr>) () 4,
            (demo_fitter False)\<lparr>lastNTrip := 4\<rparr>) (loc, x) \<and>
         stat_chi2 (computeChi2 ?E (solveAndOffset ?E loc x)) > oldChi2 loc \<and>
         totalMeasOutliers loc + totalRefOutliers loc \<noteq> 0)"
    by (elim conjE exE) (intro conjI exI, assumption+)
  with demo_prepare [of 1] demo_minimize show ?thesis
    by (intro conjI) (assumption | erule conjunct1 | erule conjunct2)+
qed


lemma demo_rebuild:
  "rebuildFactorization (demo_env demo_chi (\<lambda>k f. 0) demo_indices need) 4
     ((demo_fitter False)\<lparr>lastNTrip := 4, fitterState := 1,
        logged := logged ((demo_fitter False)\<lparr>lastNTrip := 4, fitterState := 1\<rparr>) @ [],
        associations := removeRefOutliers []
          (removeMeasOutliers [1]
             (associations ((demo_fitter False)\<lparr>lastNTrip := 4, fitterState := 1\<rparr>)))\<rparr>) =
   ((demo_fitter False)\<lparr>lastNTrip := 3, fitterState := 1, associations := demo_removed\<rparr>, (), 3)"
  by (simp add: rebuildFactorization_def leastSquareDerivatives_def createHessian_def
      demo_env_def demo_fitter_def demo_associations_def demo_removed_def Let_def)

theorem minimize_factorization_failed_witness:
  "minimize (demo_env demo_chi (\<lambda>k f. 0) demo_indices 5) ''Model'' 1 True (demo_fitter False) =
     Some (Inr (Failed, (demo_fitter False)\<lparr>lastNTrip := 4, logged := [ErrorFactorizationFailed]\<rparr>)) \<and>
   minimize (demo_env demo_chi (\<lambda>k f. 0) demo_indices 4) ''Model'' 1 False (demo_fitter False) =
     Some (Inr (Failed,
       (demo_fitter False)\<lparr>lastNTrip := 3, fitterState := 1, associations := demo_removed,
          logged := [ErrorFactorizationFailed]\<rparr>))"
proof
  let ?E = "demo_env demo_chi (\<lambda>k f. 0) demo_indices 5"
  let ?S2 = "(demo_fitter False)\<lparr>lastNTrip := 4\<rparr>"
  have "\<not> cholSuccess ?E 4" by (simp add: demo_env_def)
  with demo_prepare [of 5]
  have "minimize_prepare ?E ''Model'' (demo_fitter False) = (?S2, (), 4) \<and> \<not> cholSuccess ?E 4"
    by (rule conjI)
  with minimize_factorization_failed [of ?E "''Model''" "demo_fitter False" ?S2 "()" 4 1 True]
  have "minimize ?E ''Model'' 1 True (demo_fitter False) =
        Some (Inr (Failed, ?S2\<lparr>logged := logged ?S2 @ [ErrorFactorizationFailed]\<rparr>))"
    by blast
  then show "minimize ?E ''Model'' 1 True (demo_fitter False) =
     Some (Inr (Failed, (demo_fitter False)\<lparr>lastNTrip := 4, logged := [ErrorFactorizationFailed]\<rparr>))"
    by (simp add: demo_fitter_def)
next
  let ?E = "demo_env demo_chi (\<lambda>k f. 0) demo_indices 4"
  let ?S2 = "(demo_fitter False)\<lparr>lastNTrip := 4\<rparr>"
  let ?loc = "minimize_start ?E ?S2 () 4"
  let ?st1 = "solveAndOffset ?E ?loc ?S2"
  let ?S4 = "(demo_fitter False)\<lparr>lastNTrip := 3, fitterState := 1, associations := demo_removed\<rparr>"
  have st1: "?st1 = (demo_fitter False)\<lparr>lastNTrip := 4, fitterState := 1\<rparr>"
    unfolding demo_start by (rule demo_offset1)
  have h1: "minimize_prepare ?E ''Model'' (demo_fitter False) = (?S2, (), 4)"
    by (rule demo_prepare)
  have h2: "cholSuccess ?E 4" by (simp add: demo_env_def)
  have h3: "(minimize_turn ?E 1 False)\<^sup>*\<^sup>* (?loc, ?S2) (?loc, ?S2)" by (rule rtranclp.rtrancl_refl)
  have h4: "\<not> (stat_chi2 (computeChi2 ?E ?st1) > oldChi2 ?loc \<and>
              totalMeasOutliers ?loc + totalRefOutliers ?loc \<noteq> 0)"
    unfolding st1 demo_chi2_1 unfolding demo_start by simp
  have h5: "(1::real) \<noteq> 0" by simp
  have h6: "findOutliers ?E ?st1 1 [] [] = Inr (1, [1], [], [])"
    unfolding st1 by (rule demo3_findOutliers)
  have h7: "(1::nat) \<noteq> 0" by simp
  have h8: "rebuildFactorization ?E (chol ?loc)
      (?st1\<lparr>logged := logged ?st1 @ [],
            associations := removeRefOutliers []
              (removeMeasOutliers [1] (associations ?st1))\<rparr>) = (?S4, (), 3)"
    unfolding st1 unfolding demo_start using demo_rebuild [of 4] by simp
  have h9: "\<not> cholSuccess ?E 3" by (simp add: demo_env_def)
  from minimize_factorization_failed
         [of ?E "''Model''" "demo_fitter False" ?S2 "()" 4 1 True ?loc ?S2 1 "[1]" "[]" "[]" ?S4 "()" 3]
       h1 h2 h3 h4 h5 h6 h7 h8 h9
  have "minimize ?E ''Model'' 1 False (demo_fitter False) =
        Some (Inr (Failed, ?S4\<lparr>logged := logged ?S4 @ [ErrorFactorizationFailed]\<rparr>))"
    by blast
  then show "minimize ?E ''Model'' 1 False (demo_fitter False) =
     Some (Inr (Failed,
       (demo_fitter False)\<lparr>lastNTrip := 3, fitterState := 1, associations := demo_removed,
          logged := [ErrorFactorizationFailed]\<rparr>))"
    by (simp add: demo_fitter_def)
qed

section \<open>Results: FastFinder\<close>

lemma wf_finder_index_le:
  assumes "wf_finder F" "s \<le> nslice F"
  shows "index F ! s \<le> count F"
proof -
  have "\<And>k. k \<le> nslice F - s \<Longrightarrow> index F ! (nslice F - k) \<le> count F"
  proof -
    fix k show "k \<le> nslice F - s \<Longrightarrow> index F ! (nslice F - k) \<le> count F"
    proof (induction k)
      case 0
      with assms(1) show ?case by (simp add: wf_finder_def)
    next
      case (Suc k)
      then have k: "k \<le> nslice F - s" and lt: "nslice F - Suc k < nslice F" by auto
      from assms(1) lt have "index F ! (nslice F - Suc k) \<le> index F ! (nslice F - Suc k + 1)"
        unfolding wf_finder_def by blast
      moreover from Suc.prems have "nslice F - Suc k + 1 = nslice F - k" by auto
      ultimately show ?case using Suc.IH [OF k] by simp
    qed
  qed
  from this [of "nslice F - s"] assms(2) show ?thesis by simp
qed

text \<open>The positions the two searches return stay inside the range they are given.\<close>

lemma locate_y_start_loop_bounds:
  "0 \<le> spn \<Longrightarrow> Begin \<le> locate_y_start_loop sts YVal Begin spn \<and>
     int (locate_y_start_loop sts YVal Begin spn) \<le> int Begin + spn"
proof (induction sts YVal Begin spn rule: locate_y_start_loop.induct)
  case (1 sts YVal Begin spn)
  show ?case
  proof (cases "spn > 1")
    case False
    with 1(3) show ?thesis by simp
  next
    case True
    let ?h = "spn div 2"
    from True have h: "1 \<le> ?h" "?h < spn" "0 \<le> spn - ?h" by auto
    show ?thesis
    proof (cases "py (sts ! (Begin + nat ?h)) < YVal")
      case lt: True
      from 1(1) [OF True refl refl lt] h
      have "Begin + nat ?h \<le> locate_y_start_loop sts YVal (Begin + nat ?h) (spn - ?h) \<and>
            int (locate_y_start_loop sts YVal (Begin + nat ?h) (spn - ?h)) \<le>
              int (Begin + nat ?h) + (spn - ?h)"
        by simp
      moreover have "locate_y_start_loop sts YVal Begin spn =
                     locate_y_start_loop sts YVal (Begin + nat ?h) (spn - ?h)"
        using True lt by (subst locate_y_start_loop.simps) (simp add: Let_def)
      ultimately show ?thesis using h by auto
    next
      case ge: False
      from 1(2) [OF True refl refl ge] h
      have "Begin \<le> locate_y_start_loop sts YVal Begin (spn - (spn - ?h)) \<and>
            int (locate_y_start_loop sts YVal Begin (spn - (spn - ?h))) \<le>
              int Begin + (spn - (spn - ?h))"
        by simp
      moreover have "locate_y_start_loop sts YVal Begin spn =
                     locate_y_start_loop sts YVal Begin (spn - (spn - ?h))"
        using True ge by (subst locate_y_start_loop.simps) (simp add: Let_def)
      ultimately show ?thesis using h by auto
    qed
  qed
qed

lemma locate_y_end_loop_bounds:
  "0 \<le> spn \<Longrightarrow> spn < int End \<Longrightarrow>
     int End - 1 - spn \<le> int (locate_y_end_loop sts YVal End spn) \<and>
     locate_y_end_loop sts YVal End spn < End"
proof (induction sts YVal End spn rule: locate_y_end_loop.induct)
  case (1 sts YVal End spn)
  show ?case
  proof (cases "spn > 1")
    case False
    with 1(3,4) show ?thesis by auto
  next
    case True
    let ?h = "spn div 2"
    from True have h: "1 \<le> ?h" "?h < spn" "0 \<le> spn - ?h" by auto
    show ?thesis
    proof (cases "py (sts ! (End - nat ?h)) > YVal")
      case gt: True
      have e: "int (End - nat ?h) = int End - ?h" using h 1(4) by auto
      from 1(1) [OF True refl refl gt] h 1(4) e
      have "int (End - nat ?h) - 1 - (spn - ?h) \<le>
              int (locate_y_end_loop sts YVal (End - nat ?h) (spn - ?h)) \<and>
            locate_y_end_loop sts YVal (End - nat ?h) (spn - ?h) < End - nat ?h"
        by simp
      moreover have "locate_y_end_loop sts YVal End spn =
                     locate_y_end_loop sts YVal (End - nat ?h) (spn - ?h)"
        using True gt by (subst locate_y_end_loop.simps) (simp add: Let_def)
      ultimately show ?thesis using h e by auto
    next
      case le: False
      from 1(2) [OF True refl refl le] h 1(4)
      have "int End - 1 - (spn - (spn - ?h)) \<le>
              int (locate_y_end_loop sts YVal End (spn - (spn - ?h))) \<and>
            locate_y_end_loop sts YVal End (spn - (spn - ?h)) < End"
        by simp
      moreover have "locate_y_end_loop sts YVal End spn =
                     locate_y_end_loop sts YVal End (spn - (spn - ?h))"
        using True le by (subst locate_y_end_loop.simps) (simp add: Let_def)
      ultimately show ?thesis using h by auto
    qed
  qed
qed

text \<open>What \<open>find_range_in_slice\<close> returns for a slice of a well-formed finder.\<close>

lemma find_range_in_slice_bounds:
  assumes wf: "wf_finder F" and s: "0 \<le> s" "s < int (nslice F)"
    and r: "find_range_in_slice F s YStart YEnd = (a, b)"
  shows "(index F ! nat s = index F ! (nat s + 1) \<and> a = count F \<and> b = count F) \<or>
         (index F ! nat s \<le> a \<and> a \<le> b \<and> b < index F ! (nat s + 1) \<and> b < count F)"
proof -
  let ?B = "index F ! nat s" and ?E = "index F ! (nat s + 1)"
  from s have ns: "nat s < nslice F" by simp
  with wf have BE: "?B \<le> ?E" unfolding wf_finder_def by blast
  from ns have "nat s + 1 \<le> nslice F" by simp
  from wf_finder_index_le [OF wf this] have Ec: "?E \<le> count F" .
  show ?thesis
  proof (cases "?B = ?E")
    case True
    then have 1: "locate_y_start F ?B ?E YStart = count F"
      by (simp add: locate_y_start_def)
    have 2: "locate_y_end F (count F) ?E YEnd = count F"
      by (simp add: locate_y_end_def)
    from r have "a = count F" "b = count F"
      unfolding find_range_in_slice_def Let_def 1 2 by simp_all
    with True show ?thesis by simp
  next
    case False
    with BE have lt: "?B < ?E" by simp
    with Ec have Bc: "?B \<noteq> count F" by simp
    define St where "St = locate_y_start_loop (stars F) YStart ?B (int ?E - int ?B - 1)"
    have St: "locate_y_start F ?B ?E YStart = St"
      using False Bc by (simp add: locate_y_start_def St_def)
    from lt have sp: "0 \<le> int ?E - int ?B - 1" by simp
    from locate_y_start_loop_bounds [OF sp, of ?B "stars F" YStart]
    have Sb: "?B \<le> St" "int St \<le> int ?B + (int ?E - int ?B - 1)"
      unfolding St_def by simp_all
    then have SE: "St < ?E" by simp
    with Ec have Sc: "St \<noteq> count F" by simp
    define En where "En = locate_y_end_loop (stars F) YEnd ?E (int ?E - int St - 1)"
    have En: "locate_y_end F St ?E YEnd = En"
      using Sc by (simp add: locate_y_end_def En_def)
    from SE have sp2: "0 \<le> int ?E - int St - 1" "int ?E - int St - 1 < int ?E" by simp_all
    from locate_y_end_loop_bounds [OF sp2, of "stars F" YEnd]
    have Eb: "int ?E - 1 - (int ?E - int St - 1) \<le> int En" "En < ?E"
      unfolding En_def by simp_all
    from r have "a = St" "b = En"
      unfolding find_range_in_slice_def Let_def St En by simp_all
    with Sb Eb Ec show ?thesis by auto
  qed
qed

lemma scan_exhausted: "current it = count F \<Longrightarrow> scan F it = Some []"
  by (subst scan.simps) simp

lemma scan_step:
  "current it \<noteq> count F \<Longrightarrow>
   scan F it = Option.bind (scan F (increment F it)) (\<lambda>r. Some (stars F ! current it # r))"
  by (subst scan.simps) simp

text \<open>Inside a range the iterator yields the stars up to \<open>pend\<close>, then moves to the next slice.\<close>

lemma scan_within:
  assumes "current it \<le> pend it" "pend it < count F"
  shows "scan F it =
         Option.bind (scan F (next_slice F (it\<lparr>current := pend it\<rparr>)))
           (\<lambda>r. Some (map (\<lambda>j. stars F ! j) [current it..<Suc (pend it)] @ r))"
  using assms
proof (induction "pend it - current it" arbitrary: it)
  case 0
  then have eq: "current it = pend it" by simp
  then have it: "it\<lparr>current := pend it\<rparr> = it" by simp
  from eq 0 have ne: "current it \<noteq> count F" by simp
  have inc: "increment F it = next_slice F it"
    using eq by (simp add: increment_def)
  have "[current it..<Suc (pend it)] = [current it]"
    using eq by simp
  then show ?case
    unfolding it scan_step [OF ne] inc by simp
next
  case (Suc n)
  then have lt: "current it < pend it" by simp
  with Suc.prems have ne: "current it \<noteq> count F" by simp
  let ?it = "it\<lparr>current := current it + 1\<rparr>"
  have inc: "increment F it = ?it"
    using lt by (simp add: increment_def)
  have n: "n = pend ?it - current ?it" using Suc(2) by simp
  have p1: "current ?it \<le> pend ?it" using lt by simp
  have p2: "pend ?it < count F" using Suc.prems by simp
  have upd: "?it\<lparr>current := pend ?it\<rparr> = it\<lparr>current := pend it\<rparr>" by simp
  have l: "[current it..<Suc (pend it)] = current it # [current it + 1..<Suc (pend it)]"
    using lt by (simp add: upt_conv_Cons)
  from Suc(1) [OF n p1 p2]
  have "scan F ?it =
         Option.bind (scan F (next_slice F (it\<lparr>current := pend it\<rparr>)))
           (\<lambda>r. Some (map (\<lambda>j. stars F ! j) [current it + 1..<Suc (pend it)] @ r))"
    unfolding upd by simp
  then show ?case
    unfolding scan_step [OF ne] inc l
    by (cases "scan F (next_slice F (it\<lparr>current := pend it\<rparr>))") simp_all
qed

lemma next_slice_end:
  "endSlice it \<le> currentSlice it + 1 \<Longrightarrow>
   next_slice F it = it\<lparr>currentSlice := currentSlice it + 1, current := count F\<rparr>"
  by (subst next_slice.simps) (simp add: Let_def)

lemma next_slice_more:
  assumes "currentSlice it + 1 < endSlice it"
    and "find_range_in_slice F (currentSlice it + 1) (yStart it) (yEnd it) = (c, p)"
  shows "next_slice F it =
           (if c = count F
            then next_slice F (it\<lparr>currentSlice := currentSlice it + 1, current := c, pend := p\<rparr>)
            else it\<lparr>currentSlice := currentSlice it + 1, current := c, pend := p\<rparr>)"
  using assms by (subst next_slice.simps) (simp add: Let_def)

lemma scan_next_slice:
  assumes wf: "wf_finder F"
  shows "- 1 \<le> currentSlice it \<Longrightarrow> endSlice it \<le> int (nslice F) \<Longrightarrow>
         scan F (next_slice F it) =
         Some (concat (map (slice_yield F (yStart it) (yEnd it))
                         [currentSlice it + 1 .. endSlice it - 1]))"
proof (induction "nat (endSlice it - currentSlice it)" arbitrary: it rule: less_induct)
  case less
  show ?case
  proof (cases "endSlice it \<le> currentSlice it + 1")
    case True
    then have "[currentSlice it + 1 .. endSlice it - 1] = []" by simp
    with True show ?thesis
      by (simp add: next_slice_end scan_exhausted)
  next
    case False
    then have more: "currentSlice it + 1 < endSlice it" by simp
    obtain c p where cp: "find_range_in_slice F (currentSlice it + 1) (yStart it) (yEnd it) = (c, p)"
      by (metis surj_pair)
    let ?it2 = "it\<lparr>currentSlice := currentSlice it + 1, current := c, pend := p\<rparr>"
    have s0: "0 \<le> currentSlice it + 1" using less.prems(1) by simp
    have s1: "currentSlice it + 1 < int (nslice F)" using more less.prems(2) by simp
    note bounds = find_range_in_slice_bounds [OF wf s0 s1 cp]
    have up: "[currentSlice it + 1 .. endSlice it - 1] =
              (currentSlice it + 1) # [currentSlice it + 1 + 1 .. endSlice it - 1]"
      using more by (simp add: upto_rec1)
    have IH: "\<And>it'. it' = ?it2 \<or> it' = ?it2\<lparr>current := p\<rparr> \<Longrightarrow>
       scan F (next_slice F it') =
         Some (concat (map (slice_yield F (yStart it) (yEnd it))
                         [currentSlice it + 1 + 1 .. endSlice it - 1]))"
    proof -
      fix it' assume a: "it' = ?it2 \<or> it' = ?it2\<lparr>current := p\<rparr>"
      then have f: "currentSlice it' = currentSlice it + 1" "endSlice it' = endSlice it"
        "yStart it' = yStart it" "yEnd it' = yEnd it" by auto
      have m: "nat (endSlice it' - currentSlice it') < nat (endSlice it - currentSlice it)"
        unfolding f using more by simp
      from less.hyps [OF m] less.prems s0 show "scan F (next_slice F it') =
         Some (concat (map (slice_yield F (yStart it) (yEnd it))
                         [currentSlice it + 1 + 1 .. endSlice it - 1]))"
        unfolding f by simp
    qed
    show ?thesis
    proof (cases "c = count F")
      case True
      then have y: "slice_yield F (yStart it) (yEnd it) (currentSlice it + 1) = []"
        by (simp add: slice_yield_def cp)
      from True have "next_slice F it = next_slice F ?it2"
        by (simp add: next_slice_more [OF more cp] del: next_slice.simps)
      with IH [of ?it2] y show ?thesis
        unfolding up by simp
    next
      case False
      with bounds have b: "c \<le> p" "p < count F" by auto
      from False have y: "slice_yield F (yStart it) (yEnd it) (currentSlice it + 1) =
                          map (\<lambda>j. stars F ! j) [c..<Suc p]"
        by (simp add: slice_yield_def cp)
      from False have ns: "next_slice F it = ?it2"
        by (simp add: next_slice_more [OF more cp] del: next_slice.simps)
      have "scan F ?it2 =
         Option.bind (scan F (next_slice F (?it2\<lparr>current := pend ?it2\<rparr>)))
           (\<lambda>r. Some (map (\<lambda>j. stars F ! j) [current ?it2..<Suc (pend ?it2)] @ r))"
        by (rule scan_within) (use b in simp_all)
      also have "\<dots> = Some (map (\<lambda>j. stars F ! j) [c..<Suc p] @
          concat (map (slice_yield F (yStart it) (yEnd it))
                         [currentSlice it + 1 + 1 .. endSlice it - 1]))"
        using IH [of "?it2\<lparr>current := p\<rparr>"] by simp
      finally show ?thesis
        unfolding ns up using y by simp
    qed
  qed
qed

lemma endSliceOf_le: "wf_finder F \<Longrightarrow> endSliceOf F Where MaxDist \<le> int (nslice F)"
  by (auto simp: endSliceOf_def wf_finder_def)

lemma startSliceOf_ge: "0 \<le> startSliceOf F Where MaxDist"
  by (simp add: startSliceOf_def)

lemma scan_begin_scan:
  assumes wf: "wf_finder F"
  shows "scan F (begin_scan F Where MaxDist) = Some (scanned F Where MaxDist)"
proof (cases "startSliceOf F Where MaxDist \<ge> int (nslice F) \<or> endSliceOf F Where MaxDist < 0")
  case True
  then show ?thesis
    by (simp add: begin_scan_def scanned_def scan_exhausted)
next
  case False
  let ?it0 = "\<lparr>current = count F, pend = count F,
               currentSlice = startSliceOf F Where MaxDist - 1,
               endSlice = endSliceOf F Where MaxDist,
               yStart = py Where - MaxDist, yEnd = py Where + MaxDist\<rparr>"
  have b: "begin_scan F Where MaxDist = next_slice F ?it0"
    using False by (simp add: begin_scan_def increment_def Let_def)
  have "scan F (next_slice F ?it0) =
         Some (concat (map (slice_yield F (yStart ?it0) (yEnd ?it0))
                         [currentSlice ?it0 + 1 .. endSlice ?it0 - 1]))"
    by (rule scan_next_slice [OF wf])
       (use startSliceOf_ge [of F Where MaxDist] endSliceOf_le [OF wf, of Where MaxDist] in simp_all)
  with False show ?thesis
    unfolding b by (simp add: scanned_def)
qed

lemma scan_SomeD:
  assumes "scan F it = Some ys"
  shows "(current it = count F \<and> ys = []) \<or>
         (current it \<noteq> count F \<and>
          (\<exists>r. scan F (increment F it) = Some r \<and> ys = stars F ! current it # r))"
proof (cases "current it = count F")
  case True
  with assms show ?thesis by (simp add: scan_exhausted)
next
  case False
  from assms have "Option.bind (scan F (increment F it))
                     (\<lambda>r. Some (stars F ! current it # r)) = Some ys"
    unfolding scan_step [OF False] .
  then obtain r where "scan F (increment F it) = Some r" "ys = stars F ! current it # r"
    by (cases "scan F (increment F it)") auto
  with False show ?thesis by blast
qed

lemma closest_step_pair:
  "closest_step Where SkipIt s (pbest, m) =
     (if (case SkipIt of None \<Rightarrow> False | Some skip \<Rightarrow> skip s) then (pbest, m)
      else if Dist2 Where s < m then (Some s, Dist2 Where s) else (pbest, m))"
  by (simp add: closest_step_def skipped_def)

text \<open>The loop of \<open>FindClosest\<close> folds \<open>closest_step\<close> over the stars the scan yields.\<close>

lemma FindClosest_loop_fold:
  "scan F it = Some ys \<Longrightarrow>
   FindClosest_loop F Where SkipIt it pbest minDist2 =
     Some (fst (fold (closest_step Where SkipIt) ys (pbest, minDist2)))"
proof (induction ys arbitrary: it pbest minDist2)
  case Nil
  with scan_SomeD [OF Nil] have "current it = count F" by auto
  then show ?case
    by (subst FindClosest_loop.simps) simp
next
  case (Cons y ys)
  from scan_SomeD [OF Cons.prems]
  have ne: "current it \<noteq> count F" and r: "scan F (increment F it) = Some ys"
    and y: "y = stars F ! current it"
    by auto
  note IH = Cons.IH [OF r]
  show ?case
    using ne
    by (subst FindClosest_loop.simps)
       (simp add: IH y [symmetric] closest_step_pair Let_def)
qed

lemma closest_inv_fold:
  "closest_inv Where SkipIt M ys (fold (closest_step Where SkipIt) ys (None, M))"
proof (induction ys rule: rev_induct)
  case Nil
  show ?case by (simp add: closest_inv_def)
next
  case (snoc y ys)
  obtain r m where acc: "fold (closest_step Where SkipIt) ys (None, M) = (r, m)"
    by (metis surj_pair)
  from snoc have inv: "closest_inv Where SkipIt M ys (r, m)"
    unfolding acc .
  have "closest_inv Where SkipIt M (ys @ [y]) (closest_step Where SkipIt y (r, m))"
  proof (cases r)
    case None
    with inv show ?thesis
      by (auto simp: closest_inv_def closest_step_def)
  next
    case (Some s)
    with inv show ?thesis
      by (auto simp: closest_inv_def closest_step_def)
  qed
  then show ?case
    by (simp add: acc)
qed

declare advance_istar.simps [simp del] fill_index.simps [simp del]

lemma sorted_px_nth:
  "sorted (map px sts) \<Longrightarrow> i \<le> j \<Longrightarrow> j < length sts \<Longrightarrow> px (sts ! i) \<le> px (sts ! j)"
  using sorted_nth_mono [of "map px sts" i j] by simp

text \<open>
  On stars sorted in \<open>x\<close>, the inner loop stops at the first star that is not below \<open>xend\<close>.
\<close>

lemma advance_istar_spec:
  "sorted (map px sts) \<Longrightarrow> istar \<le> length sts \<Longrightarrow> \<forall>j<istar. px (sts ! j) < xend \<Longrightarrow>
         istar \<le> advance_istar sts xend istar \<and>
         advance_istar sts xend istar \<le> length sts \<and>
         (\<forall>j<length sts. j < advance_istar sts xend istar \<longleftrightarrow> px (sts ! j) < xend)"
proof (induction sts xend istar rule: advance_istar.induct)
  case (1 sts' xend istar)
  show ?case
  proof (cases "istar < length sts' \<and> px (sts' ! istar) < xend")
    case True
    then have eq: "advance_istar sts' xend istar = advance_istar sts' xend (istar + 1)"
      by (subst advance_istar.simps) simp
    have a: "istar + 1 \<le> length sts'" using True by simp
    have b: "\<forall>j<istar + 1. px (sts' ! j) < xend"
      using True 1(4) by (simp add: less_Suc_eq)
    from 1(1) [OF True 1(2) a b] show ?thesis
      unfolding eq by simp
  next
    case False
    then have eq: "advance_istar sts' xend istar = istar"
      by (subst advance_istar.simps) auto
    have "\<forall>j<length sts'. j < istar \<longleftrightarrow> px (sts' ! j) < xend"
    proof (intro allI impI iffI)
      fix j assume "j < length sts'" "j < istar"
      with 1(4) show "px (sts' ! j) < xend" by simp
    next
      fix j assume j: "j < length sts'" and lt: "px (sts' ! j) < xend"
      show "j < istar"
      proof (rule ccontr)
        assume "\<not> j < istar"
        then have le: "istar \<le> j" by simp
        with j False have "\<not> px (sts' ! istar) < xend" by simp
        moreover have "px (sts' ! istar) \<le> px (sts' ! j)"
          by (rule sorted_px_nth [OF 1(2) le j])
        ultimately show False using lt by simp
      qed
    qed
    with 1(3) show ?thesis unfolding eq by simp
  qed
qed


lemma fill_index_spec:
  "sorted (map px sts) \<Longrightarrow> 0 \<le> xst \<Longrightarrow>
         istar \<le> length sts \<Longrightarrow> \<forall>j<istar. px (sts ! j) < xmn + real islice * xst \<Longrightarrow>
         nsl < length idx \<Longrightarrow>
         length (fill_index sts xmn xst nsl islice istar idx) = length idx \<and>
         (\<forall>k. k < islice \<or> nsl \<le> k \<longrightarrow>
              fill_index sts xmn xst nsl islice istar idx ! k = idx ! k) \<and>
         (\<forall>k. islice \<le> k \<and> k < nsl \<longrightarrow>
              fill_index sts xmn xst nsl islice istar idx ! k \<le> length sts \<and>
              (\<forall>j<length sts. j < fill_index sts xmn xst nsl islice istar idx ! k \<longleftrightarrow>
                   px (sts ! j) < xmn + real k * xst))"
proof (induction sts xmn xst nsl islice istar idx rule: fill_index.induct)
  case (1 sts' xmn xst' nsl islice istar idx)
  note srt = 1(2) and xst = 1(3) and p1 = 1(4) and p2 = 1(5) and p3 = 1(6)
  show ?case
  proof (cases "islice < nsl")
    case False
    then have eq: "fill_index sts' xmn xst' nsl islice istar idx = idx"
      by (subst fill_index.simps) simp
    from False show ?thesis unfolding eq by simp
  next
    case True
    define xend where "xend = xmn + real islice * xst'"
    define istar1 where "istar1 = advance_istar sts' xend istar"
    have eq: "fill_index sts' xmn xst' nsl islice istar idx =
              fill_index sts' xmn xst' nsl (islice + 1) istar1 (idx[islice := istar1])"
      using True by (subst fill_index.simps) (simp add: Let_def xend_def istar1_def)
    from advance_istar_spec [OF srt p1, of xend] p2
    have adv: "istar \<le> istar1" "istar1 \<le> length sts'"
      "\<forall>j<length sts'. j < istar1 \<longleftrightarrow> px (sts' ! j) < xend"
      unfolding xend_def istar1_def by auto
    have mono: "xend \<le> xmn + real (islice + 1) * xst'"
      using xst unfolding xend_def by (simp add: algebra_simps)
    have b: "\<forall>j<istar1. px (sts' ! j) < xmn + real (islice + 1) * xst'"
    proof (intro allI impI)
      fix j assume j: "j < istar1"
      with adv(2) have "j < length sts'" by simp
      with adv(3) j have "px (sts' ! j) < xend" by blast
      with mono show "px (sts' ! j) < xmn + real (islice + 1) * xst'" by simp
    qed
    have c: "nsl < length (idx[islice := istar1])" using p3 by simp
    note IH = 1(1) [OF True xend_def istar1_def srt xst adv(2) b c]
    let ?r = "fill_index sts' xmn xst' nsl (islice + 1) istar1 (idx[islice := istar1])"
    from IH have len: "length ?r = length idx" by simp
    from IH have same: "\<And>k. k < islice + 1 \<or> nsl \<le> k \<Longrightarrow> ?r ! k = idx[islice := istar1] ! k"
      by blast
    from IH have rest: "\<And>k. islice + 1 \<le> k \<Longrightarrow> k < nsl \<Longrightarrow>
        ?r ! k \<le> length sts' \<and>
        (\<forall>j<length sts'. j < ?r ! k \<longleftrightarrow> px (sts' ! j) < xmn + real k * xst')"
      by blast
    have at: "?r ! islice = istar1"
      using same [of islice] True p3 by simp
    show ?thesis
      unfolding eq
    proof (intro conjI allI impI)
      show "length ?r = length idx" by (rule len)
    next
      fix k assume "k < islice \<or> nsl \<le> k"
      with True have "k < islice + 1 \<or> nsl \<le> k" "k \<noteq> islice" by auto
      with same [of k] show "?r ! k = idx ! k" by simp
    next
      fix k assume k: "islice \<le> k \<and> k < nsl"
      show "?r ! k \<le> length sts'"
      proof (cases "k = islice")
        case True
        with at adv show ?thesis by simp
      next
        case False
        with k rest [of k] show ?thesis by simp
      qed
    next
      fix k j assume k: "islice \<le> k \<and> k < nsl" and j: "j < length sts'"
      show "j < ?r ! k \<longleftrightarrow> px (sts' ! j) < xmn + real k * xst'"
      proof (cases "k = islice")
        case True
        with at adv j show ?thesis by (simp add: xend_def)
      next
        case False
        with k rest [of k] j show ?thesis by simp
      qed
    qed
  qed
qed

lemma sort_slice_append:
  assumes "length A = a" "a \<le> b"
  shows "sort_slice a b (A @ drop a sts) = A @ sort_key py (take (b - a) (drop a sts)) @ drop b sts"
proof -
  have "drop b (A @ drop a sts) = drop (b - a) (drop a sts)"
    using assms by simp
  also have "\<dots> = drop b sts"
    using assms by simp
  finally show ?thesis
    using assms by (simp add: sort_slice_def)
qed

text \<open>
  Sorting the slices one after the other gives the slices of the \<open>x\<close>-sorted vector, each
  sorted in \<open>y\<close>.
\<close>

lemma fold_sort_slice:
  assumes "idx ! 0 = 0"
  shows "\<forall>k<n. idx ! k \<le> idx ! (k + 1) \<Longrightarrow> idx ! n \<le> length sts \<Longrightarrow>
         fold (\<lambda>islice acc. sort_slice (idx ! islice) (idx ! (islice + 1)) acc) [0..<n] sts =
           concat (map (\<lambda>k. sort_key py (take (idx ! (k + 1) - idx ! k) (drop (idx ! k) sts)))
                     [0..<n]) @ drop (idx ! n) sts \<and>
         length (concat (map (\<lambda>k. sort_key py (take (idx ! (k + 1) - idx ! k) (drop (idx ! k) sts)))
                     [0..<n])) = idx ! n"
proof (induction n)
  case 0
  show ?case using assms by simp
next
  case (Suc n)
  let ?A = "concat (map (\<lambda>k. sort_key py (take (idx ! (k + 1) - idx ! k) (drop (idx ! k) sts)))
                     [0..<n])"
  have le: "idx ! n \<le> idx ! (n + 1)" using Suc.prems(1) by simp
  have len: "idx ! n \<le> length sts" using le Suc.prems(2) by simp
  have m: "\<forall>k<n. idx ! k \<le> idx ! (k + 1)" using Suc.prems(1) by simp
  from Suc.IH [OF m len]
  have f: "fold (\<lambda>islice acc. sort_slice (idx ! islice) (idx ! (islice + 1)) acc) [0..<n] sts =
             ?A @ drop (idx ! n) sts"
    and l: "length ?A = idx ! n"
    by simp_all
  have s: "sort_slice (idx ! n) (idx ! (n + 1)) (?A @ drop (idx ! n) sts) =
           ?A @ sort_key py (take (idx ! (n + 1) - idx ! n) (drop (idx ! n) sts)) @
             drop (idx ! (n + 1)) sts"
    by (rule sort_slice_append [OF l le])
  have l2: "length (sort_key py (take (idx ! (n + 1) - idx ! n) (drop (idx ! n) sts))) =
            idx ! (n + 1) - idx ! n"
    using Suc.prems(2) by simp
  show ?case
    using f s l l2 le by simp
qed

lemma replicate_nth0: "s \<le> n \<Longrightarrow> replicate (n + 1) (0::nat) ! s = 0"
  using nth_replicate [of s "n + 1" "0::nat"] by (simp del: replicate.simps replicate_Suc)

lemma FastFinder_ctor_empty:
  "FastFinder_ctor [] NXslice =
     \<lparr>count = 0, stars = [], nslice = NXslice, index = replicate (NXslice + 1) 0,
      xmin = 0, xmax = 0, xstep = 0\<rparr>"
  by (simp add: FastFinder_ctor_def)

text \<open>What the constructor builds from a list that is not empty.\<close>

lemma FastFinder_ctor_nonempty:
  assumes ne: "List \<noteq> []" and nx: "0 < NXslice"
  defines "sts \<equiv> sort_key px List"
  defines "F \<equiv> FastFinder_ctor List NXslice"
  shows "count F = length List"
    and "0 < nslice F"
    and "nslice F \<le> NXslice"
    and "length (index F) = NXslice + 1"
    and "xmin F = px (sts ! 0)"
    and "xmax F = px (sts ! (length List - 1))"
    and "xstep F = (xmax F - xmin F) / real (nslice F)"
    and "xmin F = xmax F \<Longrightarrow> nslice F = 1"
    and "index F ! 0 = 0"
    and "index F ! nslice F = length List"
    and "\<And>k. 0 < k \<Longrightarrow> k < nslice F \<Longrightarrow>
           index F ! k \<le> length List \<and>
           (\<forall>j<length List. j < index F ! k \<longleftrightarrow> px (sts ! j) < xmin F + real k * xstep F)"
    and "\<And>k. k < nslice F \<Longrightarrow> index F ! k \<le> index F ! (k + 1)"
    and "stars F =
           concat (map (\<lambda>k. sort_key py (take (index F ! (k + 1) - index F ! k)
                                            (drop (index F ! k) sts))) [0..<nslice F])"
    and "length (stars F) = length List"
proof -
  define cnt where "cnt = length List"
  define idx0 :: "nat list" where "idx0 = replicate (NXslice + 1) 0"
  define xmn where "xmn = px (sts ! 0)"
  define xmx where "xmx = px (sts ! (cnt - 1))"
  define nsl where "nsl = (if xmn = xmx then 1 else min NXslice cnt)"
  define xst where "xst = (xmx - xmn) / real nsl"
  define idx1 where "idx1 = fill_index sts xmn xst nsl 1 0 (idx0[0 := 0])"
  define idx2 where "idx2 = idx1[nsl := cnt]"
  define sts1 where "sts1 = fold (\<lambda>islice acc. sort_slice (idx2 ! islice) (idx2 ! (islice + 1)) acc)
                         [0..<nsl] sts"
  have cpos: "0 < cnt" using ne by (simp add: cnt_def)
  have F: "F = \<lparr>count = cnt, stars = sts1, nslice = nsl, index = idx2,
                xmin = xmn, xmax = xmx, xstep = xst\<rparr>"
    using cpos
    unfolding F_def FastFinder_ctor_def Let_def sts_def [symmetric] cnt_def [symmetric]
      idx0_def [symmetric] xmn_def [symmetric] xmx_def [symmetric] nsl_def [symmetric]
      xst_def [symmetric] idx1_def [symmetric] idx2_def [symmetric] sts1_def [symmetric]
    by simp
  have len: "length sts = cnt" by (simp add: sts_def cnt_def)
  have srt: "sorted (map px sts)" by (simp add: sts_def)
  have npos: "0 < nsl" using nx cpos by (simp add: nsl_def)
  have nle: "nsl \<le> NXslice" using nx by (simp add: nsl_def)
  have nlt: "nsl < length (idx0[0 := 0])" using nle by (simp add: idx0_def)
  have xle: "xmn \<le> xmx"
    unfolding xmn_def xmx_def using cpos len by (intro sorted_px_nth [OF srt]) simp_all
  have xst0: "0 \<le> xst" using xle npos by (simp add: xst_def)
  have "0 \<le> length sts" by simp
  note spec = fill_index_spec [OF srt xst0 this _ nlt, of xmn 1, folded idx1_def]
  have l1: "length idx1 = NXslice + 1"
    using spec by (simp add: idx0_def)
  have z1: "idx1 ! 0 = 0"
    using spec by (simp add: idx0_def)
  have c1: "\<And>k. 0 < k \<Longrightarrow> k < nsl \<Longrightarrow>
      idx1 ! k \<le> cnt \<and> (\<forall>j<cnt. j < idx1 ! k \<longleftrightarrow> px (sts ! j) < xmn + real k * xst)"
  proof -
    fix k :: nat assume "0 < k" "k < nsl"
    then have "1 \<le> k \<and> k < nsl" by simp
    with spec show "idx1 ! k \<le> cnt \<and> (\<forall>j<cnt. j < idx1 ! k \<longleftrightarrow> px (sts ! j) < xmn + real k * xst)"
      unfolding len by blast
  qed
  have l2: "length idx2 = NXslice + 1" using l1 by (simp add: idx2_def)
  have at: "idx2 ! nsl = cnt" using nle l1 by (simp add: idx2_def)
  have other: "\<And>k. k \<noteq> nsl \<Longrightarrow> idx2 ! k = idx1 ! k" by (simp add: idx2_def)
  have z2: "idx2 ! 0 = 0" using other [of 0] npos z1 by simp
  have c2: "\<And>k. 0 < k \<Longrightarrow> k < nsl \<Longrightarrow>
      idx2 ! k \<le> cnt \<and> (\<forall>j<cnt. j < idx2 ! k \<longleftrightarrow> px (sts ! j) < xmn + real k * xst)"
    using c1 other by simp
  have le_cnt: "\<And>k. k \<le> nsl \<Longrightarrow> idx2 ! k \<le> cnt"
  proof -
    fix k assume k: "k \<le> nsl"
    show "idx2 ! k \<le> cnt"
    proof (cases "k = nsl")
      case True
      with at show ?thesis by simp
    next
      case False
      show ?thesis
      proof (cases "k = 0")
        case True
        with z2 show ?thesis by simp
      next
        case False
        with k \<open>k \<noteq> nsl\<close> c2 [of k] show ?thesis by simp
      qed
    qed
  qed
  have mono: "\<And>k. k < nsl \<Longrightarrow> idx2 ! k \<le> idx2 ! (k + 1)"
  proof -
    fix k assume k: "k < nsl"
    show "idx2 ! k \<le> idx2 ! (k + 1)"
    proof (cases "k + 1 = nsl")
      case True
      with at le_cnt [of k] k show ?thesis by simp
    next
      case False
      with k have k1: "k + 1 < nsl" by simp
      show ?thesis
      proof (cases "k = 0")
        case True
        with z2 show ?thesis by simp
      next
        case False
        then have kp: "0 < k" by simp
        show ?thesis
        proof (rule ccontr)
          assume "\<not> idx2 ! k \<le> idx2 ! (k + 1)"
          then have lt: "idx2 ! (k + 1) < idx2 ! k" by simp
          with c2 [OF kp k] have j: "idx2 ! (k + 1) < cnt" by simp
          with c2 [OF kp k] lt have "px (sts ! (idx2 ! (k + 1))) < xmn + real k * xst"
            by blast
          also have "\<dots> \<le> xmn + real (k + 1) * xst"
            using xst0 by (simp add: algebra_simps)
          finally have p: "px (sts ! (idx2 ! (k + 1))) < xmn + real (k + 1) * xst" .
          have "0 < k + 1" by simp
          from c2 [OF this k1]
          have "\<forall>j<cnt. j < idx2 ! (k + 1) \<longleftrightarrow> px (sts ! j) < xmn + real (k + 1) * xst"
            by (rule conjunct2)
          with j p have "idx2 ! (k + 1) < idx2 ! (k + 1)" by blast
          then show False by blast
        qed
      qed
    qed
  qed
  have m: "\<forall>k<nsl. idx2 ! k \<le> idx2 ! (k + 1)" using mono by blast
  have "idx2 ! nsl \<le> length sts" using at len by simp
  from fold_sort_slice [OF z2 m this, folded sts1_def]
  have st: "sts1 = concat (map (\<lambda>k. sort_key py (take (idx2 ! (k + 1) - idx2 ! k) (drop (idx2 ! k) sts)))
                     [0..<nsl]) @ drop (idx2 ! nsl) sts"
    and stl: "length (concat (map (\<lambda>k. sort_key py (take (idx2 ! (k + 1) - idx2 ! k) (drop (idx2 ! k) sts)))
                     [0..<nsl])) = idx2 ! nsl"
    by simp_all
  have dr: "drop (idx2 ! nsl) sts = []" using at len by simp
  show "count F = length List" by (simp add: F cnt_def)
  show "0 < nslice F" using npos by (simp add: F)
  show "nslice F \<le> NXslice" using nle by (simp add: F)
  show "length (index F) = NXslice + 1" using l2 by (simp add: F)
  show "xmin F = px (sts ! 0)" by (simp add: F xmn_def)
  show "xmax F = px (sts ! (length List - 1))" by (simp add: F xmx_def cnt_def)
  show "xstep F = (xmax F - xmin F) / real (nslice F)" by (simp add: F xst_def)
  show "xmin F = xmax F \<Longrightarrow> nslice F = 1" by (simp add: F nsl_def)
  show "index F ! 0 = 0" using z2 by (simp add: F)
  show "index F ! nslice F = length List" using at by (simp add: F cnt_def)
  show "\<And>k. 0 < k \<Longrightarrow> k < nslice F \<Longrightarrow>
           index F ! k \<le> length List \<and>
           (\<forall>j<length List. j < index F ! k \<longleftrightarrow> px (sts ! j) < xmin F + real k * xstep F)"
    using c2 by (simp add: F cnt_def)
  show "\<And>k. k < nslice F \<Longrightarrow> index F ! k \<le> index F ! (k + 1)"
    using mono by (simp add: F)
  show "stars F =
           concat (map (\<lambda>k. sort_key py (take (index F ! (k + 1) - index F ! k)
                                            (drop (index F ! k) sts))) [0..<nslice F])"
    using st dr by (simp add: F)
  show "length (stars F) = length List"
    using st dr stl at by (simp add: F cnt_def)
qed

lemma wf_finder_ctor:
  assumes "0 < NXslice"
  shows "wf_finder (FastFinder_ctor List NXslice)"
proof (cases "List = []")
  case True
  have "\<And>s. s < NXslice \<Longrightarrow>
      replicate (NXslice + 1) (0::nat) ! s \<le> replicate (NXslice + 1) 0 ! (s + 1)"
  proof -
    fix s assume s: "s < NXslice"
    then have a: "s \<le> NXslice" and b: "s + 1 \<le> NXslice" by simp_all
    have "replicate (NXslice + 1) (0::nat) ! s = 0"
      "replicate (NXslice + 1) (0::nat) ! (s + 1) = 0"
      by (rule replicate_nth0 [OF a], rule replicate_nth0 [OF b])
    then show "replicate (NXslice + 1) (0::nat) ! s \<le> replicate (NXslice + 1) 0 ! (s + 1)"
      by (simp only: le_refl)
  qed
  moreover have "replicate (NXslice + 1) (0::nat) ! NXslice = 0"
    by (rule replicate_nth0) simp
  ultimately show ?thesis
    using assms unfolding True FastFinder_ctor_empty wf_finder_def
    by (simp del: replicate.simps replicate_Suc)
next
  case False
  note f = FastFinder_ctor_nonempty [OF False assms]
  show ?thesis
    unfolding wf_finder_def
  proof (intro conjI allI impI)
    show "count (FastFinder_ctor List NXslice) = length (stars (FastFinder_ctor List NXslice))"
      using f(1) f(14) by simp
    show "nslice (FastFinder_ctor List NXslice) < length (index (FastFinder_ctor List NXslice))"
      using f(3) f(4) by simp
    show "0 < nslice (FastFinder_ctor List NXslice)" by (rule f(2))
    show "index (FastFinder_ctor List NXslice) ! nslice (FastFinder_ctor List NXslice) =
          count (FastFinder_ctor List NXslice)"
      using f(10) f(1) by simp
  next
    fix s assume "s < nslice (FastFinder_ctor List NXslice)"
    then show "index (FastFinder_ctor List NXslice) ! s \<le> index (FastFinder_ctor List NXslice) ! (s + 1)"
      by (rule f(12))
  qed
qed

lemma scanned_count0:
  assumes wf: "wf_finder F" and c: "count F = 0"
  shows "scanned F Where MaxDist = []"
proof -
  have "\<And>s. s \<in> set [startSliceOf F Where MaxDist .. endSliceOf F Where MaxDist - 1] \<Longrightarrow>
            slice_yield F (py Where - MaxDist) (py Where + MaxDist) s = []"
  proof -
    fix s assume "s \<in> set [startSliceOf F Where MaxDist .. endSliceOf F Where MaxDist - 1]"
    with startSliceOf_ge [of F Where MaxDist] endSliceOf_le [OF wf, of Where MaxDist]
    have s: "0 \<le> s" "s < int (nslice F)" by simp_all
    obtain a b where ab: "find_range_in_slice F s (py Where - MaxDist) (py Where + MaxDist) = (a, b)"
      by (metis surj_pair)
    from find_range_in_slice_bounds [OF wf s ab] c have "a = count F" by auto
    with ab show "slice_yield F (py Where - MaxDist) (py Where + MaxDist) s = []"
      by (simp add: slice_yield_def)
  qed
  then show ?thesis
    by (simp add: scanned_def)
qed

text \<open>\<open>FindClosest\<close> on a well-formed finder: the fold of its loop body over the scan.\<close>

lemma FindClosest_fold:
  assumes wf: "wf_finder F"
  shows "FindClosest F Where MaxDist SkipIt =
         Some (fst (fold (closest_step Where SkipIt) (scanned F Where MaxDist)
                      (None, MaxDist * MaxDist)))"
proof (cases "count F = 0")
  case True
  have "scanned F Where MaxDist = []"
    by (rule scanned_count0 [OF wf True])
  with True show ?thesis
    by (simp add: FindClosest_def)
next
  case False
  note sc = scan_begin_scan [OF wf, of Where MaxDist]
  show ?thesis
  proof (cases "current (begin_scan F Where MaxDist) = count F")
    case True
    with sc have "scanned F Where MaxDist = []"
      by (simp add: scan_exhausted)
    with True False show ?thesis
      by (simp add: FindClosest_def deref_def Let_def)
  next
    case ne: False
    from ne False FindClosest_loop_fold [OF sc] show ?thesis
      by (simp add: FindClosest_def deref_def Let_def)
  qed
qed

text \<open>
  C10. For a finder the constructor has built with at least one slice asked for, the scan
  ends and \<open>FindClosest\<close> returns. It returns a star only if the scan yields it, the
  predicate does not exclude it and the square of its distance to the point is strictly less
  than \<open>MaxDist * MaxDist\<close>, so that a star at exactly \<open>MaxDist\<close> is not returned; no
  yielded star that the predicate lets through is nearer than the returned one. It returns none
  exactly when no yielded star that the predicate lets through is strictly within \<open>MaxDist\<close>.
  (With \<open>NXslice = 0\<close> and all stars at the same \<open>x\<close> the constructor writes \<open>index[1]\<close>
  of a vector of one entry.)
\<close>

theorem FindClosest_closest:
  assumes "0 < NXslice"
  shows "\<exists>ys r.
     scan (FastFinder_ctor List NXslice)
       (begin_scan (FastFinder_ctor List NXslice) Where MaxDist) = Some ys \<and>
     FindClosest (FastFinder_ctor List NXslice) Where MaxDist SkipIt = Some r \<and>
     (case r of
        None \<Rightarrow> \<forall>t\<in>set ys. \<not> skipped SkipIt t \<longrightarrow> MaxDist * MaxDist \<le> Dist2 Where t
      | Some s \<Rightarrow>
          s \<in> set ys \<and> \<not> skipped SkipIt s \<and> Dist2 Where s < MaxDist * MaxDist \<and>
          (\<forall>t\<in>set ys. \<not> skipped SkipIt t \<longrightarrow> Dist2 Where s \<le> Dist2 Where t))"
proof -
  let ?F = "FastFinder_ctor List NXslice"
  let ?ys = "scanned ?F Where MaxDist"
  let ?acc = "fold (closest_step Where SkipIt) ?ys (None, MaxDist * MaxDist)"
  have wf: "wf_finder ?F" by (rule wf_finder_ctor [OF assms])
  have 1: "scan ?F (begin_scan ?F Where MaxDist) = Some ?ys"
    by (rule scan_begin_scan [OF wf])
  have 2: "FindClosest ?F Where MaxDist SkipIt = Some (fst ?acc)"
    by (rule FindClosest_fold [OF wf])
  have inv: "closest_inv Where SkipIt (MaxDist * MaxDist) ?ys ?acc"
    by (rule closest_inv_fold)
  have 3: "case fst ?acc of
        None \<Rightarrow> \<forall>t\<in>set ?ys. \<not> skipped SkipIt t \<longrightarrow> MaxDist * MaxDist \<le> Dist2 Where t
      | Some s \<Rightarrow>
          s \<in> set ?ys \<and> \<not> skipped SkipIt s \<and> Dist2 Where s < MaxDist * MaxDist \<and>
          (\<forall>t\<in>set ?ys. \<not> skipped SkipIt t \<longrightarrow> Dist2 Where s \<le> Dist2 Where t)"
  proof (cases "fst ?acc")
    case None
    with inv show ?thesis by (simp add: closest_inv_def)
  next
    case (Some s)
    with inv show ?thesis by (simp add: closest_inv_def)
  qed
  from 1 2 3 show ?thesis by blast
qed

lemma demo_finder:
  "FastFinder_ctor demo_stars 2 =
     \<lparr>count = 4, stars = [demo_star 0 0, demo_star 1 3, demo_star 3 1, demo_star 4 4],
      nslice = 2, index = [0, 2, 4], xmin = 0, xmax = 4, xstep = 2\<rparr>"
  by (simp add: FastFinder_ctor_def demo_stars_def demo_star_def Let_def sort_slice_def
      fill_index.simps advance_istar.simps numeral_3_eq_3)

lemma demo_scan2:
  "scan (FastFinder_ctor demo_stars 2)
     (begin_scan (FastFinder_ctor demo_stars 2) \<lparr>px = 3, py = 2\<rparr> 2) =
   Some [demo_star 0 0, demo_star 1 3, demo_star 3 1, demo_star 4 4]"
  unfolding demo_finder
  by (simp add: begin_scan_def startSliceOf_def endSliceOf_def trunc_def increment_def
      next_slice.simps find_range_in_slice_def locate_y_start_def locate_y_end_def
      locate_y_start_loop.simps locate_y_end_loop.simps scan.simps Let_def)

lemma demo_scan1:
  "scan (FastFinder_ctor demo_stars 2)
     (begin_scan (FastFinder_ctor demo_stars 2) \<lparr>px = 3, py = 2\<rparr> 1) =
   Some [demo_star 3 1, demo_star 4 4]"
  unfolding demo_finder
  by (simp add: begin_scan_def startSliceOf_def endSliceOf_def trunc_def increment_def
      next_slice.simps find_range_in_slice_def locate_y_start_def locate_y_end_def
      locate_y_start_loop.simps locate_y_end_loop.simps scan.simps Let_def)

theorem FindClosest_closest_witness:
  "(0::nat) < 2 \<and>
   scan (FastFinder_ctor demo_stars 2)
     (begin_scan (FastFinder_ctor demo_stars 2) \<lparr>px = 3, py = 2\<rparr> 2) =
     Some [demo_star 0 0, demo_star 1 3, demo_star 3 1, demo_star 4 4] \<and>
   FindClosest (FastFinder_ctor demo_stars 2) \<lparr>px = 3, py = 2\<rparr> 2 None =
     Some (Some (demo_star 3 1)) \<and>
   scan (FastFinder_ctor demo_stars 2)
     (begin_scan (FastFinder_ctor demo_stars 2) \<lparr>px = 3, py = 2\<rparr> 1) =
     Some [demo_star 3 1, demo_star 4 4] \<and>
   Dist2 \<lparr>px = 3, py = 2\<rparr> (demo_star 3 1) = 1 * 1 \<and>
   FindClosest (FastFinder_ctor demo_stars 2) \<lparr>px = 3, py = 2\<rparr> 1 None = Some None"
proof -
  have pos: "(0::nat) < 2" by simp
  from FindClosest_closest [OF pos, of demo_stars "\<lparr>px = 3, py = 2\<rparr>" 2 None]
  obtain ys r where a:
    "scan (FastFinder_ctor demo_stars 2)
       (begin_scan (FastFinder_ctor demo_stars 2) \<lparr>px = 3, py = 2\<rparr> 2) = Some ys"
    "FindClosest (FastFinder_ctor demo_stars 2) \<lparr>px = 3, py = 2\<rparr> 2 None = Some r"
    "case r of
        None \<Rightarrow> \<forall>t\<in>set ys. \<not> skipped None t \<longrightarrow> 2 * 2 \<le> Dist2 \<lparr>px = 3, py = 2\<rparr> t
      | Some s \<Rightarrow>
          s \<in> set ys \<and> \<not> skipped None s \<and> Dist2 \<lparr>px = 3, py = 2\<rparr> s < 2 * 2 \<and>
          (\<forall>t\<in>set ys. \<not> skipped None t \<longrightarrow> Dist2 \<lparr>px = 3, py = 2\<rparr> s \<le> Dist2 \<lparr>px = 3, py = 2\<rparr> t)"
    by (elim exE conjE)
  from a(1) have ys: "ys = [demo_star 0 0, demo_star 1 3, demo_star 3 1, demo_star 4 4]"
    unfolding demo_scan2 by simp
  from a(3) have "r = Some (demo_star 3 1)"
    unfolding ys
    by (cases r) (auto simp: skipped_def Dist2_def demo_star_def power2_eq_square)
  with a(2) have 1: "FindClosest (FastFinder_ctor demo_stars 2) \<lparr>px = 3, py = 2\<rparr> 2 None =
     Some (Some (demo_star 3 1))" by simp
  from FindClosest_closest [OF pos, of demo_stars "\<lparr>px = 3, py = 2\<rparr>" 1 None]
  obtain zs q where b:
    "scan (FastFinder_ctor demo_stars 2)
       (begin_scan (FastFinder_ctor demo_stars 2) \<lparr>px = 3, py = 2\<rparr> 1) = Some zs"
    "FindClosest (FastFinder_ctor demo_stars 2) \<lparr>px = 3, py = 2\<rparr> 1 None = Some q"
    "case q of
        None \<Rightarrow> \<forall>t\<in>set zs. \<not> skipped None t \<longrightarrow> 1 * 1 \<le> Dist2 \<lparr>px = 3, py = 2\<rparr> t
      | Some s \<Rightarrow>
          s \<in> set zs \<and> \<not> skipped None s \<and> Dist2 \<lparr>px = 3, py = 2\<rparr> s < 1 * 1 \<and>
          (\<forall>t\<in>set zs. \<not> skipped None t \<longrightarrow> Dist2 \<lparr>px = 3, py = 2\<rparr> s \<le> Dist2 \<lparr>px = 3, py = 2\<rparr> t)"
    by (elim exE conjE)
  from b(1) have zs: "zs = [demo_star 3 1, demo_star 4 4]"
    unfolding demo_scan1 by simp
  from b(3) have "q = None"
    unfolding zs
    by (cases q) (auto simp: skipped_def Dist2_def demo_star_def power2_eq_square)
  with b(2) have 2: "FindClosest (FastFinder_ctor demo_stars 2) \<lparr>px = 3, py = 2\<rparr> 1 None = Some None"
    by simp
  have 3: "Dist2 \<lparr>px = 3, py = 2\<rparr> (demo_star 3 1) = 1 * 1"
    by (simp add: Dist2_def demo_star_def)
  from pos demo_scan2 1 demo_scan1 3 2 show ?thesis
    by (intro conjI)
qed

declare locate_y_start_loop.simps [simp del] locate_y_end_loop.simps [simp del]




























end
